(* ===== verification/Prelude.thy ===== *)
theory Prelude
  imports Main "HOL-Library.Word"
begin

text \<open>
  Shared vocabulary of the development: the time and integer types the daemon uses, the pieces
  of the Rust standard library that several components call (\<open>Iterator::position\<close>,
  \<open>Vec::remove\<close>, \<open>Vec::drain(..n)\<close>, \<open>BTreeMap\<close> entries), the locale for an operation that
  preserves an invariant along a sequence of events, and the lemmas and theorem collections
  the component theories share.
\<close>

section \<open>Theorem collections\<close>

named_theorems model_defs \<open>definitions unfolded when a model operation is evaluated\<close>
named_theorems frame_simps \<open>what an operation leaves unchanged\<close>

section \<open>Types\<close>

text \<open>
  \<open>chrono::DateTime<Utc>\<close> and \<open>tokio::time::Instant\<close> are nanoseconds since an epoch;
  \<open>std::time::Duration\<close> is a count of nanoseconds that is never negative.
\<close>

type_synonym instant = int
type_synonym duration = nat
type_synonym u64 = "64 word"
type_synonym u32 = "32 word"

definition from_secs :: "nat \<Rightarrow> duration" where
  [model_defs]: "from_secs n = n * 1000000000"

text \<open>\<open>chrono::Duration::to_std\<close> fails on a negative difference.\<close>

definition to_std :: "int \<Rightarrow> duration option" where
  [model_defs]: "to_std d = (if d < 0 then None else Some (nat d))"

lemma to_std_pos: "now < t \<Longrightarrow> to_std (t - now) = Some (nat (t - now))"
  by (simp add: to_std_def)

section \<open>Exit codes\<close>

text \<open>The codes of \<open>src/src/cli/exit.rs\<close> that the modelled commands use.\<close>

definition EXIT_OK :: nat where [model_defs]: "EXIT_OK = 0"
definition EXIT_USAGE :: nat where [model_defs]: "EXIT_USAGE = 64"
definition EXIT_DATAERR :: nat where [model_defs]: "EXIT_DATAERR = 65"
definition EXIT_SOFTWARE :: nat where [model_defs]: "EXIT_SOFTWARE = 70"
definition EXIT_OSERR :: nat where [model_defs]: "EXIT_OSERR = 71"
definition EXIT_TEMPFAIL :: nat where [model_defs]: "EXIT_TEMPFAIL = 75"
definition EXIT_CONFIG :: nat where [model_defs]: "EXIT_CONFIG = 78"

section \<open>Vectors\<close>

text \<open>\<open>iter().position(p)\<close>: the index of the first element that satisfies \<open>p\<close>.\<close>

fun position :: "('a \<Rightarrow> bool) \<Rightarrow> 'a list \<Rightarrow> nat option" where
  "position p [] = None"
| "position p (x # xs) = (if p x then Some 0 else map_option Suc (position p xs))"

text \<open>\<open>Vec::remove(i)\<close> for an index in range: the rest of the vector.\<close>

definition remove_at :: "nat \<Rightarrow> 'a list \<Rightarrow> 'a list" where
  "remove_at i xs = take i xs @ drop (Suc i) xs"

lemma position_None_iff: "position p xs = None \<longleftrightarrow> (\<forall>x \<in> set xs. \<not> p x)"
  by (induction xs) auto

lemma position_SomeD:
  "position p xs = Some i \<Longrightarrow> i < length xs \<and> p (xs ! i) \<and> (\<forall>j < i. \<not> p (xs ! j))"
proof (induction xs arbitrary: i)
  case Nil
  then show ?case by simp
next
  case (Cons x xs)
  show ?case
  proof (cases "p x")
    case True
    with Cons.prems show ?thesis by simp
  next
    case False
    with Cons.prems obtain k where k: "position p xs = Some k" "i = Suc k" by auto
    with Cons.IH [OF k(1)] False show ?thesis by (auto simp: less_Suc_eq_0_disj)
  qed
qed

lemma position_Some_ex: "x \<in> set xs \<Longrightarrow> p x \<Longrightarrow> \<exists>i. position p xs = Some i"
  using position_None_iff [of p xs] by auto

lemma find_SomeD: "find p xs = Some x \<Longrightarrow> x \<in> set xs \<and> p x"
  by (induction xs) (auto split: if_splits)

text \<open>
  With pairwise distinct keys, removing the element found for a key is filtering the key out.
\<close>

lemma remove_at_position_filter:
  "distinct (map f xs) \<Longrightarrow> position (\<lambda>x. f x = k) xs = Some i
    \<Longrightarrow> remove_at i xs = filter (\<lambda>x. f x \<noteq> k) xs"
proof (induction xs arbitrary: i)
  case Nil
  then show ?case by simp
next
  case (Cons x xs)
  show ?case
  proof (cases "f x = k")
    case True
    with Cons.prems have "i = 0" by simp
    moreover from True Cons.prems(1) have "\<forall>y \<in> set xs. f y \<noteq> k" by (auto simp: image_iff)
    ultimately show ?thesis using True by (simp add: remove_at_def)
  next
    case False
    with Cons.prems obtain j where "position (\<lambda>x. f x = k) xs = Some j" "i = Suc j" by auto
    with Cons.IH Cons.prems False show ?thesis by (simp add: remove_at_def)
  qed
qed

lemma set_remove_at: "set (remove_at i xs) \<subseteq> set xs"
  by (auto simp: remove_at_def dest: in_set_takeD in_set_dropD)

lemma distinct_map_remove_at: "distinct (map f xs) \<Longrightarrow> distinct (map f (remove_at i xs))"
proof -
  assume d: "distinct (map f xs)"
  have "distinct (map f (take i xs) @ map f (drop i xs))"
    using d by (metis append_take_drop_id map_append)
  moreover have "map f (drop i xs) = [] \<or> map f (drop (Suc i) xs) = tl (map f (drop i xs))"
    by (simp add: drop_Suc drop_tl map_tl)
  ultimately show ?thesis
    by (cases "drop i xs") (auto simp: remove_at_def drop_Suc drop_tl)
qed

text \<open>
  Keeping the newest \<open>n\<close> entries of a vector: \<open>drain(..len - n)\<close> when it is too long.
\<close>

definition keep_last :: "nat \<Rightarrow> 'a list \<Rightarrow> 'a list" where
  "keep_last n xs = (if length xs > n then drop (length xs - n) xs else xs)"

lemma length_keep_last [simp]: "length (keep_last n xs) = min n (length xs)"
  by (simp add: keep_last_def)

lemma set_keep_last: "set (keep_last n xs) \<subseteq> set xs"
  by (auto simp: keep_last_def dest: in_set_dropD)

lemma last_keep_last: "0 < n \<Longrightarrow> xs \<noteq> [] \<Longrightarrow> last (keep_last n xs) = last xs"
  by (simp add: keep_last_def)

section \<open>Strings\<close>

text \<open>
  A \<open>str\<close> is its UTF-8 bytes. \<open>contains\<close>, \<open>to_ascii_lowercase\<close>, \<open>eq_ignore_ascii_case\<close>,
  \<open>strip_prefix\<close>, \<open>strip_suffix\<close>, the \<open>Display\<close> of an unsigned integer and \<open>u64::from_str\<close>.
\<close>

fun starts_with :: "string \<Rightarrow> string \<Rightarrow> bool" where
  "starts_with s [] = True"
| "starts_with [] (p # ps) = False"
| "starts_with (c # cs) (p # ps) = (c = p \<and> starts_with cs ps)"

lemma starts_with_iff: "starts_with s p \<longleftrightarrow> (\<exists>t. s = p @ t)"
  by (induction s p rule: starts_with.induct) auto

fun contains :: "string \<Rightarrow> string \<Rightarrow> bool" where
  "contains [] needle = (needle = [])"
| "contains (c # cs) needle = (starts_with (c # cs) needle \<or> contains cs needle)"

lemma contains_iff: "contains s needle \<longleftrightarrow> (\<exists>pre post. s = pre @ needle @ post)"
proof (induction s)
  case Nil
  show ?case by auto
next
  case (Cons c cs)
  show ?case
  proof
    assume "contains (c # cs) needle"
    then consider "starts_with (c # cs) needle" | "contains cs needle" by auto
    then show "\<exists>pre post. c # cs = pre @ needle @ post"
    proof cases
      case 1
      then obtain t where "c # cs = [] @ needle @ t" by (auto simp: starts_with_iff)
      then show ?thesis by blast
    next
      case 2
      then obtain pre post where "cs = pre @ needle @ post" using Cons.IH by blast
      then have "c # cs = (c # pre) @ needle @ post" by simp
      then show ?thesis by blast
    qed
  next
    assume "\<exists>pre post. c # cs = pre @ needle @ post"
    then obtain pre post where e: "c # cs = pre @ needle @ post" by blast
    show "contains (c # cs) needle"
    proof (cases pre)
      case Nil
      with e have "starts_with (c # cs) needle" unfolding starts_with_iff by simp
      then show ?thesis by simp
    next
      case (Cons x xs)
      with e \<open>contains cs needle = _\<close> show ?thesis by auto
    qed
  qed
qed

definition strip_prefix :: "string \<Rightarrow> string \<Rightarrow> string option" where
  "strip_prefix s p = (if starts_with s p then Some (drop (length p) s) else None)"

definition strip_suffix :: "string \<Rightarrow> string \<Rightarrow> string option" where
  "strip_suffix s p = (if starts_with (rev s) (rev p) then Some (take (length s - length p) s) else None)"

definition ascii_lower :: "char \<Rightarrow> char" where
  "ascii_lower c = (if 65 \<le> (of_char c :: nat) \<and> (of_char c :: nat) \<le> 90
     then char_of ((of_char c :: nat) + 32) else c)"

definition to_ascii_lowercase :: "string \<Rightarrow> string" where
  "to_ascii_lowercase s = map ascii_lower s"

definition eq_ignore_ascii_case :: "string \<Rightarrow> string \<Rightarrow> bool" where
  "eq_ignore_ascii_case a b \<longleftrightarrow> to_ascii_lowercase a = to_ascii_lowercase b"

text \<open>Quoted texts.\<close>

definition squoted :: "string \<Rightarrow> string" where
  "squoted s = [CHR 0x27] @ s @ [CHR 0x27]"

definition dquoted :: "string \<Rightarrow> string" where
  "dquoted s = [CHR 0x22] @ s @ [CHR 0x22]"

text \<open>\<open>join\<close>.\<close>

fun join :: "string \<Rightarrow> string list \<Rightarrow> string" where
  "join sep [] = []"
| "join sep [s] = s"
| "join sep (s # t # ss) = s @ sep @ join sep (t # ss)"

text \<open>The three bytes of an em dash, which several messages contain.\<close>

definition em_dash :: string where
  "em_dash = [CHR 0xE2, CHR 0x80, CHR 0x94]"

fun show_nat :: "nat \<Rightarrow> string" where
  "show_nat n = (if n < 10 then [char_of (48 + n)] else show_nat (n div 10) @ [char_of (48 + n mod 10)])"

declare show_nat.simps [simp del]

definition digit_val :: "char \<Rightarrow> nat option" where
  "digit_val c = (let n = of_char c :: nat in if 48 \<le> n \<and> n \<le> 57 then Some (n - 48) else None)"

text \<open>
  A byte of a character after its first one, and the first character that does not satisfy a
  predicate on single-byte characters, as its bytes.
\<close>

definition is_continuation :: "char \<Rightarrow> bool" where
  "is_continuation b \<longleftrightarrow> Bit_Operations.and (of_char b :: nat) 0xC0 = 0x80"

lemma continuation_not_control: "is_continuation b \<Longrightarrow> \<not> (of_char b :: nat) < 0x20"
proof
  assume c: "is_continuation b" and "(of_char b :: nat) < 0x20"
  then have "take_bit 5 (of_char b :: nat) = of_char b" by (simp add: take_bit_nat_eq_self)
  then have "Bit_Operations.and (of_char b :: nat) 0xC0 = Bit_Operations.and (take_bit 5 (of_char b)) 0xC0" by simp
  also have "\<dots> = take_bit 5 (Bit_Operations.and (of_char b) 0xC0)"
    by (simp add: take_bit_eq_mask ac_simps)
  finally show False using c by (simp add: is_continuation_def)
qed

definition first_other_char :: "(char \<Rightarrow> bool) \<Rightarrow> string \<Rightarrow> string option" where
  "first_other_char p s =
     (case dropWhile p s of [] \<Rightarrow> None | b # bs \<Rightarrow> Some (b # takeWhile is_continuation bs))"

lemma first_other_char_None: "first_other_char p s = None \<longleftrightarrow> list_all p s"
  by (induction s) (auto simp: first_other_char_def)

text \<open>\<open>u64::from_str\<close>: an optional \<open>+\<close>, at least one decimal digit, no overflow.\<close>

fun parse_digits :: "nat \<Rightarrow> string \<Rightarrow> nat option" where
  "parse_digits acc [] = Some acc"
| "parse_digits acc (c # cs) =
     (case digit_val c of None \<Rightarrow> None
      | Some d \<Rightarrow> let acc = 10 * acc + d in if acc < 2 ^ 64 then parse_digits acc cs else None)"

definition parse_u64 :: "string \<Rightarrow> nat option" where
  "parse_u64 s =
     (let body = (case s of c # cs \<Rightarrow> if c = CHR ''+'' then cs else s | [] \<Rightarrow> s)
      in if body = [] then None else parse_digits 0 body)"

lemma parse_digits_bound: "acc < 2 ^ 64 \<Longrightarrow> parse_digits acc s = Some n \<Longrightarrow> n < 2 ^ 64"
  by (induction s arbitrary: acc) (auto simp: Let_def split: option.splits if_splits)

lemma parse_u64_bound:
  assumes "parse_u64 s = Some n"
  shows "n < 2 ^ 64"
proof -
  obtain body where "parse_digits 0 body = Some n"
    using assms by (auto simp only: parse_u64_def Let_def split: if_splits)
  then show ?thesis by (rule parse_digits_bound [rotated]) simp
qed

section \<open>Operations that preserve an invariant\<close>

text \<open>
  Several components are a state and an operation per event. The contract a client relies on
  is that every event keeps the component's invariant; a whole run then keeps it, and a field
  that no event writes keeps its value.
\<close>

locale preserved_step =
  fixes step :: "'s \<Rightarrow> 'e \<Rightarrow> 's"
    and inv :: "'s \<Rightarrow> bool"
  assumes step_inv: "inv s \<Longrightarrow> inv (step s e)"
begin

lemma run_inv: "inv s \<Longrightarrow> inv (foldl step s es)"
  by (induction es arbitrary: s) (auto intro: step_inv)

lemma run_inv_prefix: "inv s \<Longrightarrow> inv (foldl step s (take n es))"
  by (rule run_inv)

end

text \<open>
  A component whose state is a map and whose events name the one key they touch: events for
  other keys do not change the entry, and the new entry depends on the old entry only.
\<close>

locale keyed_step =
  fixes step :: "'s \<Rightarrow> 'e \<Rightarrow> 's"
    and key :: "'e \<Rightarrow> 'k"
    and entry :: "'s \<Rightarrow> 'k \<Rightarrow> 'v option"
  assumes other_key: "key e \<noteq> k \<Longrightarrow> entry (step s e) k = entry s k"
    and same_key: "entry s (key e) = entry t (key e)
      \<Longrightarrow> entry (step s e) (key e) = entry (step t e) (key e)"
begin

lemma run_other_keys: "(\<And>e. e \<in> set es \<Longrightarrow> key e \<noteq> k) \<Longrightarrow> entry (foldl step s es) k = entry s k"
  by (induction es arbitrary: s) (auto simp: other_key)

lemma run_same_entry: "entry s k = entry t k \<Longrightarrow> entry (foldl step s es) k = entry (foldl step t es) k"
proof (induction es arbitrary: s t)
  case Nil
  then show ?case by simp
next
  case (Cons e es)
  have "entry (step s e) k = entry (step t e) k"
  proof (cases "key e = k")
    case True
    with Cons.prems show ?thesis using same_key [of s e t] by simp
  next
    case False
    with Cons.prems show ?thesis by (simp add: other_key)
  qed
  from Cons.IH [OF this] show ?case by simp
qed

text \<open>The entry of a key is determined by the subsequence of events for that key.\<close>

lemma run_projection:
  "entry (foldl step s es) k = entry (foldl step s (filter (\<lambda>e. key e = k) es)) k"
proof (induction es arbitrary: s)
  case Nil
  then show ?case by simp
next
  case (Cons e es)
  show ?case
  proof (cases "key e = k")
    case True
    then show ?thesis using Cons.IH by simp
  next
    case False
    then have "entry (foldl step (step s e) es) k = entry (foldl step s es) k"
      by (intro run_same_entry) (simp add: other_key)
    then show ?thesis using False Cons.IH by simp
  qed
qed

text \<open>
  Two schedules of the same per-key subsequences, interleaved in any way, agree on every key.
\<close>

lemma interleaving_irrelevant:
  assumes "\<And>k. filter (\<lambda>e. key e = k) es = filter (\<lambda>e. key e = k) es'"
  shows "entry (foldl step s es) k = entry (foldl step s es') k"
  using run_projection [of s es k] run_projection [of s es' k] assms [of k] by simp

end

end
