(* ===== verification/Github_Types.thy ===== *)
theory Github_Types
  imports Prelude
begin

text \<open>
  The GitHub vocabulary of the daemon (\<open>src/src/github/mod.rs\<close>) and its error policy
  (\<open>src/src/github/error/mod.rs\<close>, \<open>src/src/github/error/classify.rs\<close>): run conclusions and
  statuses with their API spellings, run, job and step summaries, the closed set of error
  kinds, the classifier from an HTTP status to a kind, and the retry decisions drawn from a
  kind. \<open>Utc::now()\<close> is the argument \<open>now\<close>; the text of an \<open>anyhow\<close> source is a string.
\<close>

section \<open>Conclusions and statuses\<close>

datatype conclusion = Success | Skipped | Neutral | Failure | TimedOut | Cancelled_run | ActionRequired | Unknown_conclusion

definition conclusion_from_api :: "string \<Rightarrow> conclusion" where
  "conclusion_from_api s =
     (if s = ''success'' then Success
      else if s = ''skipped'' then Skipped
      else if s = ''neutral'' then Neutral
      else if s = ''failure'' then Failure
      else if s = ''timed_out'' then TimedOut
      else if s = ''cancelled'' then Cancelled_run
      else if s = ''action_required'' then ActionRequired
      else Unknown_conclusion)"

fun conclusion_to_api :: "conclusion \<Rightarrow> string" where
  "conclusion_to_api Success = ''success''"
| "conclusion_to_api Skipped = ''skipped''"
| "conclusion_to_api Neutral = ''neutral''"
| "conclusion_to_api Failure = ''failure''"
| "conclusion_to_api TimedOut = ''timed_out''"
| "conclusion_to_api Cancelled_run = ''cancelled''"
| "conclusion_to_api ActionRequired = ''action_required''"
| "conclusion_to_api Unknown_conclusion = ''unknown''"

definition should_collapse :: "conclusion \<Rightarrow> bool" where
  "should_collapse c \<longleftrightarrow> (case c of Success \<Rightarrow> True | Skipped \<Rightarrow> True | Neutral \<Rightarrow> True | _ \<Rightarrow> False)"

fun label_for :: "conclusion \<Rightarrow> string" where
  "label_for Success = ''success''"
| "label_for Skipped = ''skipped''"
| "label_for Neutral = ''neutral''"
| "label_for Failure = ''failure''"
| "label_for TimedOut = ''timed out''"
| "label_for Cancelled_run = ''cancelled''"
| "label_for ActionRequired = ''action required''"
| "label_for Unknown_conclusion = ''unknown''"

datatype run_status = Queued | InProgress | Completed | Waiting | Unknown_status

definition run_status_from_api :: "string \<Rightarrow> run_status" where
  "run_status_from_api s =
     (if s = ''queued'' then Queued
      else if s = ''in_progress'' then InProgress
      else if s = ''completed'' then Completed
      else if s = ''waiting'' then Waiting
      else Unknown_status)"

fun run_status_label :: "run_status \<Rightarrow> string" where
  "run_status_label Queued = ''queued''"
| "run_status_label InProgress = ''in progress''"
| "run_status_label Completed = ''completed''"
| "run_status_label Waiting = ''waiting''"
| "run_status_label Unknown_status = ''unknown''"

definition is_terminal :: "run_status \<Rightarrow> bool" where
  "is_terminal s \<longleftrightarrow> s = Completed"

section \<open>Summaries\<close>

record step_result =
  sr_name :: string
  sr_number :: u32
  sr_conclusion :: "conclusion option"
  sr_started_at :: "instant option"
  sr_completed_at :: "instant option"

record job_result =
  job_id :: u64
  job_name :: string
  job_html_url :: string
  job_conclusion :: "conclusion option"
  job_started_at :: "instant option"
  job_completed_at :: "instant option"
  job_steps :: "step_result list"
  job_run_attempt :: u32

record run_summary =
  run_id :: u64
  run_url :: string
  run_number :: u64
  run_attempt :: u32
  run_status :: run_status
  run_conclusion :: "conclusion option"
  run_started_at :: "instant option"
  run_completed_at :: "instant option"
  run_jobs :: "job_result list"

section \<open>Error kinds\<close>

datatype github_error =
    Unauthorized string
  | Forbidden string
  | WorkflowNotFound string string
  | DispatchInvalid string
  | RateLimited string instant
  | ServerError nat nat
  | Timeout duration
  | Transport string
  | Unknown string
  | Cancelled
  | BodyTooLarge "nat option" nat

datatype retryability = Permanent | Transient

fun retryability_of :: "github_error \<Rightarrow> retryability" where
  "retryability_of (Unauthorized _) = Permanent"
| "retryability_of (Forbidden _) = Permanent"
| "retryability_of (WorkflowNotFound _ _) = Permanent"
| "retryability_of (DispatchInvalid _) = Permanent"
| "retryability_of Cancelled = Permanent"
| "retryability_of (BodyTooLarge _ _) = Permanent"
| "retryability_of (ServerError _ _) = Transient"
| "retryability_of (Timeout _) = Transient"
| "retryability_of (RateLimited _ _) = Transient"
| "retryability_of (Transport _) = Transient"
| "retryability_of (Unknown _) = Transient"

definition is_transient :: "github_error \<Rightarrow> bool" where
  "is_transient e \<longleftrightarrow> retryability_of e = Transient"

definition retry_after :: "instant \<Rightarrow> github_error \<Rightarrow> duration option" where
  "retry_after now e =
     (case e of
        RateLimited _ reset \<Rightarrow> if reset > now then to_std (reset - now) else Some (from_secs 0)
      | _ \<Rightarrow> None)"

definition SERVER_ERROR_MAX_ATTEMPTS :: nat where
  "SERVER_ERROR_MAX_ATTEMPTS = 6"

section \<open>Classification\<close>

record status_context =
  ctx_status :: nat
  ctx_message :: string
  ctx_remaining :: "nat option"
  ctx_reset :: "instant option"
  ctx_credential :: string
  ctx_repo :: string
  ctx_workflow :: string

definition resolve_reset :: "instant \<Rightarrow> instant option \<Rightarrow> instant" where
  "resolve_reset now reset =
     (case reset of Some r \<Rightarrow> if r > now then r else now + int (from_secs 60)
      | None \<Rightarrow> now + int (from_secs 60))"

definition message_indicates_dispatch_invalid :: "string \<Rightarrow> bool" where
  "message_indicates_dispatch_invalid message =
     (let lower = to_ascii_lowercase message
      in contains lower ''unexpected inputs'' \<or> contains lower ''gcit_run_id'')"

definition is_server_error :: "nat \<Rightarrow> bool" where
  "is_server_error status \<longleftrightarrow> 500 \<le> status \<and> status < 600"

definition classify_status :: "instant \<Rightarrow> status_context \<Rightarrow> github_error" where
  "classify_status now ctx =
     (let status = ctx_status ctx in
      if status = 401 then Unauthorized (ctx_credential ctx)
      else if status = 403 then
        (if ctx_remaining ctx = Some 0
         then RateLimited (ctx_credential ctx) (resolve_reset now (ctx_reset ctx))
         else Forbidden (ctx_credential ctx))
      else if status = 404 then WorkflowNotFound (ctx_repo ctx) (ctx_workflow ctx)
      else if status = 422 then
        (if message_indicates_dispatch_invalid (ctx_message ctx)
         then DispatchInvalid (ctx_workflow ctx)
         else Unknown (''github 422 on '' @ ctx_repo ctx @ ''/'' @ ctx_workflow ctx @ '': '' @ ctx_message ctx))
      else if status = 429 then RateLimited (ctx_credential ctx) (resolve_reset now (ctx_reset ctx))
      else if is_server_error status then ServerError status SERVER_ERROR_MAX_ATTEMPTS
      else Unknown (''uncategorised github status '' @ show_nat status))"

text \<open>
  \<open>octocrab::Error\<close> as \<open>classify\<close> sees it: a GitHub response with a status and a message, one of
  the four transport variants, or any other variant; the text is its \<open>Display\<close>.
\<close>

datatype octocrab_error = OctoGitHub nat string | OctoHyper string | OctoService string
  | OctoEncoder string | OctoHttp string | OctoOther string

definition classify ::
  "instant \<Rightarrow> octocrab_error \<Rightarrow> string \<Rightarrow> string \<Rightarrow> string \<Rightarrow> nat option \<Rightarrow> instant option \<Rightarrow> github_error"
where
  "classify now err credential repo workflow remaining reset =
     (case err of
        OctoGitHub status message \<Rightarrow>
          classify_status now \<lparr>ctx_status = status, ctx_message = message, ctx_remaining = remaining,
            ctx_reset = reset, ctx_credential = credential, ctx_repo = repo, ctx_workflow = workflow\<rparr>
      | OctoHyper e \<Rightarrow> Transport (''octocrab transport error: '' @ e)
      | OctoService e \<Rightarrow> Transport (''octocrab transport error: '' @ e)
      | OctoEncoder e \<Rightarrow> Transport (''octocrab transport error: '' @ e)
      | OctoHttp e \<Rightarrow> Transport (''octocrab transport error: '' @ e)
      | OctoOther e \<Rightarrow> Unknown (''octocrab error: '' @ e))"

definition timeout_error :: "duration \<Rightarrow> github_error" where
  "timeout_error deadline = Timeout deadline"

section \<open>Lemmas\<close>

lemma resolve_reset_future: "now < resolve_reset now reset"
  by (simp add: resolve_reset_def from_secs_def split: option.split)

lemma resolve_reset_keeps: "now < r \<Longrightarrow> resolve_reset now (Some r) = r"
  by (simp add: resolve_reset_def)

lemma is_transient_simps [simp]:
  "\<not> is_transient (Unauthorized a)" "\<not> is_transient (Forbidden a)"
  "\<not> is_transient (WorkflowNotFound a b)" "\<not> is_transient (DispatchInvalid a)"
  "\<not> is_transient Cancelled" "\<not> is_transient (BodyTooLarge d l)"
  "is_transient (ServerError n m)" "is_transient (Timeout t)" "is_transient (RateLimited a r)"
  "is_transient (Transport a)" "is_transient (Unknown a)"
  by (simp_all add: is_transient_def)

lemma retry_after_RateLimited:
  "retry_after now (RateLimited c r) = Some (if r > now then nat (r - now) else 0)"
  by (simp add: retry_after_def to_std_def from_secs_def)

lemma retry_after_Some_iff: "(\<exists>d. retry_after now e = Some d) \<longleftrightarrow> (\<exists>c r. e = RateLimited c r)"
  by (cases e) (auto simp: retry_after_def to_std_def)

section \<open>Properties\<close>

text \<open>
  Conclusions survive the state file: every known conclusion's API spelling reads back as
  itself, and an API string other than the seven known ones is kept apart as unknown.
\<close>

theorem conclusion_api_roundtrip:
  "conclusion_from_api (conclusion_to_api c) = c \<and>
   (conclusion_from_api s \<noteq> Unknown_conclusion) = (conclusion_to_api (conclusion_from_api s) = s \<and> s \<noteq> ''unknown'')"
  by (cases c) (auto simp: conclusion_from_api_def)

text \<open>
  Retry decisions follow the status: a classified response is permanent exactly for 401, for
  403 while quota remains (or is not reported), for 404, and for a 422 that names the missing
  workflow input; every other error status is retried.
\<close>

theorem classify_status_permanent_iff:
  "is_transient (classify_status now ctx) \<longleftrightarrow>
     \<not> (ctx_status ctx = 401 \<or> ctx_status ctx = 403 \<and> ctx_remaining ctx \<noteq> Some 0 \<or> ctx_status ctx = 404 \<or>
        ctx_status ctx = 422 \<and> message_indicates_dispatch_invalid (ctx_message ctx))"
  by (simp add: classify_status_def Let_def)

text \<open>
  A rate-limit classification always carries a hold-off: the reset lies strictly in the
  future of the classification, whatever stale or missing reset the response had, so the next
  attempt waits a positive time.
\<close>

theorem rate_limited_reset_in_future:
  assumes "classify now err credential repo workflow remaining reset = RateLimited c r"
  shows "now < r \<and> (\<exists>d > 0. retry_after now (RateLimited c r) = Some d)"
proof -
  have "now < r"
    using assms resolve_reset_future [of now reset]
    by (auto simp: classify_def classify_status_def Let_def split: octocrab_error.splits if_splits)
  then show ?thesis by (simp add: retry_after_RateLimited)
qed

theorem rate_limited_reset_in_future_witness:
  "(100 :: int) < 60000000100 \<and> (\<exists>d > 0. retry_after 100 (RateLimited ''pat'' 60000000100) = Some d)"
  using rate_limited_reset_in_future [of 100 "OctoGitHub 429 ''slow down''" "''pat''" "''o/r''" "''ci.yml''" None
      "Some 7" "''pat''" 60000000100]
  by (simp add: classify_def classify_status_def resolve_reset_def from_secs_def)

end
