(* ===== verification/Rate_Gates.thy ===== *)
theory Rate_Gates
  imports Github_Types
begin

text \<open>
  The two gates in front of the GitHub API: the per-credential minimum-interval bucket
  (\<open>src/src/git/rate_bucket.rs\<close>) with its callers as a concurrent system, and the
  per-credential quota snapshot with its poller (\<open>src/src/github/rate_limit.rs\<close>). Clock reads
  are arguments. Reading a header as text is part of the header map; the conversion of epoch
  seconds to a date (\<open>chrono\<close>) is the parameter \<open>timestamp_opt\<close>.
\<close>

section \<open>The minimum-interval bucket\<close>

record rate_bucket =
  rb_min_interval :: duration
  rb_last :: "instant option"

definition rate_bucket_new :: "duration \<Rightarrow> rate_bucket" where
  "rate_bucket_new min_interval = \<lparr>rb_min_interval = min_interval, rb_last = None\<rparr>"

text \<open>
  \<open>acquire\<close> has two critical sections around the sleep: the reservation of a slot, and the
  update on wake-up.
\<close>

definition acquire_reserve :: "instant \<Rightarrow> rate_bucket \<Rightarrow> instant \<times> rate_bucket" where
  "acquire_reserve now b =
     (let target = (case rb_last b of
                      None \<Rightarrow> now
                    | Some prev \<Rightarrow>
                       (let earliest = prev + int (rb_min_interval b)
                        in if earliest > now then earliest else now))
      in (target, b\<lparr>rb_last := Some target\<rparr>))"

definition acquire_wake :: "instant \<Rightarrow> rate_bucket \<Rightarrow> rate_bucket" where
  "acquire_wake now b =
     (case rb_last b of
        Some prev \<Rightarrow> if now > prev then b\<lparr>rb_last := Some now\<rparr> else b
      | None \<Rightarrow> b)"

definition try_acquire :: "instant \<Rightarrow> rate_bucket \<Rightarrow> rate_bucket \<times> (duration + unit)" where
  "try_acquire now b =
     (case rb_last b of
        None \<Rightarrow> (b\<lparr>rb_last := Some now\<rparr>, Inr ())
      | Some prev \<Rightarrow>
         (let target = prev + int (rb_min_interval b)
          in if target > now then (b, Inl (nat (target - now)))
             else (b\<lparr>rb_last := Some now\<rparr>, Inr ())))"

text \<open>
  Any number of callers share a bucket. \<open>pending\<close> are the reserved slots whose callers still
  sleep, \<open>slots\<close> every slot granted so far (newest first), \<open>returned\<close> the slot and the return
  time of every call that has come back. A sleeping caller may be dropped by cancellation, and
  a wake-up may come any time after the slot.
\<close>

record bucket_sys =
  bs_clock :: instant
  bs_bucket :: rate_bucket
  bs_pending :: "instant list"
  bs_slots :: "instant list"
  bs_returned :: "(instant \<times> instant) list"

definition bucket_init :: "duration \<Rightarrow> instant \<Rightarrow> bucket_sys" where
  "bucket_init min_interval t = \<lparr>bs_clock = t, bs_bucket = rate_bucket_new min_interval,
     bs_pending = [], bs_slots = [], bs_returned = []\<rparr>"

inductive bucket_step :: "bucket_sys \<Rightarrow> bucket_sys \<Rightarrow> bool" where
  tick: "bs_clock s \<le> t \<Longrightarrow> bucket_step s (s\<lparr>bs_clock := t\<rparr>)"
| reserve: "acquire_reserve (bs_clock s) (bs_bucket s) = (slot, b) \<Longrightarrow>
    bucket_step s (s\<lparr>bs_bucket := b, bs_pending := slot # bs_pending s, bs_slots := slot # bs_slots s\<rparr>)"
| wake: "slot \<in> set (bs_pending s) \<Longrightarrow> slot \<le> bs_clock s \<Longrightarrow>
    bucket_step s (s\<lparr>bs_bucket := acquire_wake (bs_clock s) (bs_bucket s),
      bs_pending := remove1 slot (bs_pending s), bs_returned := (slot, bs_clock s) # bs_returned s\<rparr>)"
| drop: "slot \<in> set (bs_pending s) \<Longrightarrow> bucket_step s (s\<lparr>bs_pending := remove1 slot (bs_pending s)\<rparr>)"
| try_granted: "try_acquire (bs_clock s) (bs_bucket s) = (b, Inr ()) \<Longrightarrow>
    bucket_step s (s\<lparr>bs_bucket := b, bs_slots := bs_clock s # bs_slots s,
      bs_returned := (bs_clock s, bs_clock s) # bs_returned s\<rparr>)"
| try_refused: "try_acquire (bs_clock s) (bs_bucket s) = (b, Inl d) \<Longrightarrow>
    bucket_step s (s\<lparr>bs_bucket := b\<rparr>)"

inductive bucket_reach :: "duration \<Rightarrow> bucket_sys \<Rightarrow> bool" for min_interval where
  init: "bucket_reach min_interval (bucket_init min_interval t)"
| step: "bucket_reach min_interval s \<Longrightarrow> bucket_step s s' \<Longrightarrow> bucket_reach min_interval s'"

definition spaced :: "duration \<Rightarrow> instant list \<Rightarrow> bool" where
  "spaced m xs \<longleftrightarrow> sorted_wrt (\<lambda>a b. b + int m \<le> a) xs"

lemma spaced_Nil [simp]: "spaced m []"
  by (simp add: spaced_def)

lemma spaced_Cons [simp]: "spaced m (x # xs) \<longleftrightarrow> (\<forall>y \<in> set xs. y + int m \<le> x) \<and> spaced m xs"
  by (auto simp: spaced_def)

lemma spaced_filter: "spaced m xs \<Longrightarrow> spaced m (filter P xs)"
  by (simp add: spaced_def sorted_wrt_filter)

lemma spaced_height: "spaced m (x # xs) \<Longrightarrow> \<forall>y \<in> set (x # xs). a \<le> y \<Longrightarrow> a + int (length xs * m) \<le> x"
proof (induction xs arbitrary: x)
  case Nil
  then show ?case by simp
next
  case (Cons y ys)
  then have "a + int (length ys * m) \<le> y" by simp
  moreover from Cons.prems have "y + int m \<le> x" by simp
  ultimately show ?case by (simp add: algebra_simps)
qed

lemma spaced_count:
  assumes "spaced m xs" and "0 < m" and "\<forall>y \<in> set xs. a \<le> y \<and> y < a + int (k * m)"
  shows "length xs \<le> k"
proof (cases xs)
  case (Cons x ys)
  with assms spaced_height [of m x ys a] have "a + int (length ys * m) \<le> x" by simp
  moreover from Cons assms(3) have "x < a + int (k * m)" by simp
  ultimately have "int (length ys * m) < int (k * m)" by linarith
  then have "length ys < k" using assms(2) by (simp only: of_nat_less_iff mult_less_cancel2)
  with Cons show ?thesis by simp
qed simp

definition bucket_inv :: "duration \<Rightarrow> bucket_sys \<Rightarrow> bool" where
  "bucket_inv m s \<longleftrightarrow> rb_min_interval (bs_bucket s) = m \<and> spaced m (bs_slots s) \<and>
     (case rb_last (bs_bucket s) of None \<Rightarrow> bs_slots s = [] | Some l \<Rightarrow> (\<forall>x \<in> set (bs_slots s). x \<le> l)) \<and>
     set (bs_pending s) \<subseteq> set (bs_slots s) \<and>
     (\<forall>(slot, t) \<in> set (bs_returned s). slot \<in> set (bs_slots s) \<and> slot \<le> t)"

lemma acquire_reserve_target:
  assumes "acquire_reserve now b = (slot, b')"
  shows "b' = b\<lparr>rb_last := Some slot\<rparr>" and "now \<le> slot"
    and "rb_last b = Some prev \<Longrightarrow> prev + int (rb_min_interval b) \<le> slot"
  using assms by (auto simp: acquire_reserve_def Let_def split: option.splits if_splits)

lemma bucket_step_inv: "bucket_step s s' \<Longrightarrow> bucket_inv m s \<Longrightarrow> bucket_inv m s'"
proof (induction rule: bucket_step.induct)
  case (reserve s slot b)
  note t = acquire_reserve_target [OF reserve(1)]
  show ?case
  proof (cases "rb_last (bs_bucket s)")
    case None
    with reserve t(1) show ?thesis by (auto simp: bucket_inv_def)
  next
    case (Some prev)
    with reserve t(1) t(3) [OF Some] show ?thesis by (fastforce simp: bucket_inv_def)
  qed
next
  case (wake slot s)
  then show ?case
    by (auto simp: bucket_inv_def acquire_wake_def split: option.splits dest: set_mp [OF set_remove1_subset])
next
  case (drop slot s)
  then show ?case
    by (auto simp: bucket_inv_def split: option.splits dest: set_mp [OF set_remove1_subset])
next
  case (try_granted s b)
  then show ?case
    by (auto simp: bucket_inv_def try_acquire_def Let_def split: option.splits if_splits)
next
  case (try_refused s b d)
  then show ?case by (auto simp: bucket_inv_def try_acquire_def Let_def split: option.splits if_splits)
qed (auto simp: bucket_inv_def split: option.splits)

lemma bucket_reach_inv: "bucket_reach m s \<Longrightarrow> bucket_inv m s"
proof (induction rule: bucket_reach.induct)
  case (init t)
  show ?case by (simp add: bucket_inv_def bucket_init_def rate_bucket_new_def)
next
  case (step s s')
  then show ?case by (blast intro: bucket_step_inv)
qed

section \<open>The quota snapshot\<close>

definition POLL_INTERVAL :: duration where
  [model_defs]: "POLL_INTERVAL = from_secs 60"

definition FIRST_FAILURE_RESET_WINDOW :: duration where
  [model_defs]: "FIRST_FAILURE_RESET_WINDOW = POLL_INTERVAL"

record snapshot =
  sn_remaining :: "nat option"
  sn_limit :: "nat option"
  sn_reset :: "instant option"
  sn_observed_at :: "instant option"

definition rate_limit_new :: snapshot where
  "rate_limit_new = \<lparr>sn_remaining = None, sn_limit = None, sn_reset = None, sn_observed_at = None\<rparr>"

definition observe_full :: "instant \<Rightarrow> nat \<Rightarrow> nat \<Rightarrow> instant \<Rightarrow> snapshot \<Rightarrow> snapshot" where
  "observe_full now limit remaining reset s =
     s\<lparr>sn_limit := Some limit, sn_remaining := Some remaining, sn_reset := Some reset, sn_observed_at := Some now\<rparr>"

type_synonym header_map = "string \<rightharpoonup> string"

definition parse_u64_header :: "header_map \<Rightarrow> string \<Rightarrow> nat option" where
  "parse_u64_header headers name = Option.bind (headers name) parse_u64"

text \<open>\<open>epoch as i64\<close> reinterprets the 64 bits.\<close>

definition as_i64 :: "nat \<Rightarrow> int" where
  "as_i64 n = sint (of_nat n :: u64)"

definition parse_reset_header :: "(int \<Rightarrow> instant option) \<Rightarrow> header_map \<Rightarrow> instant option" where
  "parse_reset_header timestamp_opt headers =
     (case parse_u64_header headers ''x-ratelimit-reset'' of
        None \<Rightarrow> None
      | Some epoch \<Rightarrow> timestamp_opt (as_i64 epoch))"

definition observe_headers :: "(int \<Rightarrow> instant option) \<Rightarrow> instant \<Rightarrow> header_map \<Rightarrow> snapshot \<Rightarrow> snapshot" where
  "observe_headers timestamp_opt now headers s =
     (let remaining = parse_u64_header headers ''x-ratelimit-remaining'';
          reset = parse_reset_header timestamp_opt headers;
          limit = parse_u64_header headers ''x-ratelimit-limit''
      in if remaining = None \<and> reset = None \<and> limit = None then s
         else (let s = (case remaining of Some r \<Rightarrow> s\<lparr>sn_remaining := Some r\<rparr> | None \<Rightarrow> s);
                   s = (case reset of Some r \<Rightarrow> s\<lparr>sn_reset := Some r\<rparr> | None \<Rightarrow> s);
                   s = (case limit of Some l \<Rightarrow> s\<lparr>sn_limit := Some l\<rparr> | None \<Rightarrow> s)
               in s\<lparr>sn_observed_at := Some now\<rparr>))"

definition clamp_pessimistic :: "instant \<Rightarrow> snapshot \<Rightarrow> snapshot" where
  "clamp_pessimistic now s =
     (if sn_observed_at s \<noteq> None then s
      else s\<lparr>sn_remaining := Some 0, sn_limit := Some 0,
             sn_reset := Some (now + int FIRST_FAILURE_RESET_WINDOW), sn_observed_at := Some now\<rparr>)"

definition should_defer :: "instant \<Rightarrow> snapshot \<Rightarrow> duration option" where
  "should_defer now s =
     (case sn_observed_at s of
        None \<Rightarrow> Some POLL_INTERVAL
      | Some observed_at \<Rightarrow>
          if now - observed_at > int (POLL_INTERVAL * 2) then Some POLL_INTERVAL
          else (case sn_remaining s of
                  Some n \<Rightarrow>
                    if n = 0 then
                      (case sn_reset s of
                         Some reset \<Rightarrow> if reset > now then to_std (reset - now) else None
                       | None \<Rightarrow> None)
                    else None
                | None \<Rightarrow> Some POLL_INTERVAL))"

text \<open>One cycle of \<open>poll_loop\<close>: the response to \<open>/rate_limit\<close>, an API error, or a timeout.\<close>

datatype poll_reply = CoreQuota nat nat nat | PollError | PollTimedOut

definition poll_rate_limit :: "(int \<Rightarrow> instant option) \<Rightarrow> instant \<Rightarrow> poll_reply \<Rightarrow> snapshot \<Rightarrow> snapshot" where
  "poll_rate_limit timestamp_opt now reply s =
     (case reply of
        CoreQuota limit remaining reset \<Rightarrow>
          (case timestamp_opt (as_i64 reset) of
             Some r \<Rightarrow> observe_full now limit remaining r s
           | None \<Rightarrow> s)
      | PollError \<Rightarrow> clamp_pessimistic now s
      | PollTimedOut \<Rightarrow> clamp_pessimistic now s)"

text \<open>Everything that happens to a credential's snapshot, at the time it happens.\<close>

datatype quota_event = PollReply instant poll_reply | ResponseHeaders instant header_map

fun quota_step :: "(int \<Rightarrow> instant option) \<Rightarrow> snapshot \<Rightarrow> quota_event \<Rightarrow> snapshot" where
  "quota_step ts s (PollReply now reply) = poll_rate_limit ts now reply s"
| "quota_step ts s (ResponseHeaders now headers) = observe_headers ts now headers s"

definition snapshot_inv :: "snapshot \<Rightarrow> bool" where
  "snapshot_inv s \<longleftrightarrow> (sn_observed_at s = None \<longrightarrow> s = rate_limit_new)"

lemma snapshot_all_None:
  "(s::snapshot) = rate_limit_new \<longleftrightarrow>
     sn_remaining s = None \<and> sn_limit s = None \<and> sn_reset s = None \<and> sn_observed_at s = None"
  by (auto simp: rate_limit_new_def)

interpretation quota_inv: preserved_step "quota_step ts" snapshot_inv for ts
proof
  fix s e
  assume "snapshot_inv s"
  then show "snapshot_inv (quota_step ts s e)"
    by (cases e) (auto simp: snapshot_inv_def poll_rate_limit_def observe_full_def clamp_pessimistic_def
        observe_headers_def Let_def split: poll_reply.splits option.splits)
qed

lemma should_defer_None_iff:
  "should_defer now s = None \<longleftrightarrow>
     (\<exists>t. sn_observed_at s = Some t \<and> now - t \<le> int (2 * POLL_INTERVAL) \<and>
       (\<exists>n. sn_remaining s = Some n \<and> (0 < n \<or> sn_reset s = None \<or> the (sn_reset s) \<le> now)))"
  by (auto simp: should_defer_def to_std_def mult.commute split: option.splits)

lemma should_defer_pos: "should_defer now s = Some d \<Longrightarrow> 0 < d"
  by (auto simp: should_defer_def to_std_def POLL_INTERVAL_def from_secs_def split: option.splits if_splits)

section \<open>Properties\<close>

text \<open>
  C34. However many callers race for a credential, the slots the bucket grants are pairwise at
  least the minimum interval apart, every call returns no earlier than its own slot, and any
  window of \<open>k\<close> intervals therefore contains at most \<open>k\<close> slots.
\<close>

theorem bucket_slots_spaced:
  assumes "bucket_reach m s" and "0 < m"
  shows "spaced m (bs_slots s)
    \<and> (\<forall>(slot, t) \<in> set (bs_returned s). slot \<in> set (bs_slots s) \<and> slot \<le> t)
    \<and> length (filter (\<lambda>x. a \<le> x \<and> x < a + int (k * m)) (bs_slots s)) \<le> k"
proof -
  have inv: "bucket_inv m s" using assms(1) by (rule bucket_reach_inv)
  then have sp: "spaced m (bs_slots s)" by (simp add: bucket_inv_def)
  have "length (filter (\<lambda>x. a \<le> x \<and> x < a + int (k * m)) (bs_slots s)) \<le> k"
    using spaced_count [OF spaced_filter [OF sp] assms(2), of _ a k] by simp
  with inv sp show ?thesis by (simp add: bucket_inv_def)
qed

text \<open>
  Three callers of a ten-unit bucket at time 0; the runtime wakes the second and the third
  together at time 25.
\<close>

lemma late_wakeups_reachable:
  "\<exists>s. bucket_reach 10 s \<and> bs_slots s = [20, 10, 0] \<and> bs_returned s = [(20, 25), (10, 25)]"
proof -
  let ?s0 = "bucket_init 10 0"
  let ?r1 = "?s0\<lparr>bs_bucket := \<lparr>rb_min_interval = 10, rb_last = Some 0\<rparr>, bs_pending := [0], bs_slots := [0]\<rparr>"
  let ?r2 = "?r1\<lparr>bs_bucket := \<lparr>rb_min_interval = 10, rb_last = Some 10\<rparr>, bs_pending := [10, 0], bs_slots := [10, 0]\<rparr>"
  let ?r3 = "?r2\<lparr>bs_bucket := \<lparr>rb_min_interval = 10, rb_last = Some 20\<rparr>, bs_pending := [20, 10, 0], bs_slots := [20, 10, 0]\<rparr>"
  let ?t = "?r3\<lparr>bs_clock := 25\<rparr>"
  let ?w2 = "?t\<lparr>bs_bucket := \<lparr>rb_min_interval = 10, rb_last = Some 25\<rparr>, bs_pending := [20, 0], bs_returned := [(10, 25)]\<rparr>"
  let ?w3 = "?w2\<lparr>bs_pending := [0], bs_returned := [(20, 25), (10, 25)]\<rparr>"
  note defs = bucket_init_def rate_bucket_new_def acquire_reserve_def acquire_wake_def
  have "bucket_step ?s0 ?r1" using bucket_step.reserve [of ?s0] by (simp add: defs)
  moreover have "bucket_step ?r1 ?r2" using bucket_step.reserve [of ?r1] by (simp add: defs)
  moreover have "bucket_step ?r2 ?r3" using bucket_step.reserve [of ?r2] by (simp add: defs)
  moreover have "bucket_step ?r3 ?t" using bucket_step.tick [of ?r3 25] by (simp add: defs)
  moreover have "bucket_step ?t ?w2" using bucket_step.wake [of 10 ?t] by (simp add: defs)
  moreover have "bucket_step ?w2 ?w3" using bucket_step.wake [of 20 ?w2] by (simp add: defs)
  ultimately have "bucket_reach 10 ?w3" by (meson bucket_reach.intros)
  then show ?thesis by (intro exI [of _ ?w3]) simp
qed

theorem bucket_slots_spaced_witness:
  "\<exists>s. bucket_reach 10 s \<and> spaced 10 (bs_slots s) \<and> bs_slots s = [20, 10, 0]
     \<and> length (filter (\<lambda>x. 0 \<le> x \<and> x < 20) (bs_slots s)) \<le> 2"
proof -
  obtain s where s: "bucket_reach 10 s" "bs_slots s = [20, 10, 0]" using late_wakeups_reachable by blast
  from bucket_slots_spaced [OF s(1), of 0 2] s show ?thesis by auto
qed

text \<open>
  The bucket spaces the slots, not the requests: there is a run in which two calls that
  were granted slots a full interval apart return at the same instant, because the runtime
  woke the first of them late.
\<close>

theorem late_wakeup_breaks_request_spacing:
  "\<exists>s slot slot' t. bucket_reach 10 s \<and> (slot, t) \<in> set (bs_returned s) \<and> (slot', t) \<in> set (bs_returned s)
     \<and> slot + 10 \<le> slot'"
proof -
  obtain s where "bucket_reach 10 s" "bs_returned s = [(20, 25), (10, 25)]" using late_wakeups_reachable by blast
  then show ?thesis by (intro exI [of _ s] exI [of _ 10] exI [of _ 20] exI [of _ 25]) simp
qed

text \<open>
  A refused \<open>try_acquire\<close> changes nothing and tells the exact wait: retrying after it with
  no other caller in between succeeds, and any earlier retry is refused again.
\<close>

theorem try_acquire_retry_after_exact:
  assumes "try_acquire now b = (b', Inl d)"
  shows "b' = b \<and> 0 < d \<and> (\<forall>t \<ge> now. snd (try_acquire t b) = Inr () \<longleftrightarrow> now + int d \<le> t)"
  using assms by (auto simp: try_acquire_def Let_def split: option.splits if_splits)

theorem try_acquire_retry_after_exact_witness:
  "0 < (7::nat) \<and> (\<forall>t \<ge> 3. snd (try_acquire t \<lparr>rb_min_interval = 10, rb_last = Some 0\<rparr>) = Inr () \<longleftrightarrow> 3 + int 7 \<le> t)"
  using try_acquire_retry_after_exact [of 3 "\<lparr>rb_min_interval = 10, rb_last = Some 0\<rparr>"
      "\<lparr>rb_min_interval = 10, rb_last = Some 0\<rparr>" 7]
  by (simp add: try_acquire_def)

text \<open>
  Quota discipline: after any history of polls and response headers a request is let
  through only on an observation at most two poll intervals old that either reports remaining
  quota or whose reset has passed (or was never reported); before the first observation every
  request is deferred.
\<close>

theorem quota_gate_sound:
  assumes "should_defer now (foldl (quota_step ts) rate_limit_new es) = None"
  shows "let s = foldl (quota_step ts) rate_limit_new es
    in es \<noteq> [] \<and> (\<exists>t n. sn_observed_at s = Some t \<and> now - t \<le> int (from_secs 120) \<and> sn_remaining s = Some n \<and>
         (0 < n \<or> sn_reset s = None \<or> the (sn_reset s) \<le> now))"
proof -
  have "es \<noteq> []"
  proof
    assume "es = []"
    with assms show False by (simp add: should_defer_def rate_limit_new_def)
  qed
  moreover have "2 * POLL_INTERVAL = from_secs 120" by (simp add: POLL_INTERVAL_def from_secs_def)
  ultimately show ?thesis using assms by (auto simp: should_defer_None_iff Let_def)
qed

theorem quota_gate_sound_witness:
  "let s = foldl (quota_step Some) rate_limit_new [PollReply 5 (CoreQuota 5000 4321 900)]
   in \<exists>t n. sn_observed_at s = Some t \<and> 7 - t \<le> int (from_secs 120) \<and> sn_remaining s = Some n \<and>
        (0 < n \<or> sn_reset s = None \<or> the (sn_reset s) \<le> 7)"
  using quota_gate_sound [of 7 Some "[PollReply 5 (CoreQuota 5000 4321 900)]"]
  by (simp add: Let_def poll_rate_limit_def observe_full_def rate_limit_new_def should_defer_def
      POLL_INTERVAL_def from_secs_def)

text \<open>
  A deferral ends: the wait is positive, and when it is for an exhausted quota it lasts
  exactly to the reset, after which the gate is open if the snapshot is still fresh.
\<close>

theorem deferral_reaches_reset:
  assumes "should_defer now s = Some d" and "sn_remaining s = Some 0"
    and "sn_observed_at s = Some t" and "now + int d - t \<le> int (2 * POLL_INTERVAL)"
  shows "0 < d \<and> sn_reset s = Some (now + int d) \<and> should_defer (now + int d) s = None"
proof -
  have "0 < d" using assms(1) by (rule should_defer_pos)
  moreover have "sn_reset s = Some (now + int d)"
    using assms by (auto simp: should_defer_def to_std_def mult.commute split: option.splits if_splits)
  ultimately show ?thesis using assms by (auto simp: should_defer_None_iff)
qed

theorem deferral_reaches_reset_witness:
  "let s = \<lparr>sn_remaining = Some 0, sn_limit = Some 0, sn_reset = Some 50, sn_observed_at = Some 5\<rparr>
   in sn_reset s = Some (10 + int 40) \<and> should_defer (10 + int 40) s = None"
  using deferral_reaches_reset [of 10 "\<lparr>sn_remaining = Some 0, sn_limit = Some 0, sn_reset = Some 50, sn_observed_at = Some 5\<rparr>" 40 5]
  by (simp add: should_defer_def to_std_def POLL_INTERVAL_def from_secs_def)

text \<open>
  Failed polls are pessimistic once and harmless later: on a never-observed snapshot a
  failed poll closes the gate for one poll interval, and a failed poll or a reply without a
  usable reset never alters an existing observation.
\<close>

theorem failed_poll_keeps_observation:
  "(sn_observed_at s \<noteq> None \<longrightarrow> poll_rate_limit ts now PollError s = s \<and> poll_rate_limit ts now PollTimedOut s = s)
   \<and> should_defer now (poll_rate_limit ts now PollError rate_limit_new) = Some POLL_INTERVAL
   \<and> should_defer (now + int POLL_INTERVAL) (poll_rate_limit ts now PollError rate_limit_new) = None"
  by (simp add: poll_rate_limit_def clamp_pessimistic_def rate_limit_new_def should_defer_def to_std_def
      POLL_INTERVAL_def FIRST_FAILURE_RESET_WINDOW_def from_secs_def)

theorem failed_poll_keeps_observation_witness:
  "poll_rate_limit Some 9 PollError \<lparr>sn_remaining = Some 3, sn_limit = Some 8, sn_reset = Some 50, sn_observed_at = Some 5\<rparr>
     = \<lparr>sn_remaining = Some 3, sn_limit = Some 8, sn_reset = Some 50, sn_observed_at = Some 5\<rparr>"
  using failed_poll_keeps_observation [of "\<lparr>sn_remaining = Some 3, sn_limit = Some 8, sn_reset = Some 50, sn_observed_at = Some 5\<rparr>" Some 9]
  by simp

end
