(* ===== verification/Github_Client.thy ===== *)
theory Github_Client
  imports Rate_Gates
begin

text \<open>
  The GitHub client (\<open>src/src/github/client.rs\<close>): construction with its token checks, and
  \<open>classified_get\<close>, which every read goes through: body limits, classification of failures and the
  quota observation. The octocrab builder, the HTTP exchange and JSON decoding are parameters: a
  reply is what came back.
\<close>

section \<open>Construction\<close>

definition DEFAULT_REQUEST_TIMEOUT :: duration where
  [model_defs]: "DEFAULT_REQUEST_TIMEOUT = from_secs 30"

definition RESPONSE_BODY_LIMIT :: nat where
  [model_defs]: "RESPONSE_BODY_LIMIT = 16 * 1024 * 1024"

datatype client_build_error =
    MissingCredential
  | MissingToken string
  | NotFineGrained string
  | EmptyToken string
  | InvalidBaseUri string
  | OctocrabBuild string

record client_builder =
  cb_credential :: "string option"
  cb_token :: "string option"
  cb_request_timeout :: "duration option"
  cb_base_uri :: "string option"

record 'octo client =
  cl_octo :: 'octo
  cl_credential :: string
  cl_request_timeout :: duration

text \<open>
  \<open>ClientBuilder::build\<close>; \<open>base_uri\<close> and \<open>octo_build\<close> are octocrab's builder steps (an error by its
  text).
\<close>

definition client_build ::
  "(string \<Rightarrow> string + unit) \<Rightarrow> (string \<Rightarrow> string option \<Rightarrow> string + 'octo) \<Rightarrow> client_builder
     \<Rightarrow> client_build_error + 'octo client"
where
  "client_build base_uri octo_build b =
     (case cb_credential b of
        None \<Rightarrow> Inl MissingCredential
      | Some credential \<Rightarrow>
         (case cb_token b of
            None \<Rightarrow> Inl (MissingToken credential)
          | Some raw \<Rightarrow>
              if raw = [] then Inl (EmptyToken credential)
              else if \<not> starts_with raw ''github_pat_'' then Inl (NotFineGrained credential)
              else (case (case cb_base_uri b of Some uri \<Rightarrow> base_uri uri | None \<Rightarrow> Inr ()) of
                      Inl e \<Rightarrow> Inl (InvalidBaseUri e)
                    | Inr _ \<Rightarrow>
                       (case octo_build raw (cb_base_uri b) of
                          Inl e \<Rightarrow> Inl (OctocrabBuild e)
                        | Inr octo \<Rightarrow>
                            Inr \<lparr>cl_octo = octo, cl_credential = credential,
                                 cl_request_timeout = (case cb_request_timeout b of Some t \<Rightarrow> t
                                   | None \<Rightarrow> DEFAULT_REQUEST_TIMEOUT)\<rparr>))))"

text \<open>The \<open>Display\<close> of a construction error.\<close>

fun client_build_error_message :: "client_build_error \<Rightarrow> string" where
  "client_build_error_message MissingCredential =
     ''github client builder missing required field: credential. Call .credential(CredentialId::new(...)).''"
| "client_build_error_message (MissingToken credential) =
     ''github client builder missing required field: token for credential '' @ [CHR 0x27] @ credential @ [CHR 0x27] @
     ''. Call .token(SecretString::from(...)).''"
| "client_build_error_message (NotFineGrained credential) =
     ''github credential '' @ [CHR 0x27] @ credential @ [CHR 0x27] @ '' must start with '' @ [CHR 0x27] @ ''github_pat_'' @ [CHR 0x27] @
     '' (fine-grained PAT). Only fine-grained personal access tokens are supported; classic PATs and OAuth tokens are not accepted. '' @
     ''Generate one at https://github.com/settings/personal-access-tokens''"
| "client_build_error_message (EmptyToken credential) = ''github credential '' @ [CHR 0x27] @ credential @ [CHR 0x27] @ '' is empty''"
| "client_build_error_message (InvalidBaseUri e) = ''invalid base_uri: '' @ e"
| "client_build_error_message (OctocrabBuild e) = ''octocrab build failed: '' @ e"

section \<open>Reads\<close>

definition parse_content_length :: "header_map \<Rightarrow> nat option" where
  "parse_content_length headers = parse_u64_header headers ''content-length''"

text \<open>
  What \<open>_get\<close> and the decoding of the response give: no answer in time, a failure of the exchange,
  or a response with its headers, the number of body bytes it streams, and the decoded value or
  the error octocrab maps it to.
\<close>

datatype 'a get_reply =
    GetTimedOut
  | GetFailed octocrab_error
  | GetResponse header_map nat "octocrab_error + 'a"

datatype 'a get_inner = BodyDeclaredTooLarge nat | BodyStreamedTooLarge | Octocrab octocrab_error | GotValue header_map 'a

text \<open>The limited body fails the read that passes the limit, before any decoding.\<close>

fun get_inner_of :: "'a get_reply \<Rightarrow> 'a get_inner option" where
  "get_inner_of GetTimedOut = None"
| "get_inner_of (GetFailed e) = Some (Octocrab e)"
| "get_inner_of (GetResponse headers len decoded) =
     (case parse_content_length headers of
        Some declared \<Rightarrow>
          if declared > RESPONSE_BODY_LIMIT then Some (BodyDeclaredTooLarge declared)
          else Some (if len > RESPONSE_BODY_LIMIT then BodyStreamedTooLarge
                     else case decoded of Inl e \<Rightarrow> Octocrab e | Inr v \<Rightarrow> GotValue headers v)
      | None \<Rightarrow>
          Some (if len > RESPONSE_BODY_LIMIT then BodyStreamedTooLarge
                else case decoded of Inl e \<Rightarrow> Octocrab e | Inr v \<Rightarrow> GotValue headers v))"

definition classified_get ::
  "(int \<Rightarrow> instant option) \<Rightarrow> instant \<Rightarrow> 'octo client \<Rightarrow> string \<Rightarrow> string \<Rightarrow> 'a get_reply \<Rightarrow> snapshot
     \<Rightarrow> snapshot \<times> (github_error + 'a)"
where
  "classified_get timestamp_opt now client repo workflow reply quota =
     (case get_inner_of reply of
        Some (GotValue headers v) \<Rightarrow> (observe_headers timestamp_opt now headers quota, Inr v)
      | Some (BodyDeclaredTooLarge declared) \<Rightarrow> (quota, Inl (BodyTooLarge (Some declared) RESPONSE_BODY_LIMIT))
      | Some BodyStreamedTooLarge \<Rightarrow> (quota, Inl (BodyTooLarge None RESPONSE_BODY_LIMIT))
      | Some (Octocrab e) \<Rightarrow> (quota, Inl (classify now e (cl_credential client) repo workflow None None))
      | None \<Rightarrow> (quota, Inl (timeout_error (cl_request_timeout client))))"

section \<open>Lemmas\<close>

lemma client_build_ok:
  assumes "client_build base_uri octo_build b = Inr c"
  shows "\<exists>t. cb_token b = Some (''github_pat_'' @ t) \<and> cb_credential b = Some (cl_credential c)"
  using assms by (auto simp: client_build_def starts_with_iff split: option.splits if_splits sum.splits)

text \<open>A value is returned only from a response within the limits; only then is the quota updated.\<close>

lemma classified_get_ok_iff:
  "classified_get ts now client repo workflow reply quota = (quota', Inr v) \<longleftrightarrow>
     (\<exists>headers len. reply = GetResponse headers len (Inr v) \<and> len \<le> RESPONSE_BODY_LIMIT
        \<and> (\<forall>d. parse_content_length headers = Some d \<longrightarrow> d \<le> RESPONSE_BODY_LIMIT)
        \<and> quota' = observe_headers ts now headers quota)"
  by (cases reply) (auto simp: classified_get_def split: option.splits if_splits sum.splits)

lemma classified_get_error_keeps_quota:
  "classified_get ts now client repo workflow reply quota = (quota', Inl e) \<Longrightarrow> quota' = quota"
  by (auto simp: classified_get_def split: option.splits get_inner.splits)

end
