(* ===== verification/Credentials.thy ===== *)
theory Credentials
  imports Github_Client
begin

text \<open>
  Credentials: the identifier rules (\<open>src/src/config/credential.rs\<close>), the checks on a credential
  file (\<open>src/src/config/credential_file.rs\<close>) and the supervisor's pool of secrets and per-credential
  GitHub resources (\<open>src/src/flow/supervisor/credentials.rs\<close>). The process environment and the
  file system are a record of what the calls return; octocrab's builder is a parameter. A
  cancellation token is a number, and so is the poller task started with it.
\<close>

section \<open>Identifiers\<close>

definition MAX_LEN :: nat where [model_defs]: "MAX_LEN = 64"

text \<open>The character of \<open>InvalidChar\<close> is given by its bytes.\<close>

datatype id_error = IdEmpty | IdTooLong nat | InvalidChar string | LeadingHyphen | PathTraversal

definition is_ascii_alphanumeric :: "char \<Rightarrow> bool" where
  "is_ascii_alphanumeric c \<longleftrightarrow>
     (let n = of_char c :: nat in 48 \<le> n \<and> n \<le> 57 \<or> 65 \<le> n \<and> n \<le> 90 \<or> 97 \<le> n \<and> n \<le> 122)"

text \<open>\<open>{:?}\<close> of a character is the argument \<open>debug\<close>.\<close>

fun id_error_message :: "(string \<Rightarrow> string) \<Rightarrow> id_error \<Rightarrow> string" where
  "id_error_message debug IdEmpty = ''credential_id must be non-empty''"
| "id_error_message debug (IdTooLong len) = ''credential_id is '' @ show_nat len @ '' chars; max is '' @ show_nat MAX_LEN"
| "id_error_message debug (InvalidChar ch) =
     ''credential_id contains invalid character '' @ debug ch @ ''; allowed: A-Z a-z 0-9 _ -''"
| "id_error_message debug LeadingHyphen =
     ''credential_id must not start with '' @ squoted ''-'' @ '' (conflicts with CLI flags)''"
| "id_error_message debug PathTraversal =
     ''credential_id must not contain '' @ squoted ''..'' @ '', '' @ squoted ''/'' @ '', '' @ squoted [CHR 0x5C] @ '', '' @
     squoted [CHR 0x7E] @ '', or NUL''"

fun id_error_suggestion :: "id_error \<Rightarrow> string" where
  "id_error_suggestion (IdTooLong len) = ''shorten the id to '' @ show_nat MAX_LEN @ '' characters or fewer''"
| "id_error_suggestion (InvalidChar ch) = ''use only A-Z, a-z, 0-9, '' @ squoted ''_'' @ '', and '' @ squoted ''-''"
| "id_error_suggestion PathTraversal = ''use only A-Z, a-z, 0-9, '' @ squoted ''_'' @ '', and '' @ squoted ''-''"
| "id_error_suggestion _ = ''use a non-empty id like '' @ squoted ''github_pat'' @ '' or '' @ squoted ''discord-ci-webhook''"

definition id_char :: "char \<Rightarrow> bool" where
  "id_char c \<longleftrightarrow> is_ascii_alphanumeric c \<or> c = CHR ''_'' \<or> c = CHR ''-''"

definition validate_id_str :: "string \<Rightarrow> id_error + unit" where
  "validate_id_str s =
     (if s = [] then Inl IdEmpty
      else if length s > MAX_LEN then Inl (IdTooLong (length s))
      else if contains s ''..'' \<or> CHR ''/'' \<in> set s \<or> CHR 0x5C \<in> set s \<or> CHR 0x7E \<in> set s \<or> CHR 0x00 \<in> set s
      then Inl PathTraversal
      else if starts_with s ''-'' then Inl LeadingHyphen
      else case first_other_char id_char s of Some ch \<Rightarrow> Inl (InvalidChar ch) | None \<Rightarrow> Inr ())"

definition ascii_upper :: "char \<Rightarrow> char" where
  "ascii_upper c = (if 97 \<le> (of_char c :: nat) \<and> (of_char c :: nat) \<le> 122
     then char_of ((of_char c :: nat) - 32) else c)"

definition id_to_env :: "string \<Rightarrow> string" where
  "id_to_env cid = ''GCIT_CREDENTIAL_'' @
     map (\<lambda>c. if c = CHR ''-'' then CHR ''_'' else c) (map ascii_upper cid)"

section \<open>Credential files\<close>

datatype file_type = SymlinkType | RegularType | OtherType

record metadata =
  md_type :: file_type
  md_mode :: u32
  md_uid :: u32

datatype stat_error = StatNotFound | StatFailed string

datatype invariant_error = Symlink | NonRegularFile | PermissiveMode u32 | UnexpectedOwner u32 u32

datatype probe_result = ProbeOk | NotPresent | Invariant invariant_error | StatError string

definition owner_uid_accepted :: "u32 \<Rightarrow> u32 \<Rightarrow> bool" where
  "owner_uid_accepted owner_uid euid \<longleftrightarrow> owner_uid = euid \<or> owner_uid = 0"

definition probe :: "u32 \<Rightarrow> stat_error + metadata \<Rightarrow> probe_result" where
  "probe euid stat =
     (case stat of
        Inl StatNotFound \<Rightarrow> NotPresent
      | Inl (StatFailed e) \<Rightarrow> StatError e
      | Inr meta \<Rightarrow>
          if md_type meta = SymlinkType then Invariant Symlink
          else if md_type meta \<noteq> RegularType then Invariant NonRegularFile
          else
            let mode = Bit_Operations.and (md_mode meta) 0x1FF
            in if Bit_Operations.and mode 0x3F \<noteq> 0 then Invariant (PermissiveMode mode)
               else if \<not> owner_uid_accepted (md_uid meta) euid then Invariant (UnexpectedOwner (md_uid meta) euid)
               else ProbeOk)"

text \<open>Octal digits, most significant first (the \<open>o\<close> format).\<close>

fun show_octal :: "nat \<Rightarrow> string" where
  "show_octal n = (if n < 8 then [char_of (48 + n)] else show_octal (n div 8) @ [char_of (48 + n mod 8)])"

declare show_octal.simps [simp del]

definition backquoted :: "string \<Rightarrow> string" where
  "backquoted s = [CHR 0x60] @ s @ [CHR 0x60]"

fun render_invariant :: "invariant_error \<Rightarrow> string \<Rightarrow> string \<Rightarrow> string" where
  "render_invariant Symlink cid display = ''credential '' @ backquoted cid @ '' at '' @ display @
     '' is a symlink; credential files must be regular files (place the credential file directly at this path)''"
| "render_invariant NonRegularFile cid display = ''credential '' @ backquoted cid @ '' at '' @ display @
     '' is not a regular file (remove any existing inode at this path and place a regular file)''"
| "render_invariant (PermissiveMode mode) cid display = ''credential '' @ backquoted cid @ '' at '' @ display @
     '' has mode 0'' @ show_octal (unat mode) @ ''; must be 0600 (no group/other access); sudo chmod 0600 '' @ display"
| "render_invariant (UnexpectedOwner owner_uid euid) cid display = ''credential '' @ backquoted cid @ '' at '' @ display @
     '' is owned by uid '' @ show_nat (unat owner_uid) @ '' but the resolving process runs as uid '' @ show_nat (unat euid) @
     ''; only the resolver'' @ [CHR 0x27] @ ''s uid or root (uid 0) is accepted; sudo chown '' @ show_nat (unat euid) @ '' '' @ display @
     '' (or sudo chown root '' @ display @ '')''"

datatype stat_context = PreFlight | Daemon

definition render_stat_error :: "string \<Rightarrow> string \<Rightarrow> string \<Rightarrow> stat_context \<Rightarrow> string" where
  "render_stat_error err cid display ctx = ''credential '' @ backquoted cid @ '' at '' @ display @ '' could not be checked: '' @ err @ '' ('' @
     (case ctx of
        PreFlight \<Rightarrow> ''the parent directory must be readable by the resolving process; re-run as the credential owner or via '' @
          backquoted ''sudo gcit check'' @ '' to validate''
      | Daemon \<Rightarrow> ''check parent directory permissions for the daemon'' @ [CHR 0x27] @ ''s effective uid'') @ '')''"

section \<open>The pool\<close>

text \<open>
  What waiting for a read slot and the blocking read gave (\<open>read_credential_file\<close>).
\<close>

datatype read_outcome =
    SemaphoreClosed
  | SlotTimeout
  | ReadOk string
  | ReadFailed string
  | BlockingTaskFailed string
  | ReadTimedOut

record process_env =
  pe_credentials_directory :: "string option"
  pe_is_dir :: "string \<Rightarrow> bool"
  pe_var :: "string \<Rightarrow> string option"
  pe_stat :: "string \<Rightarrow> stat_error + metadata"
  pe_read :: "string \<Rightarrow> read_outcome"
  pe_euid :: u32

fun read_credential_file :: "string \<Rightarrow> read_outcome \<Rightarrow> string + string" where
  "read_credential_file p SemaphoreClosed = Inl (''read '' @ p @ '': credential read semaphore closed (bug)'')"
| "read_credential_file p SlotTimeout = Inl (''read '' @ p @ '': timed out after 5s waiting for credential read slot'')"
| "read_credential_file p (ReadOk s) = Inr s"
| "read_credential_file p (ReadFailed e) = Inl (''read '' @ p @ '': '' @ e)"
| "read_credential_file p (BlockingTaskFailed e) = Inl (''read '' @ p @ '': blocking task failed: '' @ e)"
| "read_credential_file p ReadTimedOut = Inl (''read '' @ p @ '': timed out after 5s (slow or hung backing store)'')"

text \<open>\<open>PathBuf::join\<close>.\<close>

definition path_join :: "string \<Rightarrow> string \<Rightarrow> string" where
  "path_join dir p =
     (if starts_with p ''/'' then p
      else if dir = [] \<or> starts_with (rev dir) ''/'' then dir @ p
      else dir @ ''/'' @ p)"

definition trim_line_ends :: "string \<Rightarrow> string" where
  "trim_line_ends s = rev (dropWhile (\<lambda>c. c = CHR 0x0D \<or> c = CHR 0x0A) (rev s))"

record 'octo github_resources =
  gr_github_client :: "'octo client"
  gr_rate_bucket :: rate_bucket
  gr_rate_limit :: snapshot
  gr_rate_limit_cancel :: nat

text \<open>
  The pool, with the number of pollers started so far and the tokens cancelled, which the code
  leaves to the runtime.
\<close>

record 'octo credential_pool =
  cp_by_id :: "string \<rightharpoonup> 'octo github_resources"
  cp_secrets :: "string \<rightharpoonup> string"
  cp_config_dir :: "string option"
  cp_pollers :: nat
  cp_cancelled :: "nat set"

definition credential_pool_new :: "string option \<Rightarrow> 'octo credential_pool" where
  "credential_pool_new config_dir =
     \<lparr>cp_by_id = Map.empty, cp_secrets = Map.empty, cp_config_dir = config_dir, cp_pollers = 0, cp_cancelled = {}\<rparr>"

definition invalidate_except :: "string set \<Rightarrow> 'octo credential_pool \<Rightarrow> 'octo credential_pool" where
  "invalidate_except keep_credentials pool =
     pool\<lparr>cp_by_id := (cp_by_id pool) |` keep_credentials,
          cp_cancelled := cp_cancelled pool \<union>
            {gr_rate_limit_cancel r |r. \<exists>cid. cid \<notin> keep_credentials \<and> cp_by_id pool cid = Some r},
          cp_secrets := (cp_secrets pool) |` keep_credentials\<rparr>"

text \<open>
  One file candidate: \<open>None\<close> when the file is not there and the next source is tried, else the
  error or the secret.
\<close>

definition try_credential_file :: "process_env \<Rightarrow> string \<Rightarrow> string \<Rightarrow> (string + string) option" where
  "try_credential_file env cid p =
     (case probe (pe_euid env) (pe_stat env p) of
        ProbeOk \<Rightarrow>
         (case read_credential_file p (pe_read env p) of
            Inl e \<Rightarrow> Some (Inl e)
          | Inr raw \<Rightarrow> Some (Inr (trim_line_ends raw)))
      | NotPresent \<Rightarrow> None
      | Invariant err \<Rightarrow> Some (Inl (render_invariant err cid p))
      | StatError err \<Rightarrow> Some (Inl (render_stat_error err cid p Daemon)))"

definition credentials_dir_candidate :: "process_env \<Rightarrow> string \<Rightarrow> (string + string) option" where
  "credentials_dir_candidate env cid =
     (case pe_credentials_directory env of
        Some dir \<Rightarrow> if pe_is_dir env dir then try_credential_file env cid (path_join dir cid) else None
      | None \<Rightarrow> None)"

definition env_candidate :: "process_env \<Rightarrow> string \<Rightarrow> (string + string) option" where
  "env_candidate env cid = map_option Inr (pe_var env (id_to_env cid))"

definition config_dir_candidate :: "process_env \<Rightarrow> string option \<Rightarrow> string \<Rightarrow> (string + string) option" where
  "config_dir_candidate env config_dir cid =
     (case config_dir of
        Some dir \<Rightarrow> try_credential_file env cid (path_join (path_join dir ''credentials'') cid)
      | None \<Rightarrow> None)"

definition not_found_message :: "string option \<Rightarrow> string \<Rightarrow> string" where
  "not_found_message config_dir cid =
     (let config_path_repr = (case config_dir of
            Some d \<Rightarrow> d @ ''/credentials/'' @ cid
          | None \<Rightarrow> ''<config_dir>/credentials/'' @ cid)
      in ''credential '' @ backquoted cid @ '' not found at $CREDENTIALS_DIRECTORY/'' @ cid @ '' or env $'' @ id_to_env cid @ '' or '' @
         config_path_repr)"

definition lookup_secret :: "process_env \<Rightarrow> string option \<Rightarrow> string \<Rightarrow> string + string" where
  "lookup_secret env config_dir cid =
     (case credentials_dir_candidate env cid of
        Some r \<Rightarrow> r
      | None \<Rightarrow>
         (case env_candidate env cid of
            Some r \<Rightarrow> r
          | None \<Rightarrow>
             (case config_dir_candidate env config_dir cid of
                Some r \<Rightarrow> r
              | None \<Rightarrow> Inl (not_found_message config_dir cid))))"

definition resolve_secret ::
  "process_env \<Rightarrow> string \<Rightarrow> 'octo credential_pool \<Rightarrow> 'octo credential_pool \<times> (string + string)" where
  "resolve_secret env cid pool =
     (case cp_secrets pool cid of
        Some s \<Rightarrow> (pool, Inr s)
      | None \<Rightarrow>
         (case lookup_secret env (cp_config_dir pool) cid of
            Inl e \<Rightarrow> (pool, Inl e)
          | Inr secret \<Rightarrow> (pool\<lparr>cp_secrets := (cp_secrets pool)(cid \<mapsto> secret)\<rparr>, Inr secret)))"

type_synonym 'octo octo_builder = "string \<Rightarrow> string option \<Rightarrow> string + 'octo"

definition acquire_github ::
  "'octo octo_builder \<Rightarrow> process_env \<Rightarrow> duration \<Rightarrow> string \<Rightarrow> 'octo credential_pool
     \<Rightarrow> 'octo credential_pool \<times> (string + 'octo github_resources)"
where
  "acquire_github octo_build env request_timeout cid pool =
     (case cp_by_id pool cid of
        Some r \<Rightarrow> (pool, Inr r)
      | None \<Rightarrow>
         (case resolve_secret env cid pool of
            (pool, Inl e) \<Rightarrow> (pool, Inl e)
          | (pool, Inr token_secret) \<Rightarrow>
             (case client_build (\<lambda>_. Inr ()) octo_build
                     \<lparr>cb_credential = Some cid, cb_token = Some token_secret,
                      cb_request_timeout = Some request_timeout, cb_base_uri = None\<rparr> of
                Inl e \<Rightarrow> (pool, Inl (''github client: '' @ client_build_error_message e))
              | Inr github_client \<Rightarrow>
                 (let r = \<lparr>gr_github_client = github_client, gr_rate_bucket = rate_bucket_new (from_secs 1),
                           gr_rate_limit = rate_limit_new, gr_rate_limit_cancel = cp_pollers pool\<rparr>
                  in (pool\<lparr>cp_by_id := (cp_by_id pool)(cid \<mapsto> r), cp_pollers := Suc (cp_pollers pool)\<rparr>, Inr r)))))"

text \<open>The operations of the pool as events.\<close>

datatype 'octo pool_op =
    ResolveSecret process_env string
  | AcquireGithub "'octo octo_builder" process_env duration string
  | InvalidateExcept "string set"

fun pool_step :: "'octo credential_pool \<Rightarrow> 'octo pool_op \<Rightarrow> 'octo credential_pool" where
  "pool_step pool (ResolveSecret env cid) = fst (resolve_secret env cid pool)"
| "pool_step pool (AcquireGithub octo_build env timeout cid) = fst (acquire_github octo_build env timeout cid pool)"
| "pool_step pool (InvalidateExcept ks) = invalidate_except ks pool"

section \<open>Lemmas\<close>

lemma validate_id_str_iff:
  "validate_id_str s = Inr () \<longleftrightarrow> s \<noteq> [] \<and> length s \<le> MAX_LEN \<and> hd s \<noteq> CHR ''-'' \<and> list_all id_char s"
proof (cases "list_all id_char s")
  case True
  have "\<not> id_char c" if "c \<in> {CHR ''.'', CHR ''/'', CHR 0x5C, CHR 0x7E, CHR 0x00}" for c
    using that by (auto simp: id_char_def is_ascii_alphanumeric_def)
  then have "CHR ''.'' \<notin> set s" "CHR ''/'' \<notin> set s" "CHR 0x5C \<notin> set s" "CHR 0x7E \<notin> set s" "CHR 0x00 \<notin> set s"
    using True by (fastforce simp: list_all_iff)+
  then have "\<not> contains s ''..''" by (auto simp: contains_iff)
  moreover have "first_other_char id_char s = None" using True by (simp add: first_other_char_None)
  moreover have "starts_with s ''-'' \<longleftrightarrow> s \<noteq> [] \<and> hd s = CHR ''-''" by (cases s) auto
  ultimately show ?thesis
    using True \<open>CHR ''/'' \<notin> set s\<close> \<open>CHR 0x5C \<notin> set s\<close> \<open>CHR 0x7E \<notin> set s\<close> \<open>CHR 0x00 \<notin> set s\<close>
    by (auto simp: validate_id_str_def)
next
  case False
  then have "first_other_char id_char s \<noteq> None" by (simp add: first_other_char_None)
  with False show ?thesis by (auto simp: validate_id_str_def)
qed

text \<open>A file that passes the checks.\<close>

definition trusted_file :: "process_env \<Rightarrow> string \<Rightarrow> bool" where
  "trusted_file env p \<longleftrightarrow>
     (case pe_stat env p of
        Inl _ \<Rightarrow> False
      | Inr meta \<Rightarrow> md_type meta = RegularType \<and> Bit_Operations.and (md_mode meta) 0x3F = 0 \<and>
          (md_uid meta = pe_euid env \<or> md_uid meta = 0))"

lemma probe_ok_iff: "probe (pe_euid env) (pe_stat env p) = ProbeOk \<longleftrightarrow> trusted_file env p"
proof -
  have "Bit_Operations.and (Bit_Operations.and m 0x1FF) 0x3F = Bit_Operations.and m 0x3F" for m :: u32
    by (simp add: and.assoc)
  then show ?thesis
    by (auto simp: probe_def trusted_file_def owner_uid_accepted_def Let_def split: sum.splits stat_error.splits)
qed

lemma try_credential_file_secret:
  assumes "try_credential_file env cid p = Some (Inr s)"
  shows "\<exists>raw. trusted_file env p \<and> pe_read env p = ReadOk raw \<and> s = trim_line_ends raw"
proof -
  from assms have "probe (pe_euid env) (pe_stat env p) = ProbeOk"
    by (simp add: try_credential_file_def split: probe_result.splits sum.splits)
  moreover from this assms obtain raw where "pe_read env p = ReadOk raw" "s = trim_line_ends raw"
    by (cases "(p, pe_read env p)" rule: read_credential_file.cases) (auto simp: try_credential_file_def)
  ultimately show ?thesis by (auto simp: probe_ok_iff)
qed

text \<open>What holds of the pool between operations.\<close>

definition pool_wf :: "'octo credential_pool \<Rightarrow> bool" where
  "pool_wf pool \<longleftrightarrow>
     (\<forall>c r. cp_by_id pool c = Some r \<longrightarrow>
        cl_credential (gr_github_client r) = c \<and>
        (\<exists>token. cp_secrets pool c = Some token \<and> starts_with token ''github_pat_'')) \<and>
     (\<forall>c d r r'. cp_by_id pool c = Some r \<and> cp_by_id pool d = Some r' \<and>
        gr_rate_limit_cancel r = gr_rate_limit_cancel r' \<longrightarrow> c = d) \<and>
     {t. t < cp_pollers pool \<and> t \<notin> cp_cancelled pool} = gr_rate_limit_cancel ` ran (cp_by_id pool) \<and>
     cp_cancelled pool \<subseteq> {..<cp_pollers pool}"

lemma pool_wf_entry:
  assumes "pool_wf pool" and "cp_by_id pool c = Some r"
  shows "cl_credential (gr_github_client r) = c" "\<exists>token. cp_secrets pool c = Some token \<and> starts_with token ''github_pat_''"
  using assms unfolding pool_wf_def by (elim conjE; simp)+

lemma pool_wf_inj:
  "pool_wf pool \<Longrightarrow> cp_by_id pool c = Some r \<Longrightarrow> cp_by_id pool d = Some r' \<Longrightarrow>
     gr_rate_limit_cancel r = gr_rate_limit_cancel r' \<Longrightarrow> c = d"
  unfolding pool_wf_def by (elim conjE) metis

lemma pool_wf_live:
  assumes "pool_wf pool"
  shows "{t. t < cp_pollers pool \<and> t \<notin> cp_cancelled pool} = gr_rate_limit_cancel ` ran (cp_by_id pool)"
    and "cp_cancelled pool \<subseteq> {..<cp_pollers pool}"
proof -
  show "{t. t < cp_pollers pool \<and> t \<notin> cp_cancelled pool} = gr_rate_limit_cancel ` ran (cp_by_id pool)"
    using assms unfolding pool_wf_def by (elim conjE)
  show "cp_cancelled pool \<subseteq> {..<cp_pollers pool}" using assms unfolding pool_wf_def by (elim conjE)
qed

lemma pool_wfI:
  assumes "\<And>c r. cp_by_id pool c = Some r \<Longrightarrow>
      cl_credential (gr_github_client r) = c \<and> (\<exists>token. cp_secrets pool c = Some token \<and> starts_with token ''github_pat_'')"
    and "\<And>c d r r'. cp_by_id pool c = Some r \<Longrightarrow> cp_by_id pool d = Some r' \<Longrightarrow>
      gr_rate_limit_cancel r = gr_rate_limit_cancel r' \<Longrightarrow> c = d"
    and "{t. t < cp_pollers pool \<and> t \<notin> cp_cancelled pool} = gr_rate_limit_cancel ` ran (cp_by_id pool)"
    and "cp_cancelled pool \<subseteq> {..<cp_pollers pool}"
  shows "pool_wf pool"
  unfolding pool_wf_def
proof (intro conjI allI impI)
  show "c = d" if "cp_by_id pool c = Some r \<and> cp_by_id pool d = Some r' \<and> gr_rate_limit_cancel r = gr_rate_limit_cancel r'" for c d r r'
    using that by (elim conjE) (rule assms(2))
qed (use assms(1,3,4) in auto)

lemma pool_wf_new: "pool_wf (credential_pool_new d)"
  by (simp add: pool_wf_def credential_pool_new_def)

lemma resolve_secret_frame:
  assumes "resolve_secret env cid pool = (pool', r)"
  shows "cp_by_id pool' = cp_by_id pool" "cp_pollers pool' = cp_pollers pool" "cp_cancelled pool' = cp_cancelled pool"
    "cp_config_dir pool' = cp_config_dir pool" "cp_secrets pool \<subseteq>\<^sub>m cp_secrets pool'"
    "r = Inr s \<Longrightarrow> cp_secrets pool' cid = Some s"
  using assms by (auto simp: resolve_secret_def map_le_def split: option.splits sum.splits)

lemma pool_wf_resolve:
  assumes "pool_wf pool" and "resolve_secret env cid pool = (pool', r)"
  shows "pool_wf pool'"
proof -
  note f = resolve_secret_frame [OF assms(2)]
  have "\<exists>token. cp_secrets pool' c = Some token \<and> starts_with token ''github_pat_''" if "cp_by_id pool c = Some q" for c q
  proof -
    from pool_wf_entry(2) [OF assms(1) that] obtain token where
      t: "cp_secrets pool c = Some token" "starts_with token ''github_pat_''" by blast
    from f(5) t(1) have "cp_secrets pool' c = Some token" by (metis domI map_le_def)
    with t show ?thesis by blast
  qed
  then show ?thesis
    unfolding pool_wf_def f(1-3)
    using pool_wf_entry(1) [OF assms(1)] pool_wf_inj [OF assms(1)] pool_wf_live [OF assms(1)] by auto
qed

lemma acquired_client_build:
  assumes "client_build base octo_build \<lparr>cb_credential = Some c, cb_token = Some token, cb_request_timeout = t, cb_base_uri = None\<rparr> = Inr cl"
  shows "cl_credential cl = c \<and> starts_with token ''github_pat_''"
  using assms by (auto simp: client_build_def split: if_splits sum.splits)

lemma acquire_github_cases:
  assumes "acquire_github octo_build env timeout cid pool = (pool', res)"
  obtains (cached) r where "cp_by_id pool cid = Some r" "pool' = pool" "res = Inr r"
  | (failed) r e where "cp_by_id pool cid = None" "resolve_secret env cid pool = (pool', r)" "res = Inl e"
  | (built) pool1 token r where "cp_by_id pool cid = None" "resolve_secret env cid pool = (pool1, Inr token)"
      "starts_with token ''github_pat_''" "cl_credential (gr_github_client r) = cid" "gr_rate_limit_cancel r = cp_pollers pool"
      "pool' = pool1\<lparr>cp_by_id := (cp_by_id pool1)(cid \<mapsto> r), cp_pollers := Suc (cp_pollers pool)\<rparr>" "res = Inr r"
proof (cases "cp_by_id pool cid")
  case (Some r)
  with assms show ?thesis by (intro cached) (auto simp: acquire_github_def)
next
  case None
  obtain pool1 r1 where r1: "resolve_secret env cid pool = (pool1, r1)" by fastforce
  show ?thesis
  proof (cases r1)
    case (Inl e)
    with None r1 assms show ?thesis by (intro failed [of r1 e]) (auto simp: acquire_github_def)
  next
    case (Inr token)
    let ?b = "\<lparr>cb_credential = Some cid, cb_token = Some token, cb_request_timeout = Some timeout, cb_base_uri = None\<rparr>"
    show ?thesis
    proof (cases "client_build (\<lambda>_. Inr ()) octo_build ?b")
      case (Inl e)
      with None r1 Inr assms show ?thesis
        by (intro failed [of r1 "''github client: '' @ client_build_error_message e"]) (auto simp: acquire_github_def)
    next
      case built: (Inr cl)
      then show ?thesis
        using None r1 Inr assms acquired_client_build [OF built] resolve_secret_frame(2) [OF r1]
        by (intro that(3)) (auto simp: acquire_github_def Let_def)
    qed
  qed
qed

lemma pool_wf_built:
  assumes wf: "pool_wf pool" and "cp_by_id pool c = None" and "cp_secrets pool c = Some token"
    and "starts_with token ''github_pat_''" and "cl_credential (gr_github_client r) = c" and tok: "gr_rate_limit_cancel r = cp_pollers pool"
  shows "pool_wf (pool\<lparr>cp_by_id := (cp_by_id pool)(c \<mapsto> r), cp_pollers := Suc (cp_pollers pool)\<rparr>)" (is "pool_wf ?pool")
proof (rule pool_wfI)
  have fresh: "gr_rate_limit_cancel q < cp_pollers pool" if "cp_by_id pool d = Some q" for d q
  proof -
    from that have "gr_rate_limit_cancel q \<in> gr_rate_limit_cancel ` ran (cp_by_id pool)" by (auto intro: ranI)
    then show ?thesis unfolding pool_wf_live(1) [OF wf, symmetric] by simp
  qed
  have by_id: "cp_by_id ?pool = (cp_by_id pool)(c \<mapsto> r)" by simp
  have "ran (cp_by_id ?pool) = insert r (ran (cp_by_id pool))" using assms(2) by simp
  moreover have "{t. t < cp_pollers ?pool \<and> t \<notin> cp_cancelled ?pool} =
      insert (cp_pollers pool) {t. t < cp_pollers pool \<and> t \<notin> cp_cancelled pool}"
    using pool_wf_live(2) [OF wf] by (auto simp: less_Suc_eq)
  ultimately show "{t. t < cp_pollers ?pool \<and> t \<notin> cp_cancelled ?pool} = gr_rate_limit_cancel ` ran (cp_by_id ?pool)"
    using tok pool_wf_live(1) [OF wf] by (simp only: image_insert)
  show "cp_cancelled ?pool \<subseteq> {..<cp_pollers ?pool}" using pool_wf_live(2) [OF wf] by auto
  show "x = y" if "cp_by_id ?pool x = Some q" "cp_by_id ?pool y = Some q'" "gr_rate_limit_cancel q = gr_rate_limit_cancel q'" for x y q q'
  proof (cases "x = c \<or> y = c")
    case True
    with that fresh tok show ?thesis unfolding by_id by (metis fun_upd_apply nat_neq_iff option.inject)
  next
    case False
    with that show ?thesis unfolding by_id by (intro pool_wf_inj [OF wf, of x q y q']) auto
  qed
  show "cl_credential (gr_github_client q) = d \<and> (\<exists>token. cp_secrets ?pool d = Some token \<and> starts_with token ''github_pat_'')"
    if "cp_by_id ?pool d = Some q" for d q
  proof (cases "d = c")
    case True
    with that assms(3-5) show ?thesis by auto
  next
    case False
    with that pool_wf_entry [OF wf, of d q] show ?thesis by simp
  qed
qed

lemma pool_wf_acquire:
  assumes "pool_wf pool" and "acquire_github octo_build env timeout cid pool = (pool', res)"
  shows "pool_wf pool'"
  using assms(2)
proof (cases rule: acquire_github_cases)
  case (built pool1 token r)
  note f = resolve_secret_frame [OF built(2)]
  have "pool_wf pool1" using assms(1) built(2) by (rule pool_wf_resolve)
  then show ?thesis
    unfolding built(6) f(2) [symmetric] using built f by (intro pool_wf_built) simp_all
qed (use assms(1) pool_wf_resolve in auto)

lemma pool_wf_invalidate:
  assumes wf: "pool_wf pool"
  shows "pool_wf (invalidate_except ks pool)"
proof (rule pool_wfI)
  let ?pool = "invalidate_except ks pool"
  let ?gone = "{gr_rate_limit_cancel r |r. \<exists>c. c \<notin> ks \<and> cp_by_id pool c = Some r}"
  have sel: "cp_by_id ?pool = cp_by_id pool |` ks" "cp_secrets ?pool = cp_secrets pool |` ks"
    "cp_pollers ?pool = cp_pollers pool" "cp_cancelled ?pool = cp_cancelled pool \<union> ?gone"
    by (simp_all add: invalidate_except_def)
  note live = pool_wf_live(1) [OF wf] and inj = pool_wf_inj [OF wf]
  have gone: "?gone \<subseteq> {t. t < cp_pollers pool \<and> t \<notin> cp_cancelled pool}" unfolding live by (auto intro: ranI)
  have "gr_rate_limit_cancel ` ran (cp_by_id pool |` ks) = gr_rate_limit_cancel ` ran (cp_by_id pool) - ?gone"
    by (auto simp: ran_def restrict_map_def image_iff dest: inj split: if_splits)
  then show "{t. t < cp_pollers ?pool \<and> t \<notin> cp_cancelled ?pool} = gr_rate_limit_cancel ` ran (cp_by_id ?pool)"
    unfolding sel live [symmetric] by blast
  show "cp_cancelled ?pool \<subseteq> {..<cp_pollers ?pool}" unfolding sel using pool_wf_live(2) [OF wf] gone by auto
  show "c = d" if "cp_by_id ?pool c = Some r" "cp_by_id ?pool d = Some r'"
    "gr_rate_limit_cancel r = gr_rate_limit_cancel r'" for c d r r'
    using that inj [of c r d r'] unfolding sel by (simp add: restrict_map_def split: if_splits)
  show "cl_credential (gr_github_client r) = c \<and> (\<exists>token. cp_secrets ?pool c = Some token \<and> starts_with token ''github_pat_'')"
    if "cp_by_id ?pool c = Some r" for c r
    using that pool_wf_entry [OF wf, of c r] unfolding sel by (simp add: restrict_map_def split: if_splits)
qed

interpretation pool: preserved_step pool_step pool_wf
proof
  show "pool_wf (pool_step s e)" if "pool_wf s" for s e
    using that by (cases "(s, e)" rule: pool_step.cases)
      (auto intro: pool_wf_resolve pool_wf_acquire pool_wf_invalidate simp: prod_eq_iff)
qed

lemma pool_step_keeps:
  assumes "cp_by_id pool c = Some r" and "\<And>ks. e = InvalidateExcept ks \<Longrightarrow> c \<in> ks"
  shows "cp_by_id (pool_step pool e) c = Some r"
proof (cases e)
  case (ResolveSecret env d)
  with assms show ?thesis using resolve_secret_frame(1) [of env d pool "fst (resolve_secret env d pool)"] by (simp add: prod_eq_iff)
next
  case (AcquireGithub octo_build env timeout d)
  obtain pool' res where a: "acquire_github octo_build env timeout d pool = (pool', res)" by fastforce
  have "cp_by_id pool' c = Some r"
    using a
  proof (cases rule: acquire_github_cases)
    case (built pool1 token r')
    from built(1) assms(1) have "c \<noteq> d" by auto
    with built(6) resolve_secret_frame(1) [OF built(2)] assms(1) show ?thesis by simp
  next
    case (failed q e)
    with resolve_secret_frame(1) [OF failed(2)] assms(1) show ?thesis by simp
  qed (use assms(1) in simp)
  with a AcquireGithub show ?thesis by simp
next
  case (InvalidateExcept ks)
  with assms show ?thesis by (simp add: invalidate_except_def)
qed

section \<open>Properties\<close>

text \<open>
  A credential identifier is accepted exactly if it has 1 to 64 characters from
  \<open>A-Z a-z 0-9 _ -\<close> and does not start with a hyphen; the path built from an accepted identifier is
  an entry of the directory it is joined to.
\<close>

theorem valid_id_confined:
  "(validate_id_str s = Inr () \<longleftrightarrow> s \<noteq> [] \<and> length s \<le> 64 \<and> hd s \<noteq> CHR ''-'' \<and> list_all id_char s) \<and>
   (validate_id_str s = Inr () \<longrightarrow> CHR ''/'' \<notin> set s \<and> CHR ''.'' \<notin> set s \<and>
      path_join dir s = (if dir = [] \<or> last dir = CHR ''/'' then dir else dir @ ''/'') @ s)"
proof -
  have iff: "validate_id_str s = Inr () \<longleftrightarrow> s \<noteq> [] \<and> length s \<le> 64 \<and> hd s \<noteq> CHR ''-'' \<and> list_all id_char s"
    by (simp add: validate_id_str_iff MAX_LEN_def)
  have no: "CHR ''/'' \<notin> set s \<and> CHR ''.'' \<notin> set s" if "list_all id_char s"
    using that by (auto simp: list_all_iff id_char_def is_ascii_alphanumeric_def)
  have "path_join dir s = (if dir = [] \<or> last dir = CHR ''/'' then dir else dir @ ''/'') @ s" if "CHR ''/'' \<notin> set s"
  proof -
    have "starts_with (rev dir) ''/'' \<longleftrightarrow> dir \<noteq> [] \<and> last dir = CHR ''/''" by (cases dir rule: rev_cases) auto
    moreover have "\<not> starts_with s ''/''" using that by (cases s) auto
    ultimately show ?thesis by (auto simp: path_join_def)
  qed
  with iff no show ?thesis by blast
qed

theorem valid_id_confined_witness:
  "path_join ''/etc/gcit/credentials'' ''github_pat'' = ''/etc/gcit/credentials/github_pat''"
proof -
  have "validate_id_str ''github_pat'' = Inr ()"
    by (simp add: validate_id_str_iff MAX_LEN_def id_char_def is_ascii_alphanumeric_def)
  with valid_id_confined [of "''github_pat''" "''/etc/gcit/credentials''"] show ?thesis by simp
qed

text \<open>
  C36. A secret comes from a trusted place: a secret the pool hands out was cached, is the
  value of the credential's environment variable, or is the text, without line ends at its end, of a
  regular file without group or other permissions, owned by the daemon's user or root, at one of
  the two documented paths. A file that is present and fails a check is an error and later sources
  are not tried.
\<close>

theorem secret_from_trusted_source:
  assumes "resolve_secret env cid pool = (pool', Inr secret)"
  shows "(cp_secrets pool cid = Some secret \<or> pe_var env (id_to_env cid) = Some secret \<or>
    (\<exists>p raw. trusted_file env p \<and> pe_read env p = ReadOk raw \<and> secret = trim_line_ends raw \<and>
       ((\<exists>dir. pe_credentials_directory env = Some dir \<and> pe_is_dir env dir \<and> p = path_join dir cid) \<or>
        (\<exists>dir. cp_config_dir pool = Some dir \<and> p = path_join (path_join dir ''credentials'') cid)))) \<and>
    (cp_secrets pool cid = None \<and> pe_credentials_directory env = Some dir \<and> pe_is_dir env dir \<and>
       pe_stat env (path_join dir cid) \<noteq> Inl StatNotFound \<longrightarrow> trusted_file env (path_join dir cid))"
proof (rule conjI)
  have "cp_secrets pool cid = Some secret \<or> lookup_secret env (cp_config_dir pool) cid = Inr secret"
    using assms by (auto simp: resolve_secret_def split: option.splits sum.splits)
  moreover have "credentials_dir_candidate env cid = Some (Inr secret) \<or> env_candidate env cid = Some (Inr secret) \<or>
      config_dir_candidate env (cp_config_dir pool) cid = Some (Inr secret)"
    if "lookup_secret env (cp_config_dir pool) cid = Inr secret"
    using that by (auto simp: lookup_secret_def split: option.splits)
  moreover have "pe_var env (id_to_env cid) = Some secret" if "env_candidate env cid = Some (Inr secret)"
    using that by (auto simp: env_candidate_def)
  moreover have "\<exists>p raw dir. trusted_file env p \<and> pe_read env p = ReadOk raw \<and> secret = trim_line_ends raw \<and>
      pe_credentials_directory env = Some dir \<and> pe_is_dir env dir \<and> p = path_join dir cid"
    if "credentials_dir_candidate env cid = Some (Inr secret)"
    using that try_credential_file_secret by (fastforce simp: credentials_dir_candidate_def split: option.splits if_splits)
  moreover have "\<exists>p raw dir. trusted_file env p \<and> pe_read env p = ReadOk raw \<and> secret = trim_line_ends raw \<and>
      cp_config_dir pool = Some dir \<and> p = path_join (path_join dir ''credentials'') cid"
    if "config_dir_candidate env (cp_config_dir pool) cid = Some (Inr secret)"
    using that try_credential_file_secret by (fastforce simp: config_dir_candidate_def split: option.splits)
  ultimately show "cp_secrets pool cid = Some secret \<or> pe_var env (id_to_env cid) = Some secret \<or>
    (\<exists>p raw. trusted_file env p \<and> pe_read env p = ReadOk raw \<and> secret = trim_line_ends raw \<and>
       ((\<exists>dir. pe_credentials_directory env = Some dir \<and> pe_is_dir env dir \<and> p = path_join dir cid) \<or>
        (\<exists>dir. cp_config_dir pool = Some dir \<and> p = path_join (path_join dir ''credentials'') cid)))" by metis
next
  show "cp_secrets pool cid = None \<and> pe_credentials_directory env = Some dir \<and> pe_is_dir env dir \<and>
       pe_stat env (path_join dir cid) \<noteq> Inl StatNotFound \<longrightarrow> trusted_file env (path_join dir cid)"
  proof (intro impI, elim conjE)
    assume a: "cp_secrets pool cid = None" "pe_credentials_directory env = Some dir" "pe_is_dir env dir"
      and s: "pe_stat env (path_join dir cid) \<noteq> Inl StatNotFound"
    let ?t = "try_credential_file env cid (path_join dir cid)"
    have "probe (pe_euid env) (pe_stat env (path_join dir cid)) \<noteq> NotPresent"
      using s by (auto simp: probe_def Let_def split: sum.splits stat_error.splits)
    then have "?t \<noteq> None" by (auto simp: try_credential_file_def split: probe_result.splits sum.splits)
    with a assms have "?t = Some (Inr secret)"
      by (auto simp: resolve_secret_def lookup_secret_def credentials_dir_candidate_def split: sum.splits)
    then show "trusted_file env (path_join dir cid)" using try_credential_file_secret by blast
  qed
qed

definition example_env_with :: "u32 \<Rightarrow> process_env" where
  "example_env_with mode = \<lparr>pe_credentials_directory = None, pe_is_dir = \<lambda>_. False, pe_var = \<lambda>_. None,
     pe_stat = (\<lambda>p. if p = ''/etc/gcit/credentials/pat'' then Inr \<lparr>md_type = RegularType, md_mode = mode, md_uid = 0\<rparr> else Inl StatNotFound),
     pe_read = \<lambda>_. ReadOk (''github_pat_1'' @ [CHR 0x0A]), pe_euid = 990\<rparr>"

lemma example_resolve:
  "resolve_secret (example_env_with 0x180) ''pat'' (credential_pool_new (Some ''/etc/gcit'') :: unit credential_pool) =
     (credential_pool_new (Some ''/etc/gcit'')\<lparr>cp_secrets := [''pat'' \<mapsto> ''github_pat_1'']\<rparr>, Inr ''github_pat_1'')"
  by (simp add: resolve_secret_def credential_pool_new_def lookup_secret_def credentials_dir_candidate_def env_candidate_def
      config_dir_candidate_def try_credential_file_def example_env_with_def path_join_def probe_def owner_uid_accepted_def
      trim_line_ends_def)

theorem secret_from_trusted_source_witness:
  "trusted_file (example_env_with 0x180) ''/etc/gcit/credentials/pat''"
proof -
  have "pe_credentials_directory (example_env_with 0x180) = None" "pe_var (example_env_with 0x180) v = None" for v
    by (simp_all add: example_env_with_def)
  moreover have "cp_config_dir (credential_pool_new (Some ''/etc/gcit'') :: unit credential_pool) = Some ''/etc/gcit''"
    "cp_secrets (credential_pool_new (Some ''/etc/gcit'') :: unit credential_pool) = Map.empty"
    by (simp_all add: credential_pool_new_def)
  moreover have "path_join (path_join ''/etc/gcit'' ''credentials'') ''pat'' = ''/etc/gcit/credentials/pat''"
    by (simp add: path_join_def)
  ultimately show ?thesis using conjunct1 [OF secret_from_trusted_source [OF example_resolve]] by auto
qed

text \<open>
  One quota poller per cached credential: after any sequence of pool operations the
  pollers that run are exactly those of the cached resources, no two of which share a poller, each
  belongs to the credential it is cached under, and that credential's cached secret is a
  fine-grained token.
\<close>

theorem one_poller_per_credential:
  fixes config_dir :: "string option" and ops :: "'octo pool_op list"
  defines "pool \<equiv> foldl pool_step (credential_pool_new config_dir) ops"
  shows "{t. t < cp_pollers pool \<and> t \<notin> cp_cancelled pool} = gr_rate_limit_cancel ` ran (cp_by_id pool) \<and>
    inj_on gr_rate_limit_cancel (ran (cp_by_id pool)) \<and>
    (\<forall>c r. cp_by_id pool c = Some r \<longrightarrow> cl_credential (gr_github_client r) = c \<and>
       (\<exists>token. cp_secrets pool c = Some token \<and> starts_with token ''github_pat_''))"
proof -
  have wf: "pool_wf pool" unfolding pool_def by (rule pool.run_inv [OF pool_wf_new])
  have "r = r'" if "r \<in> ran (cp_by_id pool)" "r' \<in> ran (cp_by_id pool)" "gr_rate_limit_cancel r = gr_rate_limit_cancel r'" for r r'
  proof -
    from that(1,2) obtain c d where "cp_by_id pool c = Some r" "cp_by_id pool d = Some r'" by (auto simp: ran_def)
    with pool_wf_inj [OF wf this that(3)] show ?thesis by simp
  qed
  then show ?thesis using pool_wf_live(1) [OF wf] pool_wf_entry [OF wf] by (simp add: inj_on_def)
qed

theorem one_poller_per_credential_witness:
  "inj_on gr_rate_limit_cancel (ran (cp_by_id (foldl pool_step (credential_pool_new (Some ''/etc/gcit''))
     [AcquireGithub (\<lambda>_ _. Inr ()) (example_env_with 0x180) 30 ''pat'', InvalidateExcept {}])))"
  using one_poller_per_credential by blast

text \<open>
  Flows with the same credential share its resources: once acquired, every later
  acquisition returns the same client, rate bucket, quota snapshot and poller, whatever other
  operations run in between, until an invalidation that does not keep the credential.
\<close>

theorem credential_resources_shared:
  assumes "acquire_github octo_build env timeout cid pool = (pool', Inr r)"
    and "\<forall>ks. InvalidateExcept ks \<in> set ops \<longrightarrow> cid \<in> ks"
  shows "acquire_github octo_build2 env2 timeout2 cid (foldl pool_step pool' ops) = (foldl pool_step pool' ops, Inr r)"
proof -
  have "cp_by_id pool' cid = Some r"
    using assms(1) by (cases rule: acquire_github_cases) (auto simp: resolve_secret_frame)
  then have "cp_by_id (foldl pool_step pool' ops) cid = Some r"
    using assms(2)
  proof (induction ops arbitrary: pool')
    case (Cons e ops)
    then have "cp_by_id (pool_step pool' e) cid = Some r" by (intro pool_step_keeps) auto
    with Cons show ?case by simp
  qed simp
  then show ?thesis by (simp add: acquire_github_def)
qed

definition example_acquired :: "unit credential_pool \<times> (string + unit github_resources)" where
  "example_acquired = acquire_github (\<lambda>_ _. Inr ()) (example_env_with 0x180) 30 ''pat'' (credential_pool_new (Some ''/etc/gcit''))"

lemma example_acquired_ok: "\<exists>r. snd example_acquired = Inr r"
proof -
  have "cp_by_id (credential_pool_new (Some ''/etc/gcit'') :: unit credential_pool) ''pat'' = None"
    by (simp add: credential_pool_new_def)
  then show ?thesis by (simp add: example_acquired_def acquire_github_def example_resolve client_build_def Let_def)
qed

theorem credential_resources_shared_witness:
  "\<exists>r. snd example_acquired = Inr r \<and>
     snd (acquire_github (\<lambda>_ _. Inl ''no'') (example_env_with 0) 1 ''pat'' (pool_step (fst example_acquired) (InvalidateExcept {''pat''}))) = Inr r"
proof -
  from example_acquired_ok obtain r where r: "snd example_acquired = Inr r" by blast
  then have "acquire_github (\<lambda>_ _. Inr ()) (example_env_with 0x180) 30 ''pat'' (credential_pool_new (Some ''/etc/gcit'')) =
    (fst example_acquired, Inr r)" by (simp add: example_acquired_def prod_eq_iff)
  from credential_resources_shared [OF this, of "[InvalidateExcept {''pat''}]" "\<lambda>_ _. Inl ''no''" "example_env_with 0" 1] r
  show ?thesis by simp
qed

end
