(* ===== verification/Paging.thy ===== *)
theory Paging
  imports Github_Client
begin

text \<open>
  Paginated reads of the GitHub API. The correlator's two scans and the monitor's job listing are
  the same loop: process the items of the page, stop at a page limit, follow the \<open>next\<close> link. The
  loop is written once here, over the operation on one item and the page limit; a request is the
  classified read of \<open>github/client.rs\<close>, which also updates the quota snapshot.
\<close>

record ('uri, 'a) page =
  pg_items :: "'a list"
  pg_next :: "'uri option"

text \<open>
  The network during one paginated read answers the \<open>n\<close>-th request, at a time it chooses. The
  state of the loop is the number of requests so far and the quota snapshot.
\<close>

type_synonym ('uri, 'v) read_net = "nat \<Rightarrow> 'uri \<Rightarrow> instant \<times> 'v get_reply"
type_synonym read_state = "nat \<times> snapshot"

definition net_get ::
  "(int \<Rightarrow> instant option) \<Rightarrow> 'octo client \<Rightarrow> string \<Rightarrow> string \<Rightarrow> ('uri, 'v) read_net \<Rightarrow> 'uri \<Rightarrow> read_state
     \<Rightarrow> read_state \<times> (github_error + 'v)"
where
  "net_get ts client repo workflow net uri s =
     (let (now, reply) = net (fst s) uri;
          (quota, r) = classified_get ts now client repo workflow reply (snd s)
      in ((Suc (fst s), quota), r))"

text \<open>The items of a page in order; the operation may stop the whole loop.\<close>

fun walk_items :: "('acc \<Rightarrow> 'a \<Rightarrow> 'acc \<times> bool) \<Rightarrow> 'acc \<Rightarrow> 'a list \<Rightarrow> 'acc \<times> bool" where
  "walk_items step acc [] = (acc, False)"
| "walk_items step acc (x # xs) =
     (case step acc x of (acc, True) \<Rightarrow> (acc, True) | (acc, False) \<Rightarrow> walk_items step acc xs)"

function page_walk ::
  "('acc \<Rightarrow> 'a \<Rightarrow> 'acc \<times> bool) \<Rightarrow> nat \<Rightarrow> ('uri \<Rightarrow> 's \<Rightarrow> 's \<times> (github_error + ('uri, 'a) page)) \<Rightarrow> nat \<Rightarrow> 'acc
     \<Rightarrow> ('uri, 'a) page \<Rightarrow> 's \<Rightarrow> 's \<times> (github_error + 'acc)"
where
  "page_walk step max_pages get pages acc current s =
     (let pages = Suc pages; (acc, stop) = walk_items step acc (pg_items current)
      in if stop then (s, Inr acc)
         else if pages \<ge> max_pages then (s, Inr acc)
         else case pg_next current of
                None \<Rightarrow> (s, Inr acc)
              | Some uri \<Rightarrow>
                 (case get uri s of
                    (s, Inl e) \<Rightarrow> (s, Inl e)
                  | (s, Inr p) \<Rightarrow> page_walk step max_pages get pages acc p s))"
  by pat_completeness auto
termination
  by (relation "measure (\<lambda>(step, max_pages, get, pages, acc, current, s). max_pages - pages)") auto

declare page_walk.simps [simp del]

section \<open>Which pages a walk reads\<close>

text \<open>
  The pages of a walk that processed every item: each follows its predecessor's link, there are
  no more than the limit allows, and the walk ends early only at a page without a link.
\<close>

inductive page_chain ::
  "('uri \<Rightarrow> 's \<Rightarrow> 's \<times> (github_error + ('uri, 'a) page)) \<Rightarrow> nat \<Rightarrow> ('uri, 'a) page \<Rightarrow> 's \<Rightarrow> ('uri, 'a) page list \<Rightarrow> 's \<Rightarrow> bool"
  for get
where
  limit: "n \<le> 1 \<Longrightarrow> page_chain get n p s [p] s"
| no_link: "pg_next p = None \<Longrightarrow> page_chain get n p s [p] s"
| follow: "1 < n \<Longrightarrow> pg_next p = Some uri \<Longrightarrow> get uri s = (s1, Inr q) \<Longrightarrow> page_chain get (n - 1) q s1 ps s2
    \<Longrightarrow> page_chain get n p s (p # ps) s2"

abbreviation never_stops :: "('acc \<Rightarrow> 'a \<Rightarrow> 'acc) \<Rightarrow> 'acc \<Rightarrow> 'a \<Rightarrow> 'acc \<times> bool" where
  "never_stops f \<equiv> \<lambda>acc x. (f acc x, False)"

lemma walk_items_never_stops [simp]: "walk_items (never_stops f) acc xs = (foldl f acc xs, False)"
  by (induction xs arbitrary: acc) auto

lemma page_walk_chain:
  assumes "page_walk (never_stops f) max_pages get pages acc p s = (s', Inr r)" and "pages < max_pages"
  shows "\<exists>ps. page_chain get (max_pages - pages) p s ps s' \<and> r = foldl f acc (concat (map pg_items ps))"
  using assms
proof (induction "max_pages - pages" arbitrary: pages acc p s rule: less_induct)
  case less
  show ?case
  proof (cases "Suc pages \<ge> max_pages \<or> pg_next p = None")
    case True
    with less.prems have "s' = s" "r = foldl f acc (pg_items p)"
      by (auto simp: page_walk.simps [of _ _ _ pages] split: option.splits if_splits)
    moreover have "page_chain get (max_pages - pages) p s [p] s"
      using True by (auto intro: page_chain.limit page_chain.no_link)
    ultimately show ?thesis by force
  next
    case False
    then obtain uri where uri: "pg_next p = Some uri" "Suc pages < max_pages" by auto
    with less.prems obtain s1 q where q: "get uri s = (s1, Inr q)"
      "page_walk (never_stops f) max_pages get (Suc pages) (foldl f acc (pg_items p)) q s1 = (s', Inr r)"
      by (auto simp: page_walk.simps [of _ _ _ pages] Let_def split: prod.splits sum.splits)
    from less.hyps [OF _ q(2)] uri obtain ps where
      "page_chain get (max_pages - Suc pages) q s1 ps s'" "r = foldl f (foldl f acc (pg_items p)) (concat (map pg_items ps))"
      by fastforce
    moreover from this uri q(1) have "page_chain get (max_pages - pages) p s (p # ps) s'"
      by (intro page_chain.follow) auto
    ultimately show ?thesis by force
  qed
qed

lemma page_chain_nonempty: "page_chain get n p s ps s' \<Longrightarrow> ps \<noteq> []"
  by (induction rule: page_chain.induct) auto

lemma page_chain_length: "page_chain get n p s ps s' \<Longrightarrow> 0 < n \<Longrightarrow> length ps \<le> n \<and> ps \<noteq> [] \<and> hd ps = p"
  by (induction rule: page_chain.induct) auto

lemma page_chain_complete:
  "page_chain get n p s ps s' \<Longrightarrow> 0 < n \<Longrightarrow> length ps = n \<or> pg_next (last ps) = None"
  by (induction rule: page_chain.induct) (auto simp: le_Suc_eq dest: page_chain_nonempty)

section \<open>What a walk keeps\<close>

text \<open>
  A property of the accumulated value that each item keeps holds of the result, whether the loop
  ends at the last page, at the page limit or in the middle of a page.
\<close>

locale item_step =
  fixes step :: "'acc \<Rightarrow> 'a \<Rightarrow> 'acc \<times> bool"
    and going :: "'acc \<Rightarrow> bool"
    and fine :: "'acc \<Rightarrow> bool"
  assumes going_fine: "going acc \<Longrightarrow> fine acc"
    and step_fine: "going acc \<Longrightarrow> step acc x = (acc', stop) \<Longrightarrow> fine acc'"
    and step_going: "going acc \<Longrightarrow> step acc x = (acc', False) \<Longrightarrow> going acc'"
begin

lemma walk_items_fine:
  "going acc \<Longrightarrow> walk_items step acc xs = (acc', stop) \<Longrightarrow> fine acc' \<and> (\<not> stop \<longrightarrow> going acc')"
proof (induction xs arbitrary: acc)
  case Nil
  then show ?case by (auto intro: going_fine)
next
  case (Cons x xs)
  obtain a b where "step acc x = (a, b)" by force
  with Cons show ?case by (cases b) (auto intro: step_fine dest: step_going)
qed

lemma page_walk_fine:
  assumes "going acc" and "page_walk step max_pages get pages acc p s = (s', Inr r)"
  shows "fine r"
  using assms
proof (induction "max_pages - pages" arbitrary: pages acc p s rule: less_induct)
  case less
  obtain a stop where w: "walk_items step acc (pg_items p) = (a, stop)" by force
  note fine = walk_items_fine [OF less.prems(1) w]
  show ?case
  proof (cases "stop \<or> Suc pages \<ge> max_pages \<or> pg_next p = None")
    case True
    with less.prems(2) w fine show ?thesis
      by (auto simp: page_walk.simps [of _ _ _ pages] split: option.splits if_splits)
  next
    case False
    with less.prems(2) w obtain s1 q where
      "page_walk step max_pages get (Suc pages) a q s1 = (s', Inr r)" "Suc pages < max_pages"
      by (auto simp: page_walk.simps [of _ _ _ pages] Let_def split: prod.splits sum.splits option.splits)
    with less.hyps [of "Suc pages" a q s1] fine False show ?thesis by auto
  qed
qed

end

end
