(* ===== verification/Dispatch.thy ===== *)
theory Dispatch
  imports Github_Client
begin

text \<open>
  Workflow dispatch (\<open>src/src/github/dispatcher.rs\<close>): the inputs payload, the dispatch request
  behind the quota gate and the bucket, the reclassification of a 403 from the quota snapshot, and
  the delay policy of the retry. A \<open>BTreeMap\<close> that is iterated is the list of its entries in key
  order. Handlebars, URI parsing, the HTTP exchange and octocrab's error mapping are parameters;
  \<open>backon\<close>'s retry driver is not modelled, only the decisions the code gives it.
\<close>

section \<open>Inputs\<close>

definition GCIT_RUN_ID_INPUT :: string where
  [model_defs]: "GCIT_RUN_ID_INPUT = ''gcit_run_id''"

record dispatch_outcome =
  do_gcit_run_id :: string
  do_dispatched_at :: instant
  do_repo :: string
  do_workflow :: string
  do_ref_name :: string

record dispatch_params =
  dp_repo :: string
  dp_workflow :: string
  dp_ref_name :: string
  dp_gcit_run_id :: string
  dp_rendered_inputs :: "(string \<times> string) list"

fun render_inputs :: "(string \<Rightarrow> 'e + string) \<Rightarrow> (string \<times> string) list \<Rightarrow> 'e + (string \<times> string) list" where
  "render_inputs render [] = Inr []"
| "render_inputs render ((k, v) # kvs) =
     (case render v of
        Inl e \<Rightarrow> Inl e
      | Inr rendered \<Rightarrow>
         (case render_inputs render kvs of Inl e \<Rightarrow> Inl e | Inr out \<Rightarrow> Inr ((k, rendered) # out)))"

definition build_inputs_payload :: "(string \<times> string) list \<Rightarrow> string \<Rightarrow> (string \<rightharpoonup> string)" where
  "build_inputs_payload rendered_inputs gcit_run_id =
     (let m = foldl (\<lambda>m (k, v). m(k \<mapsto> v)) Map.empty rendered_inputs
      in m(GCIT_RUN_ID_INPUT \<mapsto> gcit_run_id))"

text \<open>\<open>splitn(2, '/')\<close>: the text before the first slash, and all that follows it.\<close>

definition split_repo :: "string \<Rightarrow> github_error + (string \<times> string)" where
  "split_repo slash_form =
     (let owner = takeWhile (\<lambda>c. c \<noteq> CHR ''/'') slash_form;
          repo = drop (Suc (length owner)) slash_form
      in if owner = [] \<or> repo = []
         then Inl (Unknown (''repo '' @ [CHR 0x60] @ slash_form @ [CHR 0x60] @ '' must be '' @ [CHR 0x60] @ ''owner/repo'' @
           [CHR 0x60] @ '' (config validation should have caught this)''))
         else Inr (owner, repo))"

section \<open>One dispatch\<close>

definition dispatch_route :: "string \<Rightarrow> string \<Rightarrow> string \<Rightarrow> string" where
  "dispatch_route owner repo workflow =
     ''/repos/'' @ owner @ ''/'' @ repo @ ''/actions/workflows/'' @ workflow @ ''/dispatches''"

text \<open>\<open>parse_uri\<close> is the parser of \<open>http::Uri\<close>.\<close>

definition build_dispatch_uri :: "(string \<Rightarrow> string + 'uri) \<Rightarrow> string \<Rightarrow> string \<Rightarrow> string \<Rightarrow> github_error + 'uri" where
  "build_dispatch_uri parse_uri owner repo workflow =
     (case parse_uri (dispatch_route owner repo workflow) of
        Inl e \<Rightarrow> Inl (Unknown (''dispatcher route URI invalid: '' @ e))
      | Inr uri \<Rightarrow> Inr uri)"

definition reclassify_403_via_snapshot :: "instant \<Rightarrow> snapshot \<Rightarrow> github_error \<Rightarrow> github_error" where
  "reclassify_403_via_snapshot now snap classified =
     (case classified of
        Forbidden credential \<Rightarrow>
          if sn_remaining snap \<noteq> Some 0 then classified
          else RateLimited credential
            (case sn_reset snap of
               Some r \<Rightarrow> if r > now then r else now + int (from_secs 60)
             | None \<Rightarrow> now + int (from_secs 60))
      | _ \<Rightarrow> classified)"

text \<open>What the POST gives: no answer in time, a failed exchange, or a status with headers and, for
  a status that is not a success, the error octocrab maps the response to.\<close>

datatype post_reply = PostTimedOut | PostFailed octocrab_error | PostResponse nat header_map octocrab_error

definition is_success :: "nat \<Rightarrow> bool" where
  "is_success status \<longleftrightarrow> 200 \<le> status \<and> status < 300"

text \<open>
  The environment of one attempt: the clock where it is read, whether cancellation overtakes the
  quota wait, the URI parser, and the answer to the POST. The request itself is part of the result.
\<close>

record ('uri) dispatch_env =
  de_gate_now :: instant
  de_wait_cancelled :: bool
  de_acquire_now :: instant
  de_wake_now :: instant
  de_dispatched_at :: instant
  de_parse_uri :: "string \<Rightarrow> string + 'uri"
  de_reply :: post_reply
  de_classify_now :: instant
  de_timestamp_opt :: "int \<Rightarrow> instant option"

record gates =
  g_bucket :: rate_bucket
  g_quota :: snapshot

record 'uri request =
  rq_uri :: 'uri
  rq_ref :: string
  rq_inputs :: "string \<rightharpoonup> string"

definition wait_for_rate_limit_or_cancel :: "'uri dispatch_env \<Rightarrow> snapshot \<Rightarrow> github_error + unit" where
  "wait_for_rate_limit_or_cancel env quota =
     (case should_defer (de_gate_now env) quota of
        None \<Rightarrow> Inr ()
      | Some wait \<Rightarrow> if de_wait_cancelled env then Inl Cancelled else Inr ())"

definition send_dispatch_request ::
  "'uri dispatch_env \<Rightarrow> 'octo client \<Rightarrow> dispatch_params \<Rightarrow> snapshot \<Rightarrow> github_error + (nat \<times> header_map \<times> octocrab_error)" where
  "send_dispatch_request env client params quota =
     (case de_reply env of
        PostResponse status headers e \<Rightarrow> Inr (status, headers, e)
      | PostFailed e \<Rightarrow>
          Inl (reclassify_403_via_snapshot (de_classify_now env) quota
            (classify (de_classify_now env) e (cl_credential client) (dp_repo params) (dp_workflow params) None None))
      | PostTimedOut \<Rightarrow> Inl (timeout_error (cl_request_timeout client)))"

definition classify_response_or_error ::
  "'uri dispatch_env \<Rightarrow> 'octo client \<Rightarrow> dispatch_params \<Rightarrow> snapshot \<Rightarrow> nat \<Rightarrow> octocrab_error \<Rightarrow> github_error + unit" where
  "classify_response_or_error env client params quota status e =
     (if is_success status then Inr ()
      else Inl (reclassify_403_via_snapshot (de_classify_now env) quota
        (classify (de_classify_now env) e (cl_credential client) (dp_repo params) (dp_workflow params) None None)))"

definition dispatch ::
  "'uri dispatch_env \<Rightarrow> 'octo client \<Rightarrow> dispatch_params \<Rightarrow> gates
     \<Rightarrow> gates \<times> 'uri request option \<times> (github_error + dispatch_outcome)"
where
  "dispatch env client params g =
     (case split_repo (dp_repo params) of
        Inl e \<Rightarrow> (g, None, Inl e)
      | Inr (owner, repo) \<Rightarrow>
         (case wait_for_rate_limit_or_cancel env (g_quota g) of
            Inl e \<Rightarrow> (g, None, Inl e)
          | Inr _ \<Rightarrow>
             (let b = acquire_wake (de_wake_now env) (snd (acquire_reserve (de_acquire_now env) (g_bucket g)));
                  g = g\<lparr>g_bucket := b\<rparr>;
                  payload = build_inputs_payload (dp_rendered_inputs params) (dp_gcit_run_id params)
              in case build_dispatch_uri (de_parse_uri env) owner repo (dp_workflow params) of
                   Inl e \<Rightarrow> (g, None, Inl e)
                 | Inr uri \<Rightarrow>
                    (let request = Some \<lparr>rq_uri = uri, rq_ref = dp_ref_name params, rq_inputs = payload\<rparr>
                     in case send_dispatch_request env client params (g_quota g) of
                          Inl e \<Rightarrow> (g, request, Inl e)
                        | Inr (status, headers, e) \<Rightarrow>
                           (let g = g\<lparr>g_quota := observe_headers (de_timestamp_opt env) (de_classify_now env) headers (g_quota g)\<rparr>
                            in case classify_response_or_error env client params (g_quota g) status e of
                                 Inl e \<Rightarrow> (g, request, Inl e)
                               | Inr _ \<Rightarrow>
                                   (g, request, Inr \<lparr>do_gcit_run_id = dp_gcit_run_id params,
                                      do_dispatched_at = de_dispatched_at env, do_repo = dp_repo params,
                                      do_workflow = dp_workflow params, do_ref_name = dp_ref_name params\<rparr>))))))"

text \<open>
  What the retry is given: retry on transient errors, and the delay before the next attempt from
  the schedule's delay (\<open>None\<close> once the schedule is used up; a result \<open>None\<close> gives up).
\<close>

definition retry_when :: "github_error \<Rightarrow> bool" where
  "retry_when e = is_transient e"

definition retry_adjust :: "instant \<Rightarrow> github_error \<Rightarrow> duration option \<Rightarrow> duration option" where
  "retry_adjust now err dur =
     (case (retry_after now err, dur) of
        (Some after, Some d) \<Rightarrow> Some (max after d)
      | (Some after, None) \<Rightarrow> Some after
      | (None, dur) \<Rightarrow> dur)"

section \<open>Lemmas\<close>

lemma payload_fold: "foldl (\<lambda>m (k, v). m(k \<mapsto> v)) m kvs = m ++ map_of (rev kvs)"
  by (induction kvs arbitrary: m) (auto simp: map_add_assoc [symmetric] fun_upd_def map_add_def fun_eq_iff split: option.split)

lemma build_inputs_payload_eq:
  "build_inputs_payload kvs i = (map_of (rev kvs))(GCIT_RUN_ID_INPUT \<mapsto> i)"
  by (simp add: build_inputs_payload_def payload_fold)

lemma split_repo_Inr:
  assumes "split_repo s = Inr (owner, repo)"
  shows "s = owner @ ''/'' @ repo \<and> owner \<noteq> [] \<and> repo \<noteq> [] \<and> CHR ''/'' \<notin> set owner"
proof (cases "CHR ''/'' \<in> set s")
  case True
  then obtain ys zs where s: "s = ys @ CHR ''/'' # zs" "CHR ''/'' \<notin> set ys"
    by (auto dest: split_list_first)
  then have "takeWhile (\<lambda>c. c \<noteq> CHR ''/'') s = ys" by (simp add: takeWhile_append)
  with s assms show ?thesis by (auto simp: split_repo_def Let_def split: if_splits)
next
  case False
  then have "takeWhile (\<lambda>c. c \<noteq> CHR ''/'') s = s" by (auto simp: takeWhile_eq_all_conv)
  with assms show ?thesis by (simp add: split_repo_def Let_def)
qed

lemma reclassify_RateLimited:
  "reclassify_403_via_snapshot now snap (Forbidden c) = RateLimited c r \<Longrightarrow> now < r"
  by (auto simp: reclassify_403_via_snapshot_def from_secs_def split: option.splits if_splits)

lemma reclassify_exhausted:
  "sn_remaining snap = Some 0 \<Longrightarrow> \<exists>r > now. reclassify_403_via_snapshot now snap (Forbidden c) = RateLimited c r"
  by (simp add: reclassify_403_via_snapshot_def from_secs_def split: option.split)

lemma retry_adjust_waits_for_reset:
  "\<exists>d. retry_adjust now (RateLimited c r) dur = Some d \<and> r \<le> now + int d"
  by (cases dur) (auto simp: retry_adjust_def retry_after_RateLimited max_def)

text \<open>Every other error follows the schedule, and gives up when it is used up.\<close>

lemma retry_adjust_schedule:
  "(\<nexists>c r. e = RateLimited c r) \<Longrightarrow> retry_adjust now e dur = dur"
  using retry_after_Some_iff [of now e] by (cases "retry_after now e") (auto simp: retry_adjust_def)

section \<open>Properties\<close>

text \<open>
  A dispatch is reported as done only if GitHub accepted it, and the accepted request
  was for the configured ref and carried exactly the rendered inputs, with the run id of this
  dispatch under the reserved input name whatever the inputs say for it.
\<close>

theorem dispatch_ok_sent_run_id:
  assumes "dispatch env client params g = (g', rq, Inr out)"
  shows "\<exists>uri status headers e. de_reply env = PostResponse status headers e \<and> is_success status
    \<and> rq = Some \<lparr>rq_uri = uri, rq_ref = dp_ref_name params,
         rq_inputs = (map_of (rev (dp_rendered_inputs params)))(GCIT_RUN_ID_INPUT \<mapsto> do_gcit_run_id out)\<rparr>
    \<and> out = \<lparr>do_gcit_run_id = dp_gcit_run_id params, do_dispatched_at = de_dispatched_at env,
         do_repo = dp_repo params, do_workflow = dp_workflow params, do_ref_name = dp_ref_name params\<rparr>"
  using assms
  by (auto simp: dispatch_def Let_def send_dispatch_request_def classify_response_or_error_def
      build_inputs_payload_eq split: sum.splits post_reply.splits if_splits)

definition example_client :: "unit client" where
  "example_client = \<lparr>cl_octo = (), cl_credential = ''pat'', cl_request_timeout = from_secs 30\<rparr>"

definition example_dispatch :: dispatch_params where
  "example_dispatch = \<lparr>dp_repo = ''o/r'', dp_workflow = ''ci.yml'', dp_ref_name = ''refs/heads/main'',
     dp_gcit_run_id = ''u-1'', dp_rendered_inputs = [(''gcit_run_id'', ''spoof''), (''sha'', ''ab'')]\<rparr>"

definition example_gates :: gates where
  "example_gates = \<lparr>g_bucket = rate_bucket_new 1,
     g_quota = \<lparr>sn_remaining = Some 5, sn_limit = Some 60, sn_reset = Some 50, sn_observed_at = Some 0\<rparr>\<rparr>"

definition example_attempt :: "post_reply \<Rightarrow> string dispatch_env" where
  "example_attempt reply = \<lparr>de_gate_now = 1, de_wait_cancelled = False, de_acquire_now = 1, de_wake_now = 1,
     de_dispatched_at = 2, de_parse_uri = Inr, de_reply = reply, de_classify_now = 3, de_timestamp_opt = Some\<rparr>"

lemmas example_dispatch_defs = example_client_def example_dispatch_def example_gates_def example_attempt_def

theorem dispatch_ok_sent_run_id_witness:
  "\<exists>uri status headers e. PostResponse 204 Map.empty (OctoOther []) = PostResponse status headers e \<and> is_success status
    \<and> fst (snd (dispatch (example_attempt (PostResponse 204 Map.empty (OctoOther []))) example_client example_dispatch example_gates)) =
       Some \<lparr>rq_uri = uri, rq_ref = ''refs/heads/main'',
         rq_inputs = [''gcit_run_id'' \<mapsto> ''u-1'', ''sha'' \<mapsto> ''ab'']\<rparr>"
proof -
  let ?d = "dispatch (example_attempt (PostResponse 204 Map.empty (OctoOther []))) example_client example_dispatch example_gates"
  have "snd (snd ?d) = Inr \<lparr>do_gcit_run_id = ''u-1'', do_dispatched_at = 2, do_repo = ''o/r'',
      do_workflow = ''ci.yml'', do_ref_name = ''refs/heads/main''\<rparr>"
    by (simp add: example_dispatch_defs dispatch_def split_repo_def wait_for_rate_limit_or_cancel_def should_defer_def
        build_dispatch_uri_def send_dispatch_request_def classify_response_or_error_def is_success_def
        POLL_INTERVAL_def from_secs_def Let_def)
  then have "?d = (fst ?d, fst (snd ?d), Inr \<lparr>do_gcit_run_id = ''u-1'', do_dispatched_at = 2, do_repo = ''o/r'',
      do_workflow = ''ci.yml'', do_ref_name = ''refs/heads/main''\<rparr>)" by (metis prod.collapse)
  from dispatch_ok_sent_run_id [OF this] show ?thesis
    by (auto simp: example_attempt_def example_dispatch_def GCIT_RUN_ID_INPUT_def fun_eq_iff)
qed

text \<open>
  A 403 from an exhausted quota is never taken for a missing permission: when the quota
  snapshot, updated from the response's own headers, has nothing remaining, the attempt fails
  with a transient rate-limit error whose reset lies in the future, and whatever the retry
  schedule says, even when it is used up, the next attempt waits until that reset.
\<close>

theorem exhausted_403_waits_for_reset:
  assumes "de_reply env = PostResponse 403 headers (OctoGitHub 403 message)"
    and "sn_remaining (observe_headers (de_timestamp_opt env) (de_classify_now env) headers (g_quota g)) = Some 0"
    and "dispatch env client params g = (g', Some rq, r)"
  shows "\<exists>reset. r = Inl (RateLimited (cl_credential client) reset) \<and> de_classify_now env < reset
    \<and> (\<forall>now dur. \<exists>d. retry_adjust now (RateLimited (cl_credential client) reset) dur = Some d \<and> reset \<le> now + int d)"
proof -
  let ?q = "observe_headers (de_timestamp_opt env) (de_classify_now env) headers (g_quota g)"
  from reclassify_exhausted [OF assms(2)] obtain reset where reset:
    "reclassify_403_via_snapshot (de_classify_now env) ?q (Forbidden (cl_credential client)) =
       RateLimited (cl_credential client) reset" "de_classify_now env < reset" by blast
  have "r = Inl (RateLimited (cl_credential client) reset)"
    using assms(1,3) reset(1)
    by (auto simp: dispatch_def Let_def send_dispatch_request_def classify_response_or_error_def is_success_def
        classify_def classify_status_def split: sum.splits)
  with reset(2) retry_adjust_waits_for_reset show ?thesis by blast
qed

theorem exhausted_403_waits_for_reset_witness:
  "\<exists>reset. snd (snd (dispatch (example_attempt (PostResponse 403 [''x-ratelimit-remaining'' \<mapsto> ''0'']
        (OctoGitHub 403 ''quota''))) example_client example_dispatch example_gates)) = Inl (RateLimited ''pat'' reset)
    \<and> 3 < reset \<and> (\<forall>now dur. \<exists>d. retry_adjust now (RateLimited ''pat'' reset) dur = Some d \<and> reset \<le> now + int d)"
proof -
  let ?h = "[''x-ratelimit-remaining'' \<mapsto> ''0''] :: header_map"
  let ?env = "example_attempt (PostResponse 403 ?h (OctoGitHub 403 ''quota''))"
  let ?d = "dispatch ?env example_client example_dispatch example_gates"
  have q: "sn_remaining (observe_headers (de_timestamp_opt ?env) (de_classify_now ?env) ?h (g_quota example_gates)) = Some 0"
    by (simp add: observe_headers_def parse_u64_header_def parse_reset_header_def parse_u64_def digit_val_def
        Let_def)
  have "\<exists>rq. fst (snd ?d) = Some rq"
    by (simp add: example_dispatch_defs dispatch_def split_repo_def wait_for_rate_limit_or_cancel_def should_defer_def
        build_dispatch_uri_def send_dispatch_request_def classify_response_or_error_def is_success_def
        POLL_INTERVAL_def from_secs_def Let_def)
  then obtain rq where "?d = (fst ?d, Some rq, snd (snd ?d))" by (metis prod.collapse)
  from exhausted_403_waits_for_reset [OF _ q this] show ?thesis
    by (simp add: example_attempt_def example_client_def)
qed

end
