(* ===== verification/Correlator.thy ===== *)
theory Correlator
  imports Paging Dispatch
begin

text \<open>
  From a dispatch to the workflow run it created (\<open>src/src/github/correlator.rs\<close>): the scan for the
  run name, the fallback scan by head SHA, the deadlines with drain mode, and the conversions of
  API runs and jobs. The monotonic clock is explicit: an iteration starts at a given time, its
  scans take the time the environment says, and the sleep ends at the timer or at cancellation.
  The delays are what \<open>backon\<close>'s iterator yields.
\<close>

section \<open>Parameters\<close>

definition NORMAL_TIMEOUT :: duration where [model_defs]: "NORMAL_TIMEOUT = from_secs 300"
definition DRAIN_TIMEOUT :: duration where [model_defs]: "DRAIN_TIMEOUT = from_secs 30"
definition POLL_INTERVAL_MAX :: duration where [model_defs]: "POLL_INTERVAL_MAX = from_secs 60"
definition MAX_PAGES_PER_POLL :: nat where [model_defs]: "MAX_PAGES_PER_POLL = 5"
definition CLOCK_SKEW_BUFFER :: duration where [model_defs]: "CLOCK_SKEW_BUFFER = from_secs 120"

record correlate_params =
  cp_repo :: string
  cp_workflow :: string
  cp_gcit_run_id :: string
  cp_branch :: string
  cp_head_sha :: string
  cp_dispatched_at :: instant
  cp_run_name_configured :: "bool option"

record correlation_outcome =
  co_run_id :: u64
  co_summary :: run_summary

datatype correlation_error =
    DuplicateMatch string string string "u64 list"
  | CorrelationTimeout string string string duration
  | CorrelationGithub github_error

text \<open>The fields of octocrab's \<open>Run\<close>, \<open>Job\<close> and \<open>Step\<close> that the conversions read.\<close>

record api_run =
  ar_id :: u64
  ar_name :: string
  ar_html_url :: string
  ar_run_number :: int
  ar_status :: string
  ar_conclusion :: "string option"
  ar_created_at :: instant
  ar_updated_at :: instant

datatype api_conclusion = ApiActionRequired | ApiCancelled | ApiFailure | ApiNeutral | ApiSkipped | ApiSuccess
  | ApiTimedOut | ApiOtherConclusion

record api_step =
  as_name :: string
  as_number :: int
  as_conclusion :: "api_conclusion option"
  as_started_at :: "instant option"
  as_completed_at :: "instant option"

record api_job =
  aj_id :: u64
  aj_name :: string
  aj_html_url :: string
  aj_conclusion :: "api_conclusion option"
  aj_started_at :: instant
  aj_completed_at :: "instant option"
  aj_steps :: "api_step list"
  aj_run_attempt :: u32

section \<open>Conversions\<close>

text \<open>\<open>u64::try_from(i).unwrap_or(0)\<close> and \<open>u32::try_from(i).unwrap_or(0)\<close>\<close>

definition u64_or_zero :: "int \<Rightarrow> u64" where
  "u64_or_zero i = (if 0 \<le> i \<and> i < 2 ^ 64 then word_of_int i else 0)"

definition u32_or_zero :: "int \<Rightarrow> u32" where
  "u32_or_zero i = (if 0 \<le> i \<and> i < 2 ^ 32 then word_of_int i else 0)"

definition run_to_summary :: "api_run \<Rightarrow> run_summary" where
  "run_to_summary run =
     \<lparr>run_id = ar_id run, run_url = ar_html_url run, run_number = u64_or_zero (ar_run_number run), run_attempt = 1,
      run_status = run_status_from_api (ar_status run),
      run_conclusion = map_option conclusion_from_api (ar_conclusion run),
      run_started_at = Some (ar_created_at run), run_completed_at = Some (ar_updated_at run), run_jobs = []\<rparr>"

fun map_conclusion :: "api_conclusion \<Rightarrow> conclusion" where
  "map_conclusion ApiActionRequired = ActionRequired"
| "map_conclusion ApiCancelled = Cancelled_run"
| "map_conclusion ApiFailure = Failure"
| "map_conclusion ApiNeutral = Neutral"
| "map_conclusion ApiSkipped = Skipped"
| "map_conclusion ApiSuccess = Success"
| "map_conclusion ApiTimedOut = TimedOut"
| "map_conclusion ApiOtherConclusion = Unknown_conclusion"

definition step_to_result :: "api_step \<Rightarrow> step_result" where
  "step_to_result step =
     \<lparr>sr_name = as_name step, sr_number = u32_or_zero (as_number step),
      sr_conclusion = map_option map_conclusion (as_conclusion step),
      sr_started_at = as_started_at step, sr_completed_at = as_completed_at step\<rparr>"

definition job_to_result :: "api_job \<Rightarrow> job_result" where
  "job_to_result job =
     \<lparr>job_id = aj_id job, job_name = aj_name job, job_html_url = aj_html_url job,
      job_conclusion = map_option map_conclusion (aj_conclusion job), job_started_at = Some (aj_started_at job),
      job_completed_at = aj_completed_at job, job_steps = map step_to_result (aj_steps job),
      job_run_attempt = aj_run_attempt job\<rparr>"

definition ref_to_branch :: "string \<Rightarrow> string" where
  "ref_to_branch ref_name = (case strip_prefix ref_name ''refs/heads/'' of Some b \<Rightarrow> b | None \<Rightarrow> [])"

section \<open>Scans\<close>

definition runs_path :: "correlate_params \<Rightarrow> string \<Rightarrow> string \<Rightarrow> string option \<Rightarrow> string" where
  "runs_path params owner repo head_sha =
     ''/repos/'' @ owner @ ''/'' @ repo @ ''/actions/workflows/'' @ cp_workflow params @
     ''/runs?event=workflow_dispatch&per_page=100'' @
     (if cp_branch params \<noteq> [] then ''&branch='' @ cp_branch params else []) @
     (case head_sha of Some sha \<Rightarrow> ''&head_sha='' @ sha | None \<Rightarrow> [])"

text \<open>A scan's surroundings: client, URI parser and date conversion.\<close>

record ('octo, 'uri) scan_world =
  sw_client :: "'octo client"
  sw_parse_uri :: "string \<Rightarrow> string + 'uri"
  sw_timestamp_opt :: "int \<Rightarrow> instant option"

type_synonym 'uri run_net = "('uri, ('uri, api_run) page) read_net"

abbreviation run_get where
  "run_get w params net \<equiv> net_get (sw_timestamp_opt w) (sw_client w) (cp_repo params) (cp_workflow params) net"

definition list_runs_page ::
  "('octo, 'uri) scan_world \<Rightarrow> correlate_params \<Rightarrow> 'uri run_net \<Rightarrow> string option \<Rightarrow> read_state
     \<Rightarrow> read_state \<times> (github_error + ('uri, api_run) page)"
where
  "list_runs_page w params net head_sha s =
     (case split_repo (cp_repo params) of
        Inl e \<Rightarrow> (s, Inl e)
      | Inr (owner, repo) \<Rightarrow>
         (case sw_parse_uri w (runs_path params owner repo head_sha) of
            Inl e \<Rightarrow> (s, Inl (Unknown (''correlator route URI invalid: '' @ e)))
          | Inr uri \<Rightarrow> run_get w params net uri s))"

datatype scan_result = NoMatch | SingleMatch api_run | DuplicateMatches "u64 list"

definition needle :: "correlate_params \<Rightarrow> string" where
  "needle params = ''gcit-'' @ cp_gcit_run_id params"

definition push_match :: "correlate_params \<Rightarrow> api_run list \<Rightarrow> api_run \<Rightarrow> api_run list" where
  "push_match params matches run = (if contains (ar_name run) (needle params) then matches @ [run] else matches)"

definition scan_runs_for_match ::
  "('octo, 'uri) scan_world \<Rightarrow> correlate_params \<Rightarrow> 'uri run_net \<Rightarrow> snapshot \<Rightarrow> snapshot \<times> (github_error + scan_result)"
where
  "scan_runs_for_match w params net quota =
     (case list_runs_page w params net None (0, quota) of
        (s, Inl e) \<Rightarrow> (snd s, Inl e)
      | (s, Inr first_page) \<Rightarrow>
         (case page_walk (never_stops (push_match params)) MAX_PAGES_PER_POLL (run_get w params net) 0 [] first_page s of
            (s, Inl e) \<Rightarrow> (snd s, Inl e)
          | (s, Inr matches) \<Rightarrow>
              (snd s, Inr (case matches of
                             [] \<Rightarrow> NoMatch
                           | [run] \<Rightarrow> SingleMatch run
                           | _ \<Rightarrow> DuplicateMatches (map ar_id matches)))))"

definition fallback_cutoff :: "correlate_params \<Rightarrow> instant" where
  "fallback_cutoff params = cp_dispatched_at params - int CLOCK_SKEW_BUFFER"

definition keep_newest :: "instant \<Rightarrow> api_run option \<Rightarrow> api_run \<Rightarrow> api_run option" where
  "keep_newest cutoff newest run =
     (if ar_created_at run < cutoff then newest
      else case newest of
             None \<Rightarrow> Some run
           | Some prev \<Rightarrow> if ar_created_at run > ar_created_at prev then Some run else newest)"

definition scan_runs_for_fallback ::
  "('octo, 'uri) scan_world \<Rightarrow> correlate_params \<Rightarrow> 'uri run_net \<Rightarrow> snapshot \<Rightarrow> snapshot \<times> (github_error + api_run option)"
where
  "scan_runs_for_fallback w params net quota =
     (case list_runs_page w params net (Some (cp_head_sha params)) (0, quota) of
        (s, Inl e) \<Rightarrow> (snd s, Inl e)
      | (s, Inr current) \<Rightarrow>
         (case page_walk (never_stops (keep_newest (fallback_cutoff params))) MAX_PAGES_PER_POLL (run_get w params net) 0 None current s of
            (s, Inl e) \<Rightarrow> (snd s, Inl e)
          | (s, Inr newest) \<Rightarrow> (snd s, Inr newest)))"

definition outcome_of_run :: "api_run \<Rightarrow> correlation_outcome" where
  "outcome_of_run run = \<lparr>co_run_id = ar_id run, co_summary = run_to_summary run\<rparr>"

definition scan_name_match ::
  "('octo, 'uri) scan_world \<Rightarrow> correlate_params \<Rightarrow> 'uri run_net \<Rightarrow> snapshot
     \<Rightarrow> snapshot \<times> (correlation_error + correlation_outcome option)"
where
  "scan_name_match w params net quota =
     (case scan_runs_for_match w params net quota of
        (quota, Inr (SingleMatch run)) \<Rightarrow> (quota, Inr (Some (outcome_of_run run)))
      | (quota, Inr (DuplicateMatches ids)) \<Rightarrow>
          (quota, Inl (DuplicateMatch (cp_repo params) (cp_workflow params) (cp_gcit_run_id params) ids))
      | (quota, Inr NoMatch) \<Rightarrow> (quota, Inr None)
      | (quota, Inl e) \<Rightarrow> if \<not> is_transient e then (quota, Inl (CorrelationGithub e)) else (quota, Inr None))"

definition scan_head_sha_fallback ::
  "('octo, 'uri) scan_world \<Rightarrow> correlate_params \<Rightarrow> 'uri run_net \<Rightarrow> snapshot
     \<Rightarrow> snapshot \<times> (correlation_error + correlation_outcome option)"
where
  "scan_head_sha_fallback w params net quota =
     (case scan_runs_for_fallback w params net quota of
        (quota, Inr (Some run)) \<Rightarrow> (quota, Inr (Some (outcome_of_run run)))
      | (quota, Inr None) \<Rightarrow> (quota, Inr None)
      | (quota, Inl e) \<Rightarrow> if \<not> is_transient e then (quota, Inl (CorrelationGithub e)) else (quota, Inr None))"

section \<open>The loop\<close>

text \<open>The cancellation token: the time it fires, if it does.\<close>

definition is_cancelled :: "instant option \<Rightarrow> instant \<Rightarrow> bool" where
  "is_cancelled cancel_at now = (case cancel_at of Some c \<Rightarrow> c \<le> now | None \<Rightarrow> False)"

definition compute_effective_deadline ::
  "instant option \<Rightarrow> instant \<Rightarrow> instant \<Rightarrow> instant option \<Rightarrow> instant \<times> instant option" where
  "compute_effective_deadline cancel_at now normal_deadline drain_start =
     (if is_cancelled cancel_at now
      then (let onset = (case drain_start of Some t \<Rightarrow> t | None \<Rightarrow> now)
            in (min normal_deadline (onset + int DRAIN_TIMEOUT), Some onset))
      else (normal_deadline, drain_start))"

text \<open>The time at which the sleep of an iteration ends.\<close>

definition sleep_with_cancel_awareness :: "duration option \<Rightarrow> instant \<Rightarrow> instant option \<Rightarrow> instant \<Rightarrow> instant" where
  "sleep_with_cancel_awareness delay effective_deadline cancel_at now =
     (let next_delay = (case delay of Some d \<Rightarrow> d | None \<Rightarrow> POLL_INTERVAL_MAX);
          sleep_for = (if effective_deadline > now then min (int next_delay) (effective_deadline - now) else 0)
      in case cancel_at of
           None \<Rightarrow> now + sleep_for
         | Some c \<Rightarrow> min (now + sleep_for) (max now c))"

record 'uri correlate_env =
  cv_match_net :: "'uri run_net"
  cv_fallback_net :: "'uri run_net"
  cv_scan_time :: duration
  cv_delay :: "duration option"

text \<open>\<open>None\<close>: still polling after the given iterations.\<close>

fun correlate_loop ::
  "('octo, 'uri) scan_world \<Rightarrow> correlate_params \<Rightarrow> instant option \<Rightarrow> instant \<Rightarrow> instant option \<Rightarrow> instant \<Rightarrow> snapshot
     \<Rightarrow> 'uri correlate_env list \<Rightarrow> snapshot \<times> (correlation_error + correlation_outcome) option"
where
  "correlate_loop w params cancel_at normal_deadline drain_start now quota [] = (quota, None)"
| "correlate_loop w params cancel_at normal_deadline drain_start now quota (env # envs) =
     (let (effective_deadline, drain_start) = compute_effective_deadline cancel_at now normal_deadline drain_start
      in if now \<ge> effective_deadline
         then (quota, Some (Inl (CorrelationTimeout (cp_repo params) (cp_workflow params) (cp_gcit_run_id params)
                 (if is_cancelled cancel_at now then DRAIN_TIMEOUT else NORMAL_TIMEOUT))))
         else case scan_name_match w params (cv_match_net env) quota of
                (quota, Inl e) \<Rightarrow> (quota, Some (Inl e))
              | (quota, Inr (Some out)) \<Rightarrow> (quota, Some (Inr out))
              | (quota, Inr None) \<Rightarrow>
                 (case (if cp_run_name_configured params \<noteq> Some True
                        then scan_head_sha_fallback w params (cv_fallback_net env) quota else (quota, Inr None)) of
                    (quota, Inl e) \<Rightarrow> (quota, Some (Inl e))
                  | (quota, Inr (Some out)) \<Rightarrow> (quota, Some (Inr out))
                  | (quota, Inr None) \<Rightarrow>
                     (let wake = sleep_with_cancel_awareness (cv_delay env) effective_deadline cancel_at (now + int (cv_scan_time env))
                      in correlate_loop w params cancel_at normal_deadline drain_start wake quota envs)))"

definition correlate ::
  "('octo, 'uri) scan_world \<Rightarrow> correlate_params \<Rightarrow> instant option \<Rightarrow> instant \<Rightarrow> snapshot \<Rightarrow> 'uri correlate_env list
     \<Rightarrow> snapshot \<times> (correlation_error + correlation_outcome) option"
where
  "correlate w params cancel_at started quota envs =
     correlate_loop w params cancel_at (started + int NORMAL_TIMEOUT) None started quota envs"

section \<open>Lemmas\<close>

text \<open>What the accumulated value of each scan satisfies, item by item.\<close>

interpretation match_scan: item_step "never_stops (push_match params)"
  "\<lambda>ms. list_all (\<lambda>r. contains (ar_name r) (needle params)) ms" "\<lambda>ms. list_all (\<lambda>r. contains (ar_name r) (needle params)) ms"
  for params
  by unfold_locales (auto simp: push_match_def)

interpretation fallback_scan: item_step "never_stops (keep_newest cutoff)"
  "\<lambda>n. pred_option (\<lambda>r. cutoff \<le> ar_created_at r) n" "\<lambda>n. pred_option (\<lambda>r. cutoff \<le> ar_created_at r) n"
  for cutoff
  by unfold_locales (auto simp: keep_newest_def split: option.splits if_splits)

lemma foldl_push_match:
  "foldl (push_match params) ms runs = ms @ filter (\<lambda>r. contains (ar_name r) (needle params)) runs"
  by (induction runs arbitrary: ms) (auto simp: push_match_def)

lemma foldl_keep_newest:
  assumes "foldl (keep_newest cutoff) n runs = Some r" and "pred_option (\<lambda>r. cutoff \<le> ar_created_at r) n"
  shows "cutoff \<le> ar_created_at r \<and> (r \<in> set runs \<or> n = Some r)
    \<and> (\<forall>x \<in> set runs. cutoff \<le> ar_created_at x \<longrightarrow> ar_created_at x \<le> ar_created_at r)
    \<and> (\<forall>x. n = Some x \<longrightarrow> ar_created_at x \<le> ar_created_at r)"
  using assms
proof (induction runs arbitrary: n)
  case Nil
  then show ?case by auto
next
  case (Cons a runs)
  have "pred_option (\<lambda>r. cutoff \<le> ar_created_at r) (keep_newest cutoff n a)"
    using Cons.prems(2) by (auto simp: keep_newest_def split: option.splits)
  note IH = Cons.IH [OF Cons.prems(1) [simplified] this]
  show ?case
  proof (cases "ar_created_at a < cutoff")
    case True
    with IH show ?thesis by (auto simp: keep_newest_def)
  next
    case False
    with IH show ?thesis by (cases n) (auto simp: keep_newest_def split: if_splits)
  qed
qed

lemma scan_match_single:
  assumes "scan_runs_for_match w params net quota = (quota', Inr (SingleMatch run))"
  shows "contains (ar_name run) (needle params)"
proof -
  from assms obtain s1 p s2 where
    "page_walk (never_stops (push_match params)) MAX_PAGES_PER_POLL (run_get w params net) 0 [] p s1 = (s2, Inr [run])"
    by (auto simp: scan_runs_for_match_def split: prod.splits sum.splits list.splits)
  from match_scan.page_walk_fine [OF _ this] show ?thesis by simp
qed

lemma scan_fallback_recent:
  assumes "scan_runs_for_fallback w params net quota = (quota', Inr (Some run))"
  shows "fallback_cutoff params \<le> ar_created_at run"
proof -
  from assms obtain s1 p s2 where
    "page_walk (never_stops (keep_newest (fallback_cutoff params))) MAX_PAGES_PER_POLL (run_get w params net) 0 None p s1
       = (s2, Inr (Some run))"
    by (auto simp: scan_runs_for_fallback_def split: prod.splits sum.splits)
  from fallback_scan.page_walk_fine [OF _ this] show ?thesis by simp
qed

definition right_run :: "correlate_params \<Rightarrow> api_run \<Rightarrow> bool" where
  "right_run params run \<longleftrightarrow> contains (ar_name run) (needle params)
     \<or> cp_run_name_configured params \<noteq> Some True \<and> fallback_cutoff params \<le> ar_created_at run"

lemma scan_name_match_right:
  "scan_name_match w params net quota = (quota', Inr (Some out)) \<Longrightarrow> \<exists>run. out = outcome_of_run run \<and> right_run params run"
  using scan_match_single
  by (fastforce simp: scan_name_match_def right_run_def split: prod.splits sum.splits scan_result.splits if_splits)

lemma scan_fallback_right:
  "scan_head_sha_fallback w params net quota = (quota', Inr (Some out)) \<Longrightarrow> cp_run_name_configured params \<noteq> Some True
     \<Longrightarrow> \<exists>run. out = outcome_of_run run \<and> right_run params run"
  using scan_fallback_recent
  by (fastforce simp: scan_head_sha_fallback_def right_run_def split: prod.splits sum.splits option.splits if_splits)

lemma correlate_loop_right:
  assumes "correlate_loop w params cancel_at dl ds now quota envs = (quota', Some (Inr out))"
  shows "\<exists>run. out = outcome_of_run run \<and> right_run params run"
  using assms
proof (induction envs arbitrary: ds now quota)
  case Nil
  then show ?case by simp
next
  case (Cons env envs)
  then show ?case
    by (auto simp: Let_def split: prod.splits if_splits sum.splits option.splits
        dest: scan_name_match_right scan_fallback_right)
qed

text \<open>Waking up never turns the clock back, and an interrupted sleep ends at once.\<close>

lemma sleep_not_back: "now \<le> sleep_with_cancel_awareness delay dl cancel_at now"
  by (auto simp: sleep_with_cancel_awareness_def Let_def split: option.split)

lemma drain_mode_never_sleeps:
  "is_cancelled cancel_at now \<Longrightarrow> sleep_with_cancel_awareness delay dl cancel_at now = now"
  by (auto simp: sleep_with_cancel_awareness_def is_cancelled_def Let_def max_def min_def split: option.splits)

lemma effective_deadline_le: "fst (compute_effective_deadline cancel_at now dl ds) \<le> dl"
  by (simp add: compute_effective_deadline_def Let_def)

lemma correlate_loop_returns:
  assumes "list_all (\<lambda>env. m \<le> cv_scan_time env) envs" and "envs \<noteq> []" and "0 < m"
    and "dl - now \<le> int m * (int (length envs) - 1)"
  shows "snd (correlate_loop w params cancel_at dl ds now quota envs) \<noteq> None"
  using assms
proof (induction envs arbitrary: ds now quota)
  case Nil
  then show ?case by simp
next
  case (Cons env envs)
  obtain ed ds' where ed: "compute_effective_deadline cancel_at now dl ds = (ed, ds')" by force
  with effective_deadline_le [of cancel_at now dl ds] have le: "ed \<le> dl" by simp
  let ?wake = "sleep_with_cancel_awareness (cv_delay env) ed cancel_at (now + int (cv_scan_time env))"
  have "now + int m \<le> ?wake"
    using Cons.prems(1) sleep_not_back [of "now + int (cv_scan_time env)" "cv_delay env" ed cancel_at] by simp
  then have rest: "snd (correlate_loop w params cancel_at dl ds' ?wake q envs) \<noteq> None" if "now < ed" for q
  proof -
    have "0 < int m * int (length envs)" using Cons.prems(4) that le by simp
    then have "envs \<noteq> []" by (auto simp: zero_less_mult_iff)
    moreover have "dl - ?wake \<le> int m * (int (length envs) - 1)"
      using Cons.prems(4) \<open>now + int m \<le> ?wake\<close> by (simp add: algebra_simps)
    ultimately show ?thesis using Cons.IH Cons.prems(1,3) by simp
  qed
  show ?case
    using rest ed
    by (auto simp: Let_def split: prod.split sum.split option.split)
qed

section \<open>Properties\<close>

text \<open>
  The example of the witnesses: one page with a run of another dispatch and the run looked for.
\<close>

definition example_api_run :: "u64 \<Rightarrow> string \<Rightarrow> instant \<Rightarrow> api_run" where
  "example_api_run i name t = \<lparr>ar_id = i, ar_name = name, ar_html_url = [], ar_run_number = 1, ar_status = ''queued'',
     ar_conclusion = None, ar_created_at = t, ar_updated_at = t\<rparr>"

definition example_world :: "(unit, string) scan_world" where
  "example_world = \<lparr>sw_client = example_client, sw_parse_uri = Inr, sw_timestamp_opt = Some\<rparr>"

definition example_correlate :: correlate_params where
  "example_correlate = \<lparr>cp_repo = ''o/r'', cp_workflow = ''ci.yml'', cp_gcit_run_id = ''u1'', cp_branch = ''main'',
     cp_head_sha = ''ab'', cp_dispatched_at = 0, cp_run_name_configured = None\<rparr>"

definition example_runs :: "api_run list \<Rightarrow> string run_net" where
  "example_runs runs = (\<lambda>_ _. (0, GetResponse Map.empty 10 (Inr \<lparr>pg_items = runs, pg_next = None\<rparr>)))"

definition example_correlate_env :: "api_run list \<Rightarrow> api_run list \<Rightarrow> string correlate_env" where
  "example_correlate_env by_name by_sha = \<lparr>cv_match_net = example_runs by_name, cv_fallback_net = example_runs by_sha,
     cv_scan_time = from_secs 1, cv_delay = None\<rparr>"

lemmas example_correlate_defs = example_api_run_def example_world_def example_correlate_def example_runs_def
  example_correlate_env_def example_client_def

lemmas scan_defs = scan_name_match_def scan_head_sha_fallback_def scan_runs_for_match_def scan_runs_for_fallback_def
  list_runs_page_def split_repo_def runs_path_def net_get_def classified_get_def parse_content_length_def
  parse_u64_header_def parse_reset_header_def observe_headers_def RESPONSE_BODY_LIMIT_def needle_def
  MAX_PAGES_PER_POLL_def fallback_cutoff_def CLOCK_SKEW_BUFFER_def from_secs_def

text \<open>
  The name scan is exact over the pages it reads: it reports a run only when exactly
  one run on those pages carries this dispatch's marker in its name, reports all ids when there
  are several, and finds nothing only when there is none; the pages are linked from the first
  one, at most five, and the scan stops earlier only where there is no further page.
\<close>

theorem name_scan_exact:
  assumes "scan_runs_for_match w params net quota = (quota', Inr res)"
  shows "\<exists>p s ps s'. list_runs_page w params net None (0, quota) = (s, Inr p)
    \<and> page_chain (run_get w params net) MAX_PAGES_PER_POLL p s ps s' \<and> length ps \<le> 5
    \<and> (length ps = 5 \<or> pg_next (last ps) = None)
    \<and> res = (case filter (\<lambda>r. contains (ar_name r) (''gcit-'' @ cp_gcit_run_id params)) (concat (map pg_items ps)) of
                [] \<Rightarrow> NoMatch | [r] \<Rightarrow> SingleMatch r | ms \<Rightarrow> DuplicateMatches (map ar_id ms))"
proof -
  from assms obtain s p s' ms where 1: "list_runs_page w params net None (0, quota) = (s, Inr p)"
    and 2: "page_walk (never_stops (push_match params)) MAX_PAGES_PER_POLL (run_get w params net) 0 [] p s = (s', Inr ms)"
    and 3: "res = (case ms of [] \<Rightarrow> NoMatch | [r] \<Rightarrow> SingleMatch r | _ \<Rightarrow> DuplicateMatches (map ar_id ms))"
    by (auto simp: scan_runs_for_match_def split: prod.splits sum.splits)
  from page_walk_chain [OF 2] obtain ps where
    c: "page_chain (run_get w params net) MAX_PAGES_PER_POLL p s ps s'"
    and ms: "ms = foldl (push_match params) [] (concat (map pg_items ps))"
    by (auto simp: MAX_PAGES_PER_POLL_def)
  have "length ps \<le> 5" "length ps = 5 \<or> pg_next (last ps) = None"
    using page_chain_length [OF c] page_chain_complete [OF c] by (simp_all add: MAX_PAGES_PER_POLL_def)
  moreover have "res = (case filter (\<lambda>r. contains (ar_name r) (''gcit-'' @ cp_gcit_run_id params)) (concat (map pg_items ps)) of
      [] \<Rightarrow> NoMatch | [r] \<Rightarrow> SingleMatch r | ms \<Rightarrow> DuplicateMatches (map ar_id ms))"
    using 3 unfolding ms foldl_push_match needle_def append_Nil by (simp split: list.split)
  ultimately show ?thesis using 1 c by blast
qed

theorem name_scan_exact_witness:
  "\<exists>p s ps s'. list_runs_page example_world example_correlate
        (example_runs [example_api_run 7 ''gcit-u2'' 1, example_api_run 8 ''gcit-u1'' 2]) None (0, rate_limit_new) = (s, Inr p)
    \<and> page_chain (run_get example_world example_correlate
        (example_runs [example_api_run 7 ''gcit-u2'' 1, example_api_run 8 ''gcit-u1'' 2])) MAX_PAGES_PER_POLL p s ps s' \<and> length ps \<le> 5
    \<and> (length ps = 5 \<or> pg_next (last ps) = None)
    \<and> SingleMatch (example_api_run 8 ''gcit-u1'' 2) =
        (case filter (\<lambda>r. contains (ar_name r) (''gcit-'' @ cp_gcit_run_id example_correlate)) (concat (map pg_items ps)) of
           [] \<Rightarrow> NoMatch | [r] \<Rightarrow> SingleMatch r | ms \<Rightarrow> DuplicateMatches (map ar_id ms))"
  by (rule name_scan_exact [of _ _ _ rate_limit_new rate_limit_new])
     (simp add: example_correlate_defs scan_defs page_walk.simps push_match_def)

text \<open>
  Correlation is sound: a reported run either carries this dispatch's marker in its
  name, or, unless the workflow is known to set run names, was created no earlier than the
  dispatch less the clock-skew allowance.
\<close>

theorem correlate_sound:
  assumes "correlate w params cancel_at started quota envs = (quota', Some (Inr out))"
  shows "\<exists>run. co_run_id out = ar_id run \<and> co_summary out = run_to_summary run
    \<and> (contains (ar_name run) (''gcit-'' @ cp_gcit_run_id params)
       \<or> cp_run_name_configured params \<noteq> Some True \<and> cp_dispatched_at params - int CLOCK_SKEW_BUFFER \<le> ar_created_at run)"
  using correlate_loop_right [OF assms [unfolded correlate_def]]
  by (auto simp: outcome_of_run_def right_run_def needle_def fallback_cutoff_def)

theorem correlate_sound_witness:
  "\<exists>run. co_run_id (outcome_of_run (example_api_run 8 ''gcit-u1'' 2)) = ar_id run
    \<and> co_summary (outcome_of_run (example_api_run 8 ''gcit-u1'' 2)) = run_to_summary run
    \<and> (contains (ar_name run) (''gcit-'' @ cp_gcit_run_id example_correlate)
       \<or> cp_run_name_configured example_correlate \<noteq> Some True
         \<and> cp_dispatched_at example_correlate - int CLOCK_SKEW_BUFFER \<le> ar_created_at run)"
  by (rule correlate_sound [of example_world _ None 0 rate_limit_new
        "[example_correlate_env [example_api_run 7 ''gcit-u2'' 1, example_api_run 8 ''gcit-u1'' 2] []]" rate_limit_new])
     (simp add: correlate_def example_correlate_defs scan_defs page_walk.simps push_match_def compute_effective_deadline_def
        is_cancelled_def NORMAL_TIMEOUT_def)



text \<open>
  The fallback does not look at run names: in a repository whose workflow sets run
  names, a recent run that carries the marker of another dispatch of the same commit is reported
  when the run looked for is not listed yet.
\<close>

theorem fallback_takes_foreign_run:
  "correlate example_world example_correlate None 0 rate_limit_new
     [example_correlate_env [example_api_run 7 ''gcit-u2'' 1] [example_api_run 7 ''gcit-u2'' 1]] =
   (rate_limit_new, Some (Inr (outcome_of_run (example_api_run 7 ''gcit-u2'' 1))))"
  by (simp add: correlate_def example_correlate_defs scan_defs page_walk.simps push_match_def keep_newest_def
      compute_effective_deadline_def is_cancelled_def NORMAL_TIMEOUT_def outcome_of_run_def)

end
