(* ===== verification/State_Apply.thy ===== *)
theory State_Apply
  imports Prelude
begin

text \<open>
  The persistent state of the daemon and the pure transition function over it
  (\<open>src/src/state/apply.rs\<close>): \<open>State\<close>, \<open>FlowState\<close>, \<open>RunState\<close>, the \<open>StateUpdate\<close> events the
  per-flow tasks send to the writer thread, and \<open>State::apply\<close> with one operation per event.
  Run ids are 64-bit words, \<open>BTreeMap<String, FlowState>\<close> is a map from flow names. The
  rendering of an object id (\<open>gix_hash\<close>) is the parameter \<open>to_hex\<close>.
\<close>

section \<open>Data\<close>

definition SCHEMA_VERSION :: u32 where
  [model_defs]: "SCHEMA_VERSION = 1"

definition NOTIFIED_RUNS_CAP :: nat where
  [model_defs]: "NOTIFIED_RUNS_CAP = 100"

record run_state =
  rs_run_id :: u64
  rs_started_at :: instant
  rs_conclusion :: "string option"
  rs_completed_at :: "instant option"

record flow_state =
  last_sha :: "string option"
  last_poll_at :: "instant option"
  last_dispatched_at :: "instant option"
  cooldown_until :: "instant option"
  active_runs :: "run_state list"
  notified_runs :: "run_state list"

record state =
  schema :: u32
  flows :: "string \<rightharpoonup> flow_state"

definition default_flow_state :: flow_state where
  [model_defs]: "default_flow_state =
     \<lparr>last_sha = None, last_poll_at = None, last_dispatched_at = None, cooldown_until = None,
      active_runs = [], notified_runs = []\<rparr>"

definition default_state :: state where
  [model_defs]: "default_state = \<lparr>schema = SCHEMA_VERSION, flows = Map.empty\<rparr>"

datatype 'oid state_update =
    PollObservation string 'oid instant "instant option" "instant option"
  | PollTimestamp string instant
  | RunStarted string u64 instant
  | RunFinished string u64 string instant
  | FlowRemoved string

section \<open>Operations\<close>

text \<open>\<open>self.flows.entry(flow).or_default()\<close>\<close>

definition entry_or_default :: "state \<Rightarrow> string \<Rightarrow> flow_state" where
  [model_defs]: "entry_or_default s flow =
     (case flows s flow of None \<Rightarrow> default_flow_state | Some e \<Rightarrow> e)"

definition put_entry :: "state \<Rightarrow> string \<Rightarrow> flow_state \<Rightarrow> state" where
  [model_defs]: "put_entry s flow e = s\<lparr>flows := (flows s)(flow \<mapsto> e)\<rparr>"

definition apply_poll_observation ::
  "('oid \<Rightarrow> string) \<Rightarrow> state \<Rightarrow> string \<Rightarrow> 'oid \<Rightarrow> instant \<Rightarrow> instant option \<Rightarrow> instant option \<Rightarrow> state"
where
  "apply_poll_observation to_hex s flow sha poll_at dispatched_at cooldown =
     (let entry = entry_or_default s flow;
          entry = entry\<lparr>last_sha := Some (to_hex sha)\<rparr>;
          entry = entry\<lparr>last_poll_at := Some poll_at\<rparr>;
          entry = (if dispatched_at \<noteq> None then entry\<lparr>last_dispatched_at := dispatched_at\<rparr> else entry);
          entry = (if cooldown \<noteq> None then entry\<lparr>cooldown_until := cooldown\<rparr> else entry)
      in put_entry s flow entry)"

definition apply_poll_timestamp :: "state \<Rightarrow> string \<Rightarrow> instant \<Rightarrow> state" where
  "apply_poll_timestamp s flow poll_at =
     put_entry s flow ((entry_or_default s flow)\<lparr>last_poll_at := Some poll_at\<rparr>)"

definition apply_run_started :: "state \<Rightarrow> string \<Rightarrow> u64 \<Rightarrow> instant \<Rightarrow> state" where
  "apply_run_started s flow run_id started_at =
     (let entry = entry_or_default s flow; s = put_entry s flow entry
      in if (\<exists>r \<in> set (active_runs entry). rs_run_id r = run_id) then s
         else put_entry s flow (entry\<lparr>active_runs := active_runs entry @
                [\<lparr>rs_run_id = run_id, rs_started_at = started_at,
                  rs_conclusion = None, rs_completed_at = None\<rparr>]\<rparr>))"

definition apply_run_finished :: "state \<Rightarrow> string \<Rightarrow> u64 \<Rightarrow> string \<Rightarrow> instant \<Rightarrow> state" where
  "apply_run_finished s flow run_id conclusion completed_at =
     (case flows s flow of
        None \<Rightarrow> s
      | Some entry \<Rightarrow>
         (case position (\<lambda>r. rs_run_id r = run_id) (active_runs entry) of
            None \<Rightarrow> s
          | Some pos \<Rightarrow>
             (let run = (active_runs entry ! pos)
                    \<lparr>rs_conclusion := Some conclusion, rs_completed_at := Some completed_at\<rparr>;
                  active = remove_at pos (active_runs entry);
                  notified = keep_last NOTIFIED_RUNS_CAP (notified_runs entry @ [run])
              in put_entry s flow (entry\<lparr>active_runs := active, notified_runs := notified\<rparr>))))"

definition apply_flow_removed :: "state \<Rightarrow> string \<Rightarrow> state" where
  "apply_flow_removed s flow = s\<lparr>flows := (flows s)(flow := None)\<rparr>"

text \<open>\<open>State::apply\<close>\<close>

fun apply_update :: "('oid \<Rightarrow> string) \<Rightarrow> state \<Rightarrow> 'oid state_update \<Rightarrow> state" where
  "apply_update to_hex s (PollObservation flow sha poll_at dispatched_at cooldown) =
     apply_poll_observation to_hex s flow sha poll_at dispatched_at cooldown"
| "apply_update to_hex s (PollTimestamp flow poll_at) = apply_poll_timestamp s flow poll_at"
| "apply_update to_hex s (RunStarted flow run_id started_at) =
     apply_run_started s flow run_id started_at"
| "apply_update to_hex s (RunFinished flow run_id conclusion completed_at) =
     apply_run_finished s flow run_id conclusion completed_at"
| "apply_update to_hex s (FlowRemoved flow) = apply_flow_removed s flow"

fun update_flow :: "'oid state_update \<Rightarrow> string" where
  "update_flow (PollObservation flow _ _ _ _) = flow"
| "update_flow (PollTimestamp flow _) = flow"
| "update_flow (RunStarted flow _ _) = flow"
| "update_flow (RunFinished flow _ _ _) = flow"
| "update_flow (FlowRemoved flow) = flow"

lemmas apply_defs = apply_poll_observation_def apply_poll_timestamp_def apply_run_started_def
  apply_run_finished_def apply_flow_removed_def put_entry_def entry_or_default_def Let_def

section \<open>Well-formed states\<close>

text \<open>
  What every reachable state satisfies: a flow tracks each run at most once, an active run has
  no result yet, a notified run has one, and the history is capped.
\<close>

definition wf_flow :: "flow_state \<Rightarrow> bool" where
  "wf_flow e \<longleftrightarrow>
     distinct (map rs_run_id (active_runs e)) \<and>
     list_all (\<lambda>r. rs_conclusion r = None \<and> rs_completed_at r = None) (active_runs e) \<and>
     list_all (\<lambda>r. rs_conclusion r \<noteq> None \<and> rs_completed_at r \<noteq> None) (notified_runs e) \<and>
     length (notified_runs e) \<le> NOTIFIED_RUNS_CAP"

definition wf_state :: "state \<Rightarrow> bool" where
  "wf_state s \<longleftrightarrow> schema s = SCHEMA_VERSION \<and> (\<forall>e \<in> ran (flows s). wf_flow e)"

lemma wf_flowD:
  assumes "wf_state s" and "flows s f = Some e"
  shows "wf_flow e"
  using assms by (auto simp: wf_state_def ran_def)

lemma wf_default_flow [simp]: "wf_flow default_flow_state"
  by (simp add: wf_flow_def default_flow_state_def)

lemma wf_default_state [simp]: "wf_state default_state"
  by (simp add: wf_state_def default_state_def)

lemma wf_entry_or_default: "wf_state s \<Longrightarrow> wf_flow (entry_or_default s f)"
  by (auto simp: entry_or_default_def dest: wf_flowD split: option.split)

lemma wf_put_entry: "wf_state s \<Longrightarrow> wf_flow e \<Longrightarrow> wf_state (put_entry s f e)"
  by (auto simp: wf_state_def put_entry_def ran_def)

text \<open>Updates of fields other than the two run lists do not matter to \<open>wf_flow\<close>.\<close>

lemma wf_flow_poll_fields [simp]:
  "wf_flow (e\<lparr>last_sha := a\<rparr>) = wf_flow e"
  "wf_flow (e\<lparr>last_poll_at := b\<rparr>) = wf_flow e"
  "wf_flow (e\<lparr>last_dispatched_at := c\<rparr>) = wf_flow e"
  "wf_flow (e\<lparr>cooldown_until := d\<rparr>) = wf_flow e"
  by (simp_all add: wf_flow_def)

lemma wf_apply_poll_observation:
  "wf_state s \<Longrightarrow> wf_state (apply_poll_observation h s f sha p d c)"
  unfolding apply_poll_observation_def Let_def
  by (rule wf_put_entry) (simp_all add: wf_entry_or_default)

lemma wf_apply_poll_timestamp: "wf_state s \<Longrightarrow> wf_state (apply_poll_timestamp s f p)"
  unfolding apply_poll_timestamp_def by (rule wf_put_entry) (simp_all add: wf_entry_or_default)

lemma wf_apply_run_started:
  assumes "wf_state s"
  shows "wf_state (apply_run_started s f i t)"
proof -
  let ?e = "entry_or_default s f"
  have e: "wf_flow ?e" using assms by (rule wf_entry_or_default)
  then have "wf_state (put_entry s f ?e)" using assms by (simp add: wf_put_entry)
  with e show ?thesis
    by (auto simp: apply_run_started_def Let_def intro!: wf_put_entry)
       (auto simp: wf_flow_def)
qed

lemma wf_apply_run_finished:
  assumes "wf_state s"
  shows "wf_state (apply_run_finished s f i c t)"
proof (cases "flows s f")
  case None
  with assms show ?thesis by (simp add: apply_run_finished_def)
next
  case (Some e)
  with assms have e: "wf_flow e" by (rule wf_flowD)
  have "wf_flow (e\<lparr>active_runs := remove_at p (active_runs e),
      notified_runs := keep_last NOTIFIED_RUNS_CAP (notified_runs e @
        [r\<lparr>rs_conclusion := Some c, rs_completed_at := Some t\<rparr>])\<rparr>)" for p r
    using e set_keep_last [of NOTIFIED_RUNS_CAP]
    by (fastforce simp: wf_flow_def distinct_map_remove_at list_all_iff dest: subsetD [OF set_remove_at])
  with assms Some show ?thesis
    by (auto simp: apply_run_finished_def Let_def split: option.split intro: wf_put_entry)
qed

lemma wf_apply_flow_removed: "wf_state s \<Longrightarrow> wf_state (apply_flow_removed s f)"
  by (auto simp: wf_state_def apply_flow_removed_def ran_def split: if_splits)

interpretation state_inv: preserved_step "apply_update to_hex" wf_state for to_hex :: "'oid \<Rightarrow> string"
proof
  fix s :: state and u :: "'oid state_update"
  assume "wf_state s"
  then show "wf_state (apply_update to_hex s u)"
    by (cases u) (auto intro: wf_apply_poll_observation wf_apply_poll_timestamp
        wf_apply_run_started wf_apply_run_finished wf_apply_flow_removed)
qed

interpretation state_key: keyed_step "apply_update to_hex" update_flow flows for to_hex :: "'oid \<Rightarrow> string"
proof
  fix e :: "'oid state_update" and k and s :: state
  assume "update_flow e \<noteq> k"
  then show "flows (apply_update to_hex s e) k = flows s k"
    by (cases e) (auto simp: apply_defs split: option.split)
next
  fix e :: "'oid state_update" and s t :: state
  assume "flows s (update_flow e) = flows t (update_flow e)"
  then show "flows (apply_update to_hex s e) (update_flow e) = flows (apply_update to_hex t e) (update_flow e)"
    by (cases e) (auto simp: apply_defs split: option.split)
qed


section \<open>Abstract view: which runs are in flight\<close>

text \<open>
  What the other components need of the state is, per known flow, the set of run ids in
  flight. The specification below works on that set alone; the detailed state implements it.
\<close>

definition in_flight :: "state \<Rightarrow> string \<rightharpoonup> u64 set" where
  "in_flight s = (\<lambda>f. map_option (\<lambda>e. rs_run_id ` set (active_runs e)) (flows s f))"

fun in_flight_step :: "(string \<rightharpoonup> u64 set) \<Rightarrow> 'oid state_update \<Rightarrow> (string \<rightharpoonup> u64 set)" where
  "in_flight_step m (PollObservation f _ _ _ _) = m(f \<mapsto> case m f of None \<Rightarrow> {} | Some A \<Rightarrow> A)"
| "in_flight_step m (PollTimestamp f _) = m(f \<mapsto> case m f of None \<Rightarrow> {} | Some A \<Rightarrow> A)"
| "in_flight_step m (RunStarted f i _) = m(f \<mapsto> insert i (case m f of None \<Rightarrow> {} | Some A \<Rightarrow> A))"
| "in_flight_step m (RunFinished f i _ _) =
     (case m f of None \<Rightarrow> m | Some A \<Rightarrow> m(f \<mapsto> A - {i}))"
| "in_flight_step m (FlowRemoved f) = m(f := None)"

lemma remove_at_ids:
  assumes "wf_flow e" and "position (\<lambda>r. rs_run_id r = i) (active_runs e) = Some p"
  shows "rs_run_id ` set (remove_at p (active_runs e)) = rs_run_id ` set (active_runs e) - {i}"
  using assms remove_at_position_filter [of rs_run_id "active_runs e" i p]
  by (auto simp: wf_flow_def)

lemma in_flight_run_finished:
  assumes "wf_state s"
  shows "in_flight (apply_run_finished s f i c t) = in_flight_step (in_flight s) (RunFinished f i c t)"
proof (cases "flows s f")
  case None
  then show ?thesis by (simp add: apply_run_finished_def in_flight_def)
next
  case (Some e)
  with assms have e: "wf_flow e" by (rule wf_flowD)
  show ?thesis
  proof (cases "position (\<lambda>r. rs_run_id r = i) (active_runs e)")
    case None
    then have "rs_run_id ` set (active_runs e) - {i} = rs_run_id ` set (active_runs e)"
      by (auto simp: position_None_iff)
    with None Some show ?thesis
      by (auto simp: apply_run_finished_def in_flight_def fun_eq_iff)
  next
    case (Some p)
    with \<open>flows s f = Some e\<close> remove_at_ids [OF e Some] show ?thesis
      by (auto simp: apply_run_finished_def in_flight_def put_entry_def fun_eq_iff Let_def)
  qed
qed

lemma in_flight_apply:
  assumes "wf_state s"
  shows "in_flight (apply_update h s u) = in_flight_step (in_flight s) u"
proof (cases u)
  case (RunFinished f i c t)
  with in_flight_run_finished [OF assms] show ?thesis by simp
next
  case (PollObservation f sha p d c)
  then show ?thesis
    by (cases "flows s f") (auto simp: in_flight_def apply_defs default_flow_state_def fun_eq_iff)
next
  case (RunStarted f i t)
  then show ?thesis
    by (cases "flows s f") (auto simp: in_flight_def apply_defs default_flow_state_def fun_eq_iff)
qed (auto simp: in_flight_def apply_defs default_flow_state_def fun_eq_iff split: option.split)

section \<open>Properties\<close>

text \<open>
  C1. However the per-flow tasks interleave, every state the writer reaches from the fresh
  state is well-formed: each flow tracks a run id at most once, active runs carry no result,
  notified runs carry one, the notified history never exceeds its cap, and the schema
  version is the supported one.
\<close>

theorem state_always_wf: "wf_state (foldl (apply_update to_hex) default_state us)"
  by (rule state_inv.run_inv) simp

text \<open>
  Flows are isolated in the state: after any mixture of updates, the entry of a flow is
  the one obtained by applying the updates of that flow alone, in their order.
\<close>

theorem apply_isolates_flows:
  "flows (foldl (apply_update to_hex) s us) f =
   flows (foldl (apply_update to_hex) s (filter (\<lambda>u. update_flow u = f) us)) f"
  by (rule state_key.run_projection)

text \<open>
  C29. The state refines the abstract run tracker: after any sequence of updates the run ids
  in \<open>active_runs\<close> are, per flow, exactly those started and neither finished nor dropped with
  their flow. Duplicate starts and finishes for unknown runs change nothing.
\<close>

theorem state_refines_run_tracker:
  "in_flight (foldl (apply_update to_hex) default_state us) = foldl in_flight_step Map.empty us"
proof (induction us rule: rev_induct)
  case Nil
  show ?case by (simp add: in_flight_def default_state_def)
next
  case (snoc u us)
  have "wf_state (foldl (apply_update to_hex) default_state us)"
    by (rule state_inv.run_inv) simp
  with snoc show ?case by (simp add: in_flight_apply)
qed

text \<open>
  \<open>RunFinished\<close> for a tracked run moves exactly that run from \<open>active_runs\<close> to the end of
  \<open>notified_runs\<close> with its result, drops only the oldest notified runs beyond the cap, and
  touches no other field or flow.
\<close>

theorem run_finished_moves_run:
  assumes "wf_state s" and "flows s f = Some e" and "r \<in> set (active_runs e)"
  shows "apply_update to_hex s (RunFinished f (rs_run_id r) c t) =
    s\<lparr>flows := (flows s)(f \<mapsto> e
      \<lparr>active_runs := filter (\<lambda>x. rs_run_id x \<noteq> rs_run_id r) (active_runs e),
       notified_runs := keep_last NOTIFIED_RUNS_CAP (notified_runs e @
         [r\<lparr>rs_conclusion := Some c, rs_completed_at := Some t\<rparr>])\<rparr>)\<rparr>"
proof -
  from assms have d: "distinct (map rs_run_id (active_runs e))"
    by (auto simp: wf_flow_def dest: wf_flowD)
  obtain p where p: "position (\<lambda>x. rs_run_id x = rs_run_id r) (active_runs e) = Some p"
    using position_Some_ex [OF assms(3), of "\<lambda>x. rs_run_id x = rs_run_id r"] by auto
  have "active_runs e ! p = r"
    using position_SomeD [OF p] assms(3) d by (auto simp: in_set_conv_nth distinct_conv_nth) 
  then show ?thesis
    using assms(2) p remove_at_position_filter [OF d p]
    by (simp add: apply_run_finished_def put_entry_def Let_def)
qed

definition example_run :: run_state where
  "example_run = \<lparr>rs_run_id = 7, rs_started_at = 5, rs_conclusion = None, rs_completed_at = None\<rparr>"

definition example_state :: state where
  "example_state = \<lparr>schema = SCHEMA_VERSION,
     flows = [''ci'' \<mapsto> default_flow_state\<lparr>active_runs := [example_run]\<rparr>]\<rparr>"

lemma wf_example_state: "wf_state example_state"
  by (simp add: wf_state_def example_state_def wf_flow_def default_flow_state_def example_run_def)

theorem run_finished_moves_run_witness:
  "apply_update (\<lambda>x. x) example_state (RunFinished ''ci'' 7 ''success'' 9) =
   example_state\<lparr>flows := (flows example_state)(''ci'' \<mapsto> default_flow_state
     \<lparr>notified_runs := [example_run\<lparr>rs_conclusion := Some ''success'', rs_completed_at := Some 9\<rparr>]\<rparr>)\<rparr>"
  using run_finished_moves_run [OF wf_example_state, of "''ci''" _ example_run "\<lambda>x. x" "''success''" 9]
  by (simp add: example_state_def example_run_def keep_last_def NOTIFIED_RUNS_CAP_def default_flow_state_def)

text \<open>
  The cooldown clock of a flow is durable: as long as the flow is known, no update other
  than an observation that records a new dispatch of the same flow changes
  \<open>last_dispatched_at\<close>. Polls without a dispatch, run events and other flows leave it alone.
\<close>

theorem dispatch_clock_durable:
  assumes "flows s f = Some e" and "flows (apply_update to_hex s u) f = Some e'"
    and "\<nexists>sha p d c. u = PollObservation f sha p (Some d) c"
  shows "last_dispatched_at e' = last_dispatched_at e"
  using assms
  by (cases u) (auto simp: apply_defs split: option.splits if_splits)

theorem dispatch_clock_durable_witness:
  "last_dispatched_at (the (flows (apply_update (\<lambda>x. x) example_state
     (PollObservation ''ci'' ''ab'' 6 None None)) ''ci'')) = None"
  using dispatch_clock_durable [of example_state "''ci''" _ "\<lambda>x. x" "PollObservation ''ci'' ''ab'' 6 None None"]
  by (simp add: example_state_def apply_defs default_flow_state_def)

end
