(* ===== verification/Run_Monitor.thy ===== *)
theory Run_Monitor
  imports Correlator State_Apply
begin

text \<open>
  Watching one run until it ends: the polling side (\<open>src/src/github/monitor.rs\<close>), which reads the
  run and its jobs and emits events, and the flow side (\<open>src/src/flow/monitor.rs\<close>), which turns the
  events into notifications and the final state update. The two are connected by a FIFO channel.
  An iteration's environment says what the network answered, whether a wait was cancelled and
  whether the receiver still listens.
\<close>

section \<open>Polling side\<close>

definition MAX_JOBS_PER_RUN :: nat where [model_defs]: "MAX_JOBS_PER_RUN = 1000"
definition MAX_JOBS_PAGES :: nat where [model_defs]: "MAX_JOBS_PAGES = 10"

record gh_monitor_params =
  gm_repo :: string
  gm_workflow :: string
  gm_run_id :: u64

datatype monitor_event = Update run_summary | Done run_summary
datatype monitor_outcome = Terminated | ReceiverDropped | DrainedMidRun | MonitorFailed github_error

definition empty_run_summary :: "u64 \<Rightarrow> run_summary" where
  "empty_run_summary i = \<lparr>run_id = i, run_url = [], run_number = 0, run_attempt = 1, run_status = Queued,
     run_conclusion = None, run_started_at = None, run_completed_at = None, run_jobs = []\<rparr>"

definition uri_or_unknown :: "('octo, 'uri) scan_world \<Rightarrow> string \<Rightarrow> github_error + 'uri" where
  "uri_or_unknown w path =
     (case sw_parse_uri w path of Inl e \<Rightarrow> Inl (Unknown (''monitor URI invalid: '' @ e)) | Inr uri \<Rightarrow> Inr uri)"

definition push_job :: "job_result list \<Rightarrow> api_job \<Rightarrow> job_result list \<times> bool" where
  "push_job out j = (let out = out @ [job_to_result j] in (out, length out \<ge> MAX_JOBS_PER_RUN))"

definition run_path :: "string \<Rightarrow> string \<Rightarrow> u64 \<Rightarrow> string" where
  "run_path owner repo i = ''/repos/'' @ owner @ ''/'' @ repo @ ''/actions/runs/'' @ show_nat (unat i)"

definition list_all_jobs ::
  "('octo, 'uri) scan_world \<Rightarrow> gh_monitor_params \<Rightarrow> ('uri, ('uri, api_job) page) read_net \<Rightarrow> snapshot
     \<Rightarrow> snapshot \<times> (github_error + job_result list)"
where
  "list_all_jobs w params net quota =
     (case split_repo (gm_repo params) of
        Inl e \<Rightarrow> (quota, Inl e)
      | Inr (owner, repo) \<Rightarrow>
         (case uri_or_unknown w (run_path owner repo (gm_run_id params) @ ''/jobs?filter=latest&per_page=100'') of
            Inl e \<Rightarrow> (quota, Inl e)
          | Inr uri \<Rightarrow>
             (let get = net_get (sw_timestamp_opt w) (sw_client w) (gm_repo params) (gm_workflow params) net
              in case get uri (0, quota) of
                   (s, Inl e) \<Rightarrow> (snd s, Inl e)
                 | (s, Inr first_page) \<Rightarrow>
                    (case page_walk push_job MAX_JOBS_PAGES get 0 [] first_page s of
                       (s, r) \<Rightarrow> (snd s, r)))))"

record 'uri monitor_env =
  mv_gate_now :: instant
  mv_wait_cancelled :: bool
  mv_run_net :: "('uri, api_run) read_net"
  mv_jobs_net :: "('uri, ('uri, api_job) page) read_net"
  mv_receiver_open :: bool
  mv_tick_cancelled :: bool

definition max_attempt :: "job_result list \<Rightarrow> u32 \<Rightarrow> u32" where
  "max_attempt jobs attempt = (if jobs = [] then attempt else Max (set (map job_run_attempt jobs)))"

definition monitor_poll_one ::
  "('octo, 'uri) scan_world \<Rightarrow> gh_monitor_params \<Rightarrow> 'uri monitor_env \<Rightarrow> snapshot \<Rightarrow> snapshot \<times> (github_error + run_summary)"
where
  "monitor_poll_one w params env quota =
     (case split_repo (gm_repo params) of
        Inl e \<Rightarrow> (quota, Inl e)
      | Inr (owner, repo) \<Rightarrow>
         (case uri_or_unknown w (run_path owner repo (gm_run_id params)) of
            Inl e \<Rightarrow> (quota, Inl e)
          | Inr uri \<Rightarrow>
             (case net_get (sw_timestamp_opt w) (sw_client w) (gm_repo params) (gm_workflow params) (mv_run_net env) uri (0, quota) of
                (s, Inl e) \<Rightarrow> (snd s, Inl e)
              | (s, Inr run) \<Rightarrow>
                 (case list_all_jobs w params (mv_jobs_net env) (snd s) of
                    (quota, Inl e) \<Rightarrow> (quota, Inl e)
                  | (quota, Inr jobs) \<Rightarrow>
                     (let summary = run_to_summary run;
                          summary = summary\<lparr>run_attempt := max_attempt jobs (run_attempt summary)\<rparr>
                      in (quota, Inr (summary\<lparr>run_jobs := jobs\<rparr>)))))))"

text \<open>The events sent, and how the loop ended; \<open>None\<close>: it is still watching.\<close>

fun monitor_run ::
  "('octo, 'uri) scan_world \<Rightarrow> gh_monitor_params \<Rightarrow> snapshot \<Rightarrow> 'uri monitor_env list
     \<Rightarrow> monitor_event list \<times> monitor_outcome option \<times> snapshot"
where
  "monitor_run w params quota [] = ([], None, quota)"
| "monitor_run w params quota (env # envs) =
     (if should_defer (mv_gate_now env) quota \<noteq> None \<and> mv_wait_cancelled env then ([], Some DrainedMidRun, quota)
      else case monitor_poll_one w params env quota of
             (quota, Inr summary) \<Rightarrow>
               (let terminal = is_terminal (run_status summary);
                    event = (if terminal then Done summary else Update summary)
                in if \<not> mv_receiver_open env then ([], Some ReceiverDropped, quota)
                   else if terminal then ([event], Some Terminated, quota)
                   else if mv_tick_cancelled env then ([event], Some DrainedMidRun, quota)
                   else case monitor_run w params quota envs of (evs, r) \<Rightarrow> (event # evs, r))
           | (quota, Inl e) \<Rightarrow>
               if \<not> is_transient e then ([], Some (MonitorFailed e), quota)
               else if mv_tick_cancelled env then ([], Some DrainedMidRun, quota)
               else monitor_run w params quota envs)"

section \<open>Flow side\<close>

text \<open>
  Notifications are recorded per notifier, in the order in which their tasks are spawned; each
  fan-out is awaited before the next step. The one state update sent carries no object id.
\<close>

datatype 'n monitor_effect =
    NotifyJob 'n job_result
  | NotifyComplete 'n run_summary
  | MonitorSend "string state_update"

record 'n monitor_params =
  mp_flow_name :: string
  mp_run_id :: u64
  mp_notifiers :: "'n list"

definition spawn_fan_out :: "'n list \<Rightarrow> ('n \<Rightarrow> 'e) \<Rightarrow> 'e list" where
  "spawn_fan_out notifiers f = map f notifiers"

definition fan_out_job_completes ::
  "'n list \<Rightarrow> run_summary \<Rightarrow> u64 set \<Rightarrow> 'n monitor_effect list \<times> u64 set" where
  "fan_out_job_completes notifiers summary completed_jobs =
     (let newly_terminal = filter (\<lambda>j. job_conclusion j \<noteq> None \<and> job_id j \<notin> completed_jobs) (run_jobs summary)
      in if newly_terminal = [] then ([], completed_jobs)
         else (concat (map (\<lambda>job. spawn_fan_out notifiers (\<lambda>n. NotifyJob n job)) newly_terminal),
               completed_jobs \<union> set (map job_id newly_terminal)))"

definition conclusion_str :: "run_summary \<Rightarrow> string" where
  "conclusion_str summary = (case run_conclusion summary of Some c \<Rightarrow> conclusion_to_api c | None \<Rightarrow> ''unknown'')"

text \<open>\<open>now\<close> is the clock for a summary without a completion time; \<open>state_open\<close>: the writer listens.\<close>

fun run_monitor_with_source ::
  "'n monitor_params \<Rightarrow> instant \<Rightarrow> bool \<Rightarrow> u64 set \<Rightarrow> monitor_event list \<Rightarrow> 'n monitor_effect list"
where
  "run_monitor_with_source params now state_open completed_jobs [] = []"
| "run_monitor_with_source params now state_open completed_jobs (Update summary # events) =
     (case fan_out_job_completes (mp_notifiers params) summary completed_jobs of
        (effects, completed_jobs) \<Rightarrow> effects @ run_monitor_with_source params now state_open completed_jobs events)"
| "run_monitor_with_source params now state_open completed_jobs (Done summary # events) =
     (case fan_out_job_completes (mp_notifiers params) summary completed_jobs of
        (effects, completed_jobs) \<Rightarrow>
          effects @ spawn_fan_out (mp_notifiers params) (\<lambda>n. NotifyComplete n summary) @
          (if state_open
           then [MonitorSend (RunFinished (mp_flow_name params) (mp_run_id params) (conclusion_str summary)
                   (case run_completed_at summary of Some t \<Rightarrow> t | None \<Rightarrow> now))]
           else []))"

definition run_monitor ::
  "('octo, 'uri) scan_world \<Rightarrow> string \<Rightarrow> string \<Rightarrow> 'n monitor_params \<Rightarrow> instant \<Rightarrow> bool \<Rightarrow> snapshot \<Rightarrow> 'uri monitor_env list
     \<Rightarrow> 'n monitor_effect list \<times> monitor_outcome option"
where
  "run_monitor w repo workflow params now state_open quota envs =
     (case monitor_run w \<lparr>gm_repo = repo, gm_workflow = workflow, gm_run_id = mp_run_id params\<rparr> quota envs of
        (events, outcome, _) \<Rightarrow> (run_monitor_with_source params now state_open {} events, outcome))"

section \<open>Lemmas\<close>

text \<open>The job listing is capped wherever it stops.\<close>

interpretation job_scan: item_step push_job "\<lambda>out. length out < MAX_JOBS_PER_RUN" "\<lambda>out. length out \<le> MAX_JOBS_PER_RUN"
  by unfold_locales (auto simp: push_job_def Let_def)

lemma list_all_jobs_capped:
  assumes "list_all_jobs w params net quota = (quota', Inr jobs)"
  shows "length jobs \<le> MAX_JOBS_PER_RUN"
  using assms
  by (auto simp: list_all_jobs_def Let_def MAX_JOBS_PER_RUN_def split: sum.splits prod.splits
      dest!: job_scan.page_walk_fine [rotated])

text \<open>The polling side: updates, and \<open>Done\<close> as the last event exactly when it terminated.\<close>

definition events_shape :: "monitor_event list \<Rightarrow> monitor_outcome option \<Rightarrow> bool" where
  "events_shape evs out \<longleftrightarrow> (if out = Some Terminated
     then \<exists>us s. evs = map Update us @ [Done s] \<and> is_terminal (run_status s) else \<exists>us. evs = map Update us)"

lemma events_shape_Nil: "out \<noteq> Some Terminated \<Longrightarrow> events_shape [] out"
  by (simp add: events_shape_def)

lemma events_shape_Update: "events_shape evs out \<Longrightarrow> events_shape (Update s # evs) out"
  unfolding events_shape_def by (metis (no_types, opaque_lifting) append_Cons list.simps(9))

lemma monitor_run_events: "monitor_run w params quota envs = (evs, out, quota') \<Longrightarrow> events_shape evs out"
proof (induction envs arbitrary: quota evs out quota')
  case Nil
  then show ?case by (simp add: events_shape_Nil)
next
  case (Cons env envs)
  obtain q r where p: "monitor_poll_one w params env quota = (q, r)" by force
  obtain evs' out' q' where rest: "monitor_run w params q envs = (evs', out', q')" by (metis prod_cases3)
  have ih: "events_shape evs' out'" using Cons.IH [OF rest] .
  have one: "events_shape [Update s] (Some DrainedMidRun)" "is_terminal (run_status s) \<Longrightarrow> events_shape [Done s] (Some Terminated)" for s
    using events_shape_Update [OF events_shape_Nil [of "Some DrainedMidRun"]]
    by (auto simp: events_shape_def)
  from Cons.prems p rest ih one show ?case
    by (auto simp: Let_def intro: events_shape_Nil events_shape_Update split: if_splits sum.splits)
qed

text \<open>The flow side over a sequence of updates.\<close>

fun job_effects :: "'n list \<Rightarrow> u64 set \<Rightarrow> run_summary list \<Rightarrow> 'n monitor_effect list \<times> u64 set" where
  "job_effects ns C [] = ([], C)"
| "job_effects ns C (s # ss) =
     (case fan_out_job_completes ns s C of (es, C) \<Rightarrow> (case job_effects ns C ss of (es', C) \<Rightarrow> (es @ es', C)))"

lemma run_monitor_updates:
  "run_monitor_with_source params now so C (map Update us @ evs) =
     fst (job_effects (mp_notifiers params) C us) @
     run_monitor_with_source params now so (snd (job_effects (mp_notifiers params) C us)) evs"
  by (induction us arbitrary: C) (simp_all add: case_prod_unfold)

lemma job_effects_snoc:
  "fst (job_effects ns C (ss @ [s])) =
     fst (job_effects ns C ss) @ fst (fan_out_job_completes ns s (snd (job_effects ns C ss)))"
  by (induction ss arbitrary: C) (simp_all add: case_prod_unfold)

fun is_job_note :: "'n monitor_effect \<Rightarrow> bool" where
  "is_job_note (NotifyJob _ _) = True"
| "is_job_note _ = False"

fun is_note_of :: "'n \<Rightarrow> u64 \<Rightarrow> 'n monitor_effect \<Rightarrow> bool" where
  "is_note_of n i (NotifyJob m job) = (m = n \<and> job_id job = i)"
| "is_note_of n i _ = False"

definition note_count :: "'n \<Rightarrow> u64 \<Rightarrow> 'n monitor_effect list \<Rightarrow> nat" where
  "note_count n i log = length (filter (is_note_of n i) log)"

lemma note_count_append [simp]: "note_count n i (a @ b) = note_count n i a + note_count n i b"
  by (simp add: note_count_def)

lemma fan_out_only_notes: "e \<in> set (fst (fan_out_job_completes ns s C)) \<Longrightarrow> is_job_note e"
  by (auto simp: fan_out_job_completes_def spawn_fan_out_def Let_def split: if_splits)

lemma job_effects_only_notes: "e \<in> set (fst (job_effects ns C ss)) \<Longrightarrow> is_job_note e"
  by (induction ss arbitrary: C) (auto simp: case_prod_unfold dest: fan_out_only_notes)

definition concluded :: "u64 \<Rightarrow> run_summary \<Rightarrow> bool" where
  "concluded i s \<longleftrightarrow> (\<exists>job \<in> set (run_jobs s). job_id job = i \<and> job_conclusion job \<noteq> None)"

lemma note_count_single:
  "distinct ns \<Longrightarrow> n \<in> set ns \<Longrightarrow> note_count n i (map (\<lambda>n. NotifyJob n job) ns) = (if job_id job = i then 1 else 0)"
proof (induction ns)
  case (Cons a ns)
  have "note_count n i (map (\<lambda>n. NotifyJob n job) ms) = 0" if "n \<notin> set ms" for ms
    using that by (auto simp: note_count_def filter_empty_conv)
  moreover have "note_count n i (map (\<lambda>n. NotifyJob n job) (a # ns)) =
      (if a = n \<and> job_id job = i then 1 else 0) + note_count n i (map (\<lambda>n. NotifyJob n job) ns)"
    by (simp add: note_count_def)
  ultimately show ?case using Cons by auto
qed simp

lemma note_count_jobs:
  assumes "distinct ns" and "n \<in> set ns" and "distinct (map job_id jobs)"
  shows "note_count n i (concat (map (\<lambda>job. map (\<lambda>n. NotifyJob n job) ns) jobs)) = (if i \<in> job_id ` set jobs then 1 else 0)"
  using assms(3)
proof (induction jobs)
  case Nil
  then show ?case by (simp add: note_count_def)
next
  case (Cons j jobs)
  then show ?case using note_count_single [OF assms(1,2), of i j] by auto
qed

lemma fan_out_counts:
  assumes "distinct ns" and "n \<in> set ns" and "distinct (map job_id (run_jobs s))"
    and "fan_out_job_completes ns s C = (es, C')"
  shows "note_count n i es = (if i \<notin> C \<and> concluded i s then 1 else 0) \<and> (i \<in> C' \<longleftrightarrow> i \<in> C \<or> concluded i s)"
proof -
  let ?new = "filter (\<lambda>j. job_conclusion j \<noteq> None \<and> job_id j \<notin> C) (run_jobs s)"
  have d: "distinct (map job_id ?new)" using assms(3) by (simp add: distinct_map_filter)
  have new: "i \<in> job_id ` set ?new \<longleftrightarrow> i \<notin> C \<and> concluded i s" by (auto simp: concluded_def)
  have "C' = C \<union> job_id ` set ?new" and es: "es = concat (map (\<lambda>job. map (\<lambda>n. NotifyJob n job) ns) ?new)"
    using assms(4) by (cases "?new = []"; simp add: fan_out_job_completes_def spawn_fan_out_def Let_def)+
  then have C': "i \<in> C' \<longleftrightarrow> i \<in> C \<or> i \<in> job_id ` set ?new" by auto
  show ?thesis
    unfolding es C' note_count_jobs [OF assms(1,2) d] new by auto
qed

lemma job_effects_counts:
  assumes "distinct ns" and "n \<in> set ns" and "\<forall>s \<in> set ss. distinct (map job_id (run_jobs s))"
  shows "note_count n i (fst (job_effects ns C ss)) = (if i \<notin> C \<and> (\<exists>s \<in> set ss. concluded i s) then 1 else 0)"
  using assms(3)
proof (induction ss arbitrary: C)
  case Nil
  then show ?case by (simp add: note_count_def)
next
  case (Cons s ss)
  obtain es C' where f: "fan_out_job_completes ns s C = (es, C')" by force
  obtain es' C'' where r: "job_effects ns C' ss = (es', C'')" by force
  have "note_count n i es' = (if i \<notin> C' \<and> (\<exists>s \<in> set ss. concluded i s) then 1 else 0)"
    using Cons.IH [of C'] Cons.prems r by simp
  with fan_out_counts [OF assms(1,2) _ f, of i] Cons.prems f r show ?case by auto
qed

fun event_summary :: "monitor_event \<Rightarrow> run_summary" where
  "event_summary (Update s) = s"
| "event_summary (Done s) = s"

lemma note_count_complete: "note_count n i (map (\<lambda>n. NotifyComplete n s) ns @ (if so then [MonitorSend u] else [])) = 0"
  by (auto simp: note_count_def filter_empty_conv)

text \<open>What the flow side does with the events of the polling side.\<close>

lemma flow_side_effects:
  assumes "events_shape evs out"
  shows "run_monitor_with_source params now so C evs =
    fst (job_effects (mp_notifiers params) C (map event_summary evs)) @
    (if out = Some Terminated
     then map (\<lambda>n. NotifyComplete n (event_summary (last evs))) (mp_notifiers params) @
       (if so then [MonitorSend (RunFinished (mp_flow_name params) (mp_run_id params) (conclusion_str (event_summary (last evs)))
          (case run_completed_at (event_summary (last evs)) of Some t \<Rightarrow> t | None \<Rightarrow> now))] else [])
     else [])"
proof (cases "out = Some Terminated")
  case True
  with assms obtain us s where "evs = map Update us @ [Done s]" by (auto simp: events_shape_def)
  with True show ?thesis
    by (simp add: run_monitor_updates comp_def job_effects_snoc spawn_fan_out_def case_prod_unfold)
next
  case False
  with assms obtain us where "evs = map Update us" by (auto simp: events_shape_def)
  with False run_monitor_updates [of params now so C us "[]"] show ?thesis by (simp add: comp_def)
qed

section \<open>Properties\<close>

definition example_monitor :: "string monitor_params" where
  "example_monitor = \<lparr>mp_flow_name = ''ci'', mp_run_id = 8, mp_notifiers = [''mail'', ''discord'']\<rparr>"

definition example_api_job :: "u64 \<Rightarrow> api_conclusion option \<Rightarrow> api_job" where
  "example_api_job i c = \<lparr>aj_id = i, aj_name = [], aj_html_url = [], aj_conclusion = c, aj_started_at = 0,
     aj_completed_at = None, aj_steps = [], aj_run_attempt = 1\<rparr>"

definition example_monitor_env :: "string \<Rightarrow> api_job list \<Rightarrow> string monitor_env" where
  "example_monitor_env status jobs = \<lparr>mv_gate_now = 0, mv_wait_cancelled = False,
     mv_run_net = (\<lambda>_ _. (0, GetResponse Map.empty 10 (Inr ((example_api_run 8 ''gcit-u1'' 2)
        \<lparr>ar_status := status, ar_conclusion := Some ''success''\<rparr>)))),
     mv_jobs_net = (\<lambda>_ _. (0, GetResponse Map.empty 10 (Inr \<lparr>pg_items = jobs, pg_next = None\<rparr>))),
     mv_receiver_open = True, mv_tick_cancelled = False\<rparr>"

abbreviation example_watch :: "monitor_event list \<times> monitor_outcome option \<times> snapshot" where
  "example_watch \<equiv> monitor_run example_world \<lparr>gm_repo = ''o/r'', gm_workflow = ''ci.yml'', gm_run_id = 8\<rparr> rate_limit_new
     [example_monitor_env ''in_progress'' [example_api_job 1 (Some ApiSuccess), example_api_job 2 None],
      example_monitor_env ''completed'' [example_api_job 1 (Some ApiSuccess), example_api_job 2 (Some ApiFailure)]]"

definition example_summary :: "run_status \<Rightarrow> api_job list \<Rightarrow> run_summary" where
  "example_summary status jobs = \<lparr>run_id = 8, run_url = [], run_number = 1, run_attempt = 1, run_status = status,
     run_conclusion = Some Success, run_started_at = Some 2, run_completed_at = Some 2, run_jobs = map job_to_result jobs\<rparr>"

definition example_events :: "monitor_event list" where
  "example_events =
     [Update (example_summary InProgress [example_api_job 1 (Some ApiSuccess), example_api_job 2 None]),
      Done (example_summary Completed [example_api_job 1 (Some ApiSuccess), example_api_job 2 (Some ApiFailure)])]"

lemma example_watch_eq: "example_watch = (example_events, Some Terminated, rate_limit_new)"
  by (simp add: example_events_def example_monitor_env_def monitor_poll_one_def list_all_jobs_def uri_or_unknown_def run_path_def split_repo_def
      example_world_def example_client_def net_get_def classified_get_def parse_content_length_def parse_u64_header_def
      parse_reset_header_def observe_headers_def RESPONSE_BODY_LIMIT_def MAX_JOBS_PAGES_def MAX_JOBS_PER_RUN_def
      page_walk.simps push_job_def max_attempt_def run_to_summary_def example_api_run_def example_summary_def
      example_api_job_def run_status_from_api_def conclusion_from_api_def is_terminal_def u64_or_zero_def
      job_to_result_def Let_def)

text \<open>
  The end of a run is reported exactly when it was seen: if the watch ends because the
  run reached a terminal status, every notifier gets the run's completion after all of its job
  notifications, and then one \<open>RunFinished\<close> with the run's conclusion goes to the state writer;
  if it ends in any other way, or goes on, nothing but job notifications has been sent, and the run
  stays among the active runs.
\<close>

theorem run_finished_iff_terminated:
  assumes "run_monitor w repo workflow params now True quota envs = (log, outcome)"
  shows "if outcome = Some Terminated
    then \<exists>jobs s t. log = jobs @ map (\<lambda>n. NotifyComplete n s) (mp_notifiers params) @
        [MonitorSend (RunFinished (mp_flow_name params) (mp_run_id params) (conclusion_str s) t)]
      \<and> list_all is_job_note jobs \<and> is_terminal (run_status s)
    else list_all is_job_note log"
proof -
  obtain evs quota' where evs: "monitor_run w \<lparr>gm_repo = repo, gm_workflow = workflow, gm_run_id = mp_run_id params\<rparr> quota envs
      = (evs, outcome, quota')" and log: "log = run_monitor_with_source params now True {} evs"
    using assms by (auto simp: run_monitor_def split: prod.splits)
  have shape: "events_shape evs outcome" using monitor_run_events [OF evs] .
  have jobs: "list_all is_job_note (fst (job_effects (mp_notifiers params) {} (map event_summary evs)))"
    by (auto simp: list_all_iff dest: job_effects_only_notes)
  have "is_terminal (run_status (event_summary (last evs)))" if "outcome = Some Terminated"
    using shape that by (auto simp: events_shape_def)
  with jobs show ?thesis
    unfolding log flow_side_effects [OF shape] by (cases "outcome = Some Terminated") (simp, blast, simp)
qed

theorem run_finished_iff_terminated_witness:
  "\<exists>jobs s t. fst (run_monitor example_world ''o/r'' ''ci.yml'' example_monitor 5 True rate_limit_new
      [example_monitor_env ''in_progress'' [example_api_job 1 (Some ApiSuccess), example_api_job 2 None],
       example_monitor_env ''completed'' [example_api_job 1 (Some ApiSuccess), example_api_job 2 (Some ApiFailure)]]) =
     jobs @ map (\<lambda>n. NotifyComplete n s) [''mail'', ''discord''] @
       [MonitorSend (RunFinished ''ci'' 8 (conclusion_str s) t)]
     \<and> list_all is_job_note jobs \<and> is_terminal (run_status s)"
proof -
  let ?envs = "[example_monitor_env ''in_progress'' [example_api_job 1 (Some ApiSuccess), example_api_job 2 None],
       example_monitor_env ''completed'' [example_api_job 1 (Some ApiSuccess), example_api_job 2 (Some ApiFailure)]]"
  have "run_monitor example_world ''o/r'' ''ci.yml'' example_monitor 5 True rate_limit_new ?envs =
      (fst (run_monitor example_world ''o/r'' ''ci.yml'' example_monitor 5 True rate_limit_new ?envs), Some Terminated)"
    using example_watch_eq by (simp add: run_monitor_def example_monitor_def del: monitor_run.simps)
  from run_finished_iff_terminated [OF this] show ?thesis by (simp add: example_monitor_def)
qed

text \<open>
  C31. Every job completion is notified exactly once: for each notifier and each job id, over
  the whole watch, there is one notification if some poll saw the job with a conclusion and none
  otherwise, provided no single poll lists a job id twice.
\<close>

theorem job_completion_notified_once:
  assumes "monitor_run w gm quota envs = (events, outcome, quota')"
    and "\<forall>e \<in> set events. distinct (map job_id (run_jobs (event_summary e)))"
    and "distinct (mp_notifiers params)" and "n \<in> set (mp_notifiers params)"
  shows "note_count n i (run_monitor_with_source params now state_open {} events) =
    (if \<exists>e \<in> set events. concluded i (event_summary e) then 1 else 0)"
proof -
  have "\<forall>s \<in> set (map event_summary events). distinct (map job_id (run_jobs s))" using assms(2) by simp
  from job_effects_counts [OF assms(3,4) this, of i "{}"] show ?thesis
    unfolding flow_side_effects [OF monitor_run_events [OF assms(1)]] note_count_append
    using note_count_complete by (auto simp: note_count_def)
qed

theorem job_completion_notified_once_witness:
  "note_count ''mail'' 1 (run_monitor_with_source example_monitor 5 True {} example_events) = 1"
  using job_completion_notified_once [OF example_watch_eq, of example_monitor "''mail''" 1 5 True]
  by (auto simp: example_monitor_def example_events_def example_summary_def example_api_job_def job_to_result_def concluded_def
      simp del: run_monitor_with_source.simps)

end
