(* ===== verification/Supervisor_Types.thy ===== *)
theory Supervisor_Types
  imports Prelude
begin

text \<open>
  What the supervisor shares with the per-flow tasks (\<open>src/src/flow/supervisor/types.rs\<close>): the
  last error of each flow, shown by the control surface. Every producer writes it through
  \<open>record_last_error\<close>; the map is behind a mutex and each access is one atomic step.
\<close>

record flow_last_error =
  fle_at :: instant
  fle_kind :: string
  fle_message :: string
  fle_retry_at :: "instant option"

type_synonym last_errors = "string \<rightharpoonup> flow_last_error"

definition record_last_error ::
  "last_errors \<Rightarrow> string \<Rightarrow> instant \<Rightarrow> string \<Rightarrow> string \<Rightarrow> instant option \<Rightarrow> last_errors" where
  "record_last_error m flow now kind message retry_at =
     m(flow \<mapsto> \<lparr>fle_at = now, fle_kind = kind, fle_message = message, fle_retry_at = retry_at\<rparr>)"

lemma record_last_error_other [simp]:
  "f \<noteq> flow \<Longrightarrow> record_last_error m flow now kind message retry_at f = m f"
  by (simp add: record_last_error_def)

lemma record_last_error_same [simp]:
  "record_last_error m flow now kind message retry_at flow =
     Some \<lparr>fle_at = now, fle_kind = kind, fle_message = message, fle_retry_at = retry_at\<rparr>"
  by (simp add: record_last_error_def)

end
