(* ===== verification/Flow_Dispatcher.thy ===== *)
theory Flow_Dispatcher
  imports Run_Monitor Supervisor_Types
begin

text \<open>
  The per-flow dispatcher (\<open>src/src/flow/dispatcher\<close>): handling of one trigger from the rendered
  inputs to the spawned monitor (\<open>handle.rs\<close>), the production executor and the error record
  (\<open>executor.rs\<close>), and the loop with its cancellation drain (\<open>loop_.rs\<close>). The executor is a
  parameter, as in the code; template rendering, the retry driver around \<open>dispatch\<close> and the derived
  \<open>Display\<close> of errors are parameters.
\<close>

section \<open>Executor\<close>

datatype execute_outcome =
    ExecuteSuccess dispatch_outcome correlation_outcome
  | DispatchFailed github_error
  | CorrelateFailed correlation_error

type_synonym dispatch_executor = "dispatch_params \<Rightarrow> string \<Rightarrow> string \<Rightarrow> execute_outcome"

text \<open>\<open>RealDispatchExecutor::execute\<close> over what the retried dispatch and the correlation return.\<close>

definition execute ::
  "(dispatch_params \<Rightarrow> github_error + dispatch_outcome) \<Rightarrow> (correlate_params \<Rightarrow> correlation_error + correlation_outcome)
     \<Rightarrow> dispatch_executor"
where
  "execute dispatch_with_retry corr params branch head_sha =
     (case dispatch_with_retry params of
        Inl e \<Rightarrow> DispatchFailed e
      | Inr outcome \<Rightarrow>
         (case corr \<lparr>cp_repo = do_repo outcome, cp_workflow = do_workflow outcome, cp_gcit_run_id = do_gcit_run_id outcome,
                  cp_branch = branch, cp_head_sha = head_sha, cp_dispatched_at = do_dispatched_at outcome,
                  cp_run_name_configured = None\<rparr> of
            Inl e \<Rightarrow> CorrelateFailed e
          | Inr c \<Rightarrow> ExecuteSuccess outcome c))"

record dispatch_error =
  err_kind :: string
  err_message :: string
  err_retry_at :: "instant option"

definition from_github_error :: "(github_error \<Rightarrow> string) \<Rightarrow> string \<Rightarrow> github_error \<Rightarrow> dispatch_error" where
  "from_github_error display stage e =
     \<lparr>err_kind = stage, err_message = stage @ '': '' @ display e,
      err_retry_at = (case e of RateLimited _ reset \<Rightarrow> Some reset | _ \<Rightarrow> None)\<rparr>"

definition from_correlation_error :: "(correlation_error \<Rightarrow> string) \<Rightarrow> string \<Rightarrow> correlation_error \<Rightarrow> dispatch_error" where
  "from_correlation_error display stage e =
     \<lparr>err_kind = stage, err_message = stage @ '': '' @ display e,
      err_retry_at = (case e of CorrelationGithub (RateLimited _ reset) \<Rightarrow> Some reset | _ \<Rightarrow> None)\<rparr>"

definition from_message :: "string \<Rightarrow> string \<Rightarrow> dispatch_error" where
  "from_message kind message = \<lparr>err_kind = kind, err_message = message, err_retry_at = None\<rparr>"

section \<open>Handling one trigger\<close>

record action_fields =
  af_repo :: string
  af_workflow :: string
  af_ref_name :: string
  af_inputs :: "(string \<times> string) list"

datatype action_config = GithubWorkflowDispatch string string string "(string \<times> string) list" string

fun extract_action_fields :: "action_config \<Rightarrow> action_fields" where
  "extract_action_fields (GithubWorkflowDispatch repo workflow ref_name inputs _) =
     \<lparr>af_repo = repo, af_workflow = workflow, af_ref_name = ref_name, af_inputs = inputs\<rparr>"

record flow_dispatch_params =
  fd_flow_name :: string
  fd_flow_description :: "string option"
  fd_url :: string
  fd_ref_name :: string
  fd_action :: action_config
  fd_job_interval :: duration

record 'oid trigger_signal =
  ts_observed_sha :: 'oid
  ts_observed_at :: instant

record 'oid run_context =
  rc_flow_name :: string
  rc_flow_description :: "string option"
  rc_url :: string
  rc_ref_name :: string
  rc_sha :: 'oid
  rc_sha_short :: string
  rc_repo :: string
  rc_workflow :: string
  rc_run_id :: u64
  rc_run_url :: string
  rc_dispatched_at :: instant
  rc_gcit_run_id :: string

text \<open>An object id renders as ASCII, so its characters are its bytes.\<close>

definition short_sha :: "('oid \<Rightarrow> string) \<Rightarrow> 'oid \<Rightarrow> string" where
  "short_sha to_hex sha = (let s = to_hex sha; n = min (length s) 12 in take n s)"

definition build_run_context ::
  "('oid \<Rightarrow> string) \<Rightarrow> flow_dispatch_params \<Rightarrow> 'oid trigger_signal \<Rightarrow> string \<Rightarrow> string \<Rightarrow> string \<Rightarrow> instant \<Rightarrow> u64 \<Rightarrow> string
     \<Rightarrow> 'oid run_context"
where
  "build_run_context to_hex params trigger repo workflow gcit_run_id dispatched_at run url =
     \<lparr>rc_flow_name = fd_flow_name params, rc_flow_description = fd_flow_description params,
      rc_url = fd_url params, rc_ref_name = fd_ref_name params, rc_sha = ts_observed_sha trigger,
      rc_sha_short = short_sha to_hex (ts_observed_sha trigger), rc_repo = repo, rc_workflow = workflow,
      rc_run_id = run, rc_run_url = url, rc_dispatched_at = dispatched_at, rc_gcit_run_id = gcit_run_id\<rparr>"

text \<open>
  What the environment supplies while a trigger is handled: a fresh id, the clock, the strict
  template renderer over a run context, the \<open>Display\<close> of errors, and the state channel.
\<close>

record 'oid trigger_env =
  te_uuid :: string
  te_now :: instant
  te_started_at :: instant
  te_error_now :: instant
  te_to_hex :: "'oid \<Rightarrow> string"
  te_render :: "'oid run_context \<Rightarrow> run_summary \<Rightarrow> string \<Rightarrow> string + string"
  te_show_github :: "github_error \<Rightarrow> string"
  te_show_correlation :: "correlation_error \<Rightarrow> string"
  te_state_open :: bool

definition render_dispatch_inputs ::
  "'oid trigger_env \<Rightarrow> (string \<times> string) list \<Rightarrow> 'oid run_context \<Rightarrow> dispatch_error + (string \<times> string) list" where
  "render_dispatch_inputs env inputs ctx =
     (case render_inputs (te_render env ctx (empty_run_summary 0)) inputs of
        Inr r \<Rightarrow> Inr r
      | Inl e \<Rightarrow> Inl (from_message ''input_render'' (''input render failed: '' @ e)))"

definition execute_dispatch_and_correlate ::
  "'oid trigger_env \<Rightarrow> dispatch_executor \<Rightarrow> dispatch_params \<Rightarrow> string \<Rightarrow> 'oid trigger_signal
     \<Rightarrow> dispatch_error + (dispatch_outcome \<times> correlation_outcome)"
where
  "execute_dispatch_and_correlate env executor params ref_name trigger =
     (case executor params (ref_to_branch ref_name) (te_to_hex env (ts_observed_sha trigger)) of
        ExecuteSuccess outcome correlation \<Rightarrow> Inr (outcome, correlation)
      | DispatchFailed e \<Rightarrow> Inl (from_github_error (te_show_github env) ''dispatch'' e)
      | CorrelateFailed e \<Rightarrow> Inl (from_correlation_error (te_show_correlation env) ''correlate'' e))"

datatype 'oid dispatch_effect =
    DispatchSend "'oid state_update"
  | NotifyStart "'oid run_context"
  | SpawnMonitor string string string u64 duration "'oid run_context"

definition emit_run_started ::
  "flow_dispatch_params \<Rightarrow> 'oid trigger_env \<Rightarrow> u64 \<Rightarrow> 'oid dispatch_effect list \<times> (dispatch_error + unit)" where
  "emit_run_started params env run =
     (if te_state_open env then ([DispatchSend (RunStarted (fd_flow_name params) run (te_started_at env))], Inr ())
      else ([], Inl (from_message ''state_writer'' ''state writer dropped'')))"

definition spawn_run_monitor ::
  "flow_dispatch_params \<Rightarrow> dispatch_outcome \<Rightarrow> correlation_outcome \<Rightarrow> 'oid run_context \<Rightarrow> 'oid dispatch_effect" where
  "spawn_run_monitor params outcome correlation ctx =
     SpawnMonitor (fd_flow_name params) (do_repo outcome) (do_workflow outcome) (co_run_id correlation) (fd_job_interval params) ctx"

definition handle_trigger ::
  "flow_dispatch_params \<Rightarrow> dispatch_executor \<Rightarrow> 'oid trigger_env \<Rightarrow> 'oid trigger_signal
     \<Rightarrow> 'oid dispatch_effect list \<times> (dispatch_error + unit)"
where
  "handle_trigger params executor env trigger =
     (let af = extract_action_fields (fd_action params);
          ctx = build_run_context (te_to_hex env) params trigger (af_repo af) (af_workflow af) (te_uuid env) (te_now env) 0 []
      in case render_dispatch_inputs env (af_inputs af) ctx of
           Inl e \<Rightarrow> ([], Inl e)
         | Inr rendered \<Rightarrow>
            (case execute_dispatch_and_correlate env executor
                    \<lparr>dp_repo = af_repo af, dp_workflow = af_workflow af, dp_ref_name = af_ref_name af,
                     dp_gcit_run_id = te_uuid env, dp_rendered_inputs = rendered\<rparr> (af_ref_name af) trigger of
               Inl e \<Rightarrow> ([], Inl e)
             | Inr (outcome, correlation) \<Rightarrow>
                (case emit_run_started params env (co_run_id correlation) of
                   (effects, Inl e) \<Rightarrow> (effects, Inl e)
                 | (effects, Inr _) \<Rightarrow>
                    (let final = build_run_context (te_to_hex env) params trigger (do_repo outcome) (do_workflow outcome)
                           (do_gcit_run_id outcome) (do_dispatched_at outcome) (co_run_id correlation)
                           (run_url (co_summary correlation))
                     in (effects @ [NotifyStart final, spawn_run_monitor params outcome correlation final], Inr ())))))"

section \<open>The loop\<close>

text \<open>
  The trigger queue is the bounded channel from the poll loop; \<open>Enqueue\<close> is a send by the poll
  loop. The other events are the arms of the \<open>select!\<close>. \<open>dl_handled\<close> are the triggers handled so
  far; the \<open>k\<close>-th of them meets the executor and environment \<open>world k\<close>.
\<close>

datatype 'oid dispatcher_event = Enqueue "'oid trigger_signal" | ReceiveTrigger | MonitorJoined | DispatcherCancelled | ChannelClosed

record 'oid dispatcher_state =
  dl_queue :: "'oid trigger_signal list"
  dl_handled :: "'oid trigger_signal list"
  dl_errors :: last_errors
  dl_log :: "'oid dispatch_effect list"
  dl_exited :: bool

type_synonym 'oid dispatcher_world = "nat \<Rightarrow> dispatch_executor \<times> 'oid trigger_env"

definition handle_and_record ::
  "flow_dispatch_params \<Rightarrow> 'oid dispatcher_world \<Rightarrow> 'oid dispatcher_state \<Rightarrow> 'oid trigger_signal \<Rightarrow> 'oid dispatcher_state"
where
  "handle_and_record params world st trigger =
     (let (executor, env) = world (length (dl_handled st));
          (effects, result) = handle_trigger params executor env trigger;
          st = st\<lparr>dl_handled := dl_handled st @ [trigger], dl_log := dl_log st @ effects\<rparr>
      in case result of
           Inr _ \<Rightarrow> st
         | Inl e \<Rightarrow> st\<lparr>dl_errors := record_last_error (dl_errors st) (fd_flow_name params) (te_error_now env)
                         (err_kind e) (err_message e) (err_retry_at e)\<rparr>)"

definition drain_pending_triggers ::
  "flow_dispatch_params \<Rightarrow> 'oid dispatcher_world \<Rightarrow> 'oid dispatcher_state \<Rightarrow> 'oid dispatcher_state" where
  "drain_pending_triggers params world st =
     foldl (handle_and_record params world) (st\<lparr>dl_queue := []\<rparr>) (dl_queue st)"

fun dispatcher_step ::
  "flow_dispatch_params \<Rightarrow> 'oid dispatcher_world \<Rightarrow> 'oid dispatcher_state \<Rightarrow> 'oid dispatcher_event \<Rightarrow> 'oid dispatcher_state"
where
  "dispatcher_step params world st (Enqueue t) =
     (if dl_exited st then st else st\<lparr>dl_queue := dl_queue st @ [t]\<rparr>)"
| "dispatcher_step params world st ReceiveTrigger =
     (if dl_exited st then st
      else case dl_queue st of
             [] \<Rightarrow> st
           | t # ts \<Rightarrow> handle_and_record params world (st\<lparr>dl_queue := ts\<rparr>) t)"
| "dispatcher_step params world st MonitorJoined = st"
| "dispatcher_step params world st DispatcherCancelled =
     (if dl_exited st then st else (drain_pending_triggers params world st)\<lparr>dl_exited := True\<rparr>)"
| "dispatcher_step params world st ChannelClosed =
     (if dl_exited st \<or> dl_queue st \<noteq> [] then st else st\<lparr>dl_exited := True\<rparr>)"

definition dispatcher_init :: "last_errors \<Rightarrow> 'oid dispatcher_state" where
  "dispatcher_init errors = \<lparr>dl_queue = [], dl_handled = [], dl_errors = errors, dl_log = [], dl_exited = False\<rparr>"

definition dispatcher_run ::
  "flow_dispatch_params \<Rightarrow> 'oid dispatcher_world \<Rightarrow> last_errors \<Rightarrow> 'oid dispatcher_event list \<Rightarrow> 'oid dispatcher_state" where
  "dispatcher_run params world errors events = foldl (dispatcher_step params world) (dispatcher_init errors) events"

section \<open>Lemmas\<close>

fun started_ids :: "'oid dispatch_effect list \<Rightarrow> u64 list" where
  "started_ids [] = []"
| "started_ids (DispatchSend (RunStarted _ i _) # es) = i # started_ids es"
| "started_ids (_ # es) = started_ids es"

fun monitored_ids :: "'oid dispatch_effect list \<Rightarrow> u64 list" where
  "monitored_ids [] = []"
| "monitored_ids (SpawnMonitor _ _ _ i _ _ # es) = i # monitored_ids es"
| "monitored_ids (_ # es) = monitored_ids es"

lemma started_ids_append [simp]: "started_ids (a @ b) = started_ids a @ started_ids b"
  by (induction a rule: started_ids.induct) auto

lemma monitored_ids_append [simp]: "monitored_ids (a @ b) = monitored_ids a @ monitored_ids b"
  by (induction a rule: monitored_ids.induct) auto

lemma handle_trigger_cases:
  assumes "handle_trigger params executor env trigger = (effects, r)"
  obtains (failed) e where "r = Inl e" "effects = []"
  | (started) t repo workflow i ctx where "r = Inr ()"
      "effects = [DispatchSend (RunStarted (fd_flow_name params) i t), NotifyStart ctx,
         SpawnMonitor (fd_flow_name params) repo workflow i (fd_job_interval params) ctx]"
      "rc_run_id ctx = i" "rc_sha ctx = ts_observed_sha trigger"
  using assms
  by (auto simp: handle_trigger_def Let_def emit_run_started_def spawn_run_monitor_def build_run_context_def
      split: sum.splits if_splits prod.splits)

lemma handle_trigger_ids:
  "handle_trigger params executor env trigger = (effects, r) \<Longrightarrow> started_ids effects = monitored_ids effects"
  by (erule handle_trigger_cases) auto

lemma handle_and_record_simps [simp]:
  "dl_queue (handle_and_record params world st t) = dl_queue st"
  "dl_handled (handle_and_record params world st t) = dl_handled st @ [t]"
  "dl_exited (handle_and_record params world st t) = dl_exited st"
  "dl_log (handle_and_record params world st t) = dl_log st @
     fst (handle_trigger params (fst (world (length (dl_handled st)))) (snd (world (length (dl_handled st)))) t)"
  by (auto simp: handle_and_record_def Let_def case_prod_unfold split: sum.split)

lemma drain_simps [simp]:
  "dl_queue (foldl (handle_and_record params world) st ts) = dl_queue st"
  "dl_handled (foldl (handle_and_record params world) st ts) = dl_handled st @ ts"
  "dl_exited (foldl (handle_and_record params world) st ts) = dl_exited st"
  by (induction ts arbitrary: st) auto

text \<open>The log and the shown errors keep up with the handled triggers, one at a time.\<close>

definition effects_of :: "flow_dispatch_params \<Rightarrow> 'oid dispatcher_world \<Rightarrow> 'oid trigger_signal list \<Rightarrow> 'oid dispatch_effect list" where
  "effects_of params world ts =
     concat (map (\<lambda>(k, t). fst (handle_trigger params (fst (world k)) (snd (world k)) t)) (enumerate 0 ts))"

lemma effects_of_snoc [simp]:
  "effects_of params world (ts @ [t]) = effects_of params world ts @
     fst (handle_trigger params (fst (world (length ts))) (snd (world (length ts))) t)"
  by (simp add: effects_of_def enumerate_append_eq)

definition dispatcher_inv :: "flow_dispatch_params \<Rightarrow> 'oid dispatcher_world \<Rightarrow> 'oid dispatcher_state \<Rightarrow> bool" where
  "dispatcher_inv params world st \<longleftrightarrow>
     dl_log st = effects_of params world (dl_handled st) \<and> started_ids (dl_log st) = monitored_ids (dl_log st)
     \<and> (dl_exited st \<longrightarrow> dl_queue st = [])"

lemma handle_and_record_inv:
  assumes "dispatcher_inv params world st"
  shows "dispatcher_inv params world (handle_and_record params world st t)"
proof -
  let ?k = "length (dl_handled st)"
  obtain effects r where "handle_trigger params (fst (world ?k)) (snd (world ?k)) t = (effects, r)" by force
  with assms handle_trigger_ids [OF this] show ?thesis by (auto simp: dispatcher_inv_def)
qed

lemma drain_inv:
  "dispatcher_inv params world st \<Longrightarrow> dispatcher_inv params world (foldl (handle_and_record params world) st ts)"
  by (induction ts arbitrary: st) (auto intro: handle_and_record_inv)

interpretation dispatcher: preserved_step "dispatcher_step params world" "dispatcher_inv params world" for params world
proof
  fix st :: "'a dispatcher_state" and e
  assume inv: "dispatcher_inv params world st"
  have queue: "dispatcher_inv params world (st\<lparr>dl_queue := ts\<rparr>)" if "\<not> dl_exited st" for ts
    using inv that by (auto simp: dispatcher_inv_def)
  show "dispatcher_inv params world (dispatcher_step params world st e)"
  proof (cases e)
    case ReceiveTrigger
    with inv queue show ?thesis by (auto intro: handle_and_record_inv split: list.split)
  next
    case DispatcherCancelled
    have "dispatcher_inv params world (drain_pending_triggers params world st)" if "\<not> dl_exited st"
      using drain_inv [OF queue [OF that, of "[]"]] by (simp add: drain_pending_triggers_def)
    with inv DispatcherCancelled show ?thesis
      by (auto simp: dispatcher_inv_def drain_pending_triggers_def)
  qed (use inv queue in \<open>auto simp: dispatcher_inv_def\<close>)
qed

fun enqueued :: "'oid dispatcher_event list \<Rightarrow> 'oid trigger_signal list" where
  "enqueued [] = []"
| "enqueued (Enqueue t # es) = t # enqueued es"
| "enqueued (_ # es) = enqueued es"

lemma dispatcher_fifo:
  assumes "DispatcherCancelled \<notin> set events" and "ChannelClosed \<notin> set events" and "\<not> dl_exited st"
  shows "dl_handled (foldl (dispatcher_step params world) st events) @ dl_queue (foldl (dispatcher_step params world) st events)
      = dl_handled st @ dl_queue st @ enqueued events
    \<and> \<not> dl_exited (foldl (dispatcher_step params world) st events)"
  using assms
proof (induction events arbitrary: st)
  case Nil
  then show ?case by simp
next
  case (Cons e es)
  from Cons.prems Cons.IH [of "dispatcher_step params world st e"] show ?case
    by (cases e) (auto split: list.split)
qed

section \<open>Properties\<close>

text \<open>
  Handling a trigger is all or nothing: on success the run is recorded as started, then
  the start is notified and a monitor is spawned, all for the correlated run and the observed SHA;
  on any failure, from template rendering to a closed state channel, nothing is recorded, notified
  or spawned.
\<close>

theorem handle_trigger_all_or_nothing:
  "case handle_trigger params executor env trigger of
     (effects, Inl e) \<Rightarrow> effects = []
   | (effects, Inr _) \<Rightarrow> \<exists>t repo workflow i ctx.
       effects = [DispatchSend (RunStarted (fd_flow_name params) i t), NotifyStart ctx,
         SpawnMonitor (fd_flow_name params) repo workflow i (fd_job_interval params) ctx]
       \<and> rc_run_id ctx = i \<and> rc_sha ctx = ts_observed_sha trigger"
proof -
  obtain effects r where h: "handle_trigger params executor env trigger = (effects, r)" by force
  from h show ?thesis by (cases rule: handle_trigger_cases) (auto simp: h)
qed


definition example_flow :: flow_dispatch_params where
  "example_flow = \<lparr>fd_flow_name = ''ci'', fd_flow_description = None, fd_url = ''https://example.org/r'',
     fd_ref_name = ''refs/heads/main'', fd_action = GithubWorkflowDispatch ''o/r'' ''ci.yml'' ''refs/heads/main'' [] ''pat'',
     fd_job_interval = from_secs 30\<rparr>"

definition example_trigger :: "nat \<Rightarrow> nat trigger_signal" where
  "example_trigger n = \<lparr>ts_observed_sha = n, ts_observed_at = 0\<rparr>"

definition example_dispatcher_world :: "nat dispatcher_world" where
  "example_dispatcher_world k = (\<lambda>_ _ _. DispatchFailed Cancelled,
     \<lparr>te_uuid = ''u1'', te_now = 0, te_started_at = 0, te_error_now = 0, te_to_hex = show_nat, te_render = \<lambda>_ _ t. Inr t,
      te_show_github = \<lambda>_. ''cancelled'', te_show_correlation = \<lambda>_. [], te_state_open = True\<rparr>)"


end
