(* ===== verification/Notify.thy ===== *)
theory Notify
  imports Flow_Dispatcher
begin

text \<open>
  The contract between the flow tasks and the notifiers (\<open>src/src/notify/mod.rs\<close>): outcomes,
  errors, the default handlers and the data a template is rendered with. JSON objects are
  association lists; the text of a timestamp (\<open>chrono\<close>) and of an object id are parameters.
\<close>

section \<open>Bytes of a string\<close>

text \<open>
  A string is its UTF-8 bytes. A character is a byte that is no continuation byte with the
  continuation bytes after it, so the characters are counted by their first bytes.
\<close>

definition char_len :: "string \<Rightarrow> nat" where
  "char_len s = length (filter (\<lambda>b. \<not> is_continuation b) s)"

text \<open>\<open>chars().take(n)\<close>.\<close>

fun take_chars :: "nat \<Rightarrow> string \<Rightarrow> string" where
  "take_chars n [] = []"
| "take_chars n (b # bs) =
     (if is_continuation b then b # take_chars n bs
      else case n of 0 \<Rightarrow> [] | Suc m \<Rightarrow> b # take_chars m bs)"

lemma char_len_append [simp]: "char_len (a @ b) = char_len a + char_len b"
  by (simp add: char_len_def)

lemma char_len_take_chars: "char_len (take_chars n s) = min n (char_len s)"
  by (induction n s rule: take_chars.induct) (auto simp: char_len_def split: nat.splits)

section \<open>Outcomes\<close>

datatype skip_reason = NotConfigured | FireOnMismatch | SkipRateLimited

datatype notify_outcome = NotifySent string | NotifySkipped skip_reason

datatype notify_error = NotifyTransient string "duration option" | NotifyPermanent string

fun notify_is_transient :: "notify_error \<Rightarrow> bool" where
  "notify_is_transient (NotifyTransient _ _) = True"
| "notify_is_transient (NotifyPermanent _) = False"

fun notify_retry_after :: "notify_error \<Rightarrow> duration option" where
  "notify_retry_after (NotifyTransient _ retry) = retry"
| "notify_retry_after (NotifyPermanent _) = None"

text \<open>The default handlers of the trait, which both notifiers of the program inherit.\<close>

definition on_run_start_default :: "'oid run_context \<Rightarrow> notify_error + notify_outcome" where
  "on_run_start_default ctx = Inr (NotifySkipped NotConfigured)"

definition on_job_complete_default :: "'oid run_context \<Rightarrow> job_result \<Rightarrow> notify_error + notify_outcome" where
  "on_job_complete_default ctx job = Inr (NotifySkipped NotConfigured)"

section \<open>Template data\<close>

datatype json_leaf = JString string | JNumber nat

type_synonym render_data = "(string \<times> (string \<times> json_leaf) list) list"

definition label_or :: "string \<Rightarrow> conclusion option \<Rightarrow> string" where
  "label_or fallback c = (case c of Some c \<Rightarrow> label_for c | None \<Rightarrow> fallback)"

definition render_context ::
  "('oid \<Rightarrow> string) \<Rightarrow> (instant \<Rightarrow> string) \<Rightarrow> 'oid run_context \<Rightarrow> run_summary \<Rightarrow> render_data" where
  "render_context to_hex to_rfc3339 ctx summary =
     [(''flow'', [(''name'', JString (rc_flow_name ctx)),
                  (''description'', JString (case rc_flow_description ctx of Some d \<Rightarrow> d | None \<Rightarrow> []))]),
      (''source'', [(''url'', JString (rc_url ctx)), (''ref_name'', JString (rc_ref_name ctx)),
                    (''sha'', JString (to_hex (rc_sha ctx))), (''sha_short'', JString (rc_sha_short ctx))]),
      (''action'', [(''repo'', JString (rc_repo ctx)), (''workflow'', JString (rc_workflow ctx)),
                    (''run_id'', JNumber (unat (rc_run_id ctx))), (''run_url'', JString (rc_run_url ctx)),
                    (''dispatched_at'', JString (to_rfc3339 (rc_dispatched_at ctx)))]),
      (''run'', [(''status'', JString (run_status_label (run_status summary))),
                 (''conclusion'', JString (label_or ''(in progress)'' (run_conclusion summary)))]),
      (''gcit'', [(''run_id'', JString (rc_gcit_run_id ctx))])]"

definition render_context_with_job ::
  "('oid \<Rightarrow> string) \<Rightarrow> (instant \<Rightarrow> string) \<Rightarrow> 'oid run_context \<Rightarrow> run_summary \<Rightarrow> job_result \<Rightarrow> render_data" where
  "render_context_with_job to_hex to_rfc3339 ctx summary job =
     render_context to_hex to_rfc3339 ctx summary @
     [(''job'', [(''id'', JNumber (unat (job_id job))), (''name'', JString (job_name job)), (''url'', JString (job_html_url job)),
                 (''conclusion'', JString (label_or ''in progress'' (job_conclusion job))),
                 (''attempt'', JNumber (unat (job_run_attempt job)))])]"

end
