(* ===== verification/Poll_Strategy.thy ===== *)
theory Poll_Strategy
  imports Prelude
begin

text \<open>
  How a source is polled: strategy detection, default intervals and the SHA diff
  (\<open>src/src/git/strategy.rs\<close>), the ref lookup of the ls-refs strategy
  (\<open>src/src/git/ls_remote.rs\<close>), the refs API (\<open>src/src/git/github_api.rs\<close>), the manifest handling of the grokmirror strategy
  (\<open>src/src/git/grokmirror.rs\<close>) and the executor that runs one poll cycle with the strategy of
  the flow's URL (\<open>src/src/flow/poll/executor.rs\<close>). URL parsing (\<open>gix_url\<close>, \<open>url\<close>), gzip and JSON
  are parameters or inputs; a network call appears as what it returned, or as the cancellation
  that overtook it.
\<close>

section \<open>Strategies\<close>

datatype poll_strategy = GithubApi | Grokmirror | LsRemote

definition MIN_INTERVAL :: duration where
  [model_defs]: "MIN_INTERVAL = from_secs 15"

fun default_interval :: "poll_strategy \<Rightarrow> duration" where
  "default_interval GithubApi = from_secs 60"
| "default_interval Grokmirror = from_secs 60"
| "default_interval LsRemote = from_secs 300"

fun kind_str :: "poll_strategy \<Rightarrow> string" where
  "kind_str GithubApi = ''github_api''"
| "kind_str Grokmirror = ''grokmirror''"
| "kind_str LsRemote = ''ls_remote''"

text \<open>\<open>parse url\<close> is \<open>None\<close> for an unparseable URL, \<open>Some h\<close> with the host component otherwise.\<close>

definition auto_detect :: "(string \<Rightarrow> string option option) \<Rightarrow> string \<Rightarrow> poll_strategy" where
  "auto_detect parse url =
     (case parse url of
        None \<Rightarrow> LsRemote
      | Some None \<Rightarrow> LsRemote
      | Some (Some host) \<Rightarrow>
          if eq_ignore_ascii_case host ''github.com'' \<or> eq_ignore_ascii_case host ''www.github.com'' then GithubApi
          else if eq_ignore_ascii_case host ''git.kernel.org'' then Grokmirror
          else LsRemote)"

record 'oid diff_outcome =
  diff_observed :: 'oid
  diff_trigger :: bool

definition compare_sha :: "'oid option \<Rightarrow> 'oid \<Rightarrow> 'oid diff_outcome" where
  "compare_sha last_seen observed =
     \<lparr>diff_observed = observed,
      diff_trigger = (case last_seen of None \<Rightarrow> False | Some prev \<Rightarrow> prev \<noteq> observed)\<rparr>"

datatype 'oid poll_outcome = Refreshed 'oid | UnbornRef | Unchanged

section \<open>ls-refs\<close>

text \<open>A ref as the handshake reports it: name and object, and the tag object of a peeled ref.\<close>

datatype 'oid remote_ref =
    DirectRef string 'oid
  | PeeledRef string 'oid 'oid
  | SymbolicRef string string "'oid option" 'oid
  | UnbornRemote string string

datatype 'oid found_ref = FoundDirect 'oid | FoundPeeledTag 'oid | FoundSymbolic 'oid | FoundUnborn | FoundNotPresent

fun find_ref :: "'oid remote_ref list \<Rightarrow> string \<Rightarrow> 'oid found_ref" where
  "find_ref [] ref_name = FoundNotPresent"
| "find_ref (r # rs) ref_name =
     (case r of
        DirectRef name obj \<Rightarrow> if name = ref_name then FoundDirect obj else find_ref rs ref_name
      | PeeledRef name tag obj \<Rightarrow> if name = ref_name then FoundPeeledTag tag else find_ref rs ref_name
      | SymbolicRef name target tag obj \<Rightarrow>
          if name = ref_name then FoundSymbolic (case tag of Some t \<Rightarrow> t | None \<Rightarrow> obj)
          else find_ref rs ref_name
      | UnbornRemote name target \<Rightarrow> if name = ref_name then FoundUnborn else find_ref rs ref_name)"

definition ls_remote_outcome :: "'oid remote_ref list \<Rightarrow> string \<Rightarrow> 'oid poll_outcome" where
  "ls_remote_outcome refs ref_name =
     (case find_ref refs ref_name of
        FoundDirect oid \<Rightarrow> Refreshed oid
      | FoundPeeledTag tag_oid \<Rightarrow> Refreshed tag_oid
      | FoundSymbolic oid \<Rightarrow> Refreshed oid
      | FoundUnborn \<Rightarrow> UnbornRef
      | FoundNotPresent \<Rightarrow> UnbornRef)"

section \<open>The GitHub refs API\<close>

datatype api_error = ApiPermanent string | ApiTransient string | InvalidRef string string

definition show_api_error :: "api_error \<Rightarrow> string" where
  "show_api_error e = (case e of ApiPermanent m \<Rightarrow> ''permanent: '' @ m | ApiTransient m \<Rightarrow> ''transient: '' @ m
     | InvalidRef r m \<Rightarrow> ''invalid ref '' @ [CHR 0x60] @ r @ [CHR 0x60] @ '': '' @ m)"

datatype reference = Branch string | Tag string

definition ref_to_reference :: "string \<Rightarrow> api_error + reference" where
  "ref_to_reference ref_name =
     (case strip_prefix ref_name ''refs/heads/'' of
        Some branch \<Rightarrow>
          if branch = [] then Inl (InvalidRef ref_name ''branch name is empty after stripping refs/heads/'')
          else Inr (Branch branch)
      | None \<Rightarrow>
         (case strip_prefix ref_name ''refs/tags/'' of
            Some tag \<Rightarrow>
              if tag = [] then Inl (InvalidRef ref_name ''tag name is empty after stripping refs/tags/'')
              else Inr (Tag tag)
          | None \<Rightarrow>
              Inl (InvalidRef ref_name (''octocrab get_ref only supports refs/heads/* and refs/tags/* '' @ em_dash @
                '' pass the full ref path with one of those prefixes''))))"

text \<open>What \<open>get_ref\<close> returns: a typed object with its hex id, an API error, or a transport error.\<close>

datatype ref_object = CommitObject string | TagObject string | OtherObject
datatype octo_error = OctoGithub nat string | OctoOther string

definition github_classify_status :: "nat \<Rightarrow> string \<Rightarrow> api_error" where
  "github_classify_status status message =
     (if status = 404 then ApiPermanent (''ref not found: '' @ message)
      else if status = 429 then ApiTransient (''rate-limited (429): '' @ message)
      else if status = 403 then
        (if contains (to_ascii_lowercase message) ''rate limit''
         then ApiTransient (''rate-limited (403): '' @ message)
         else ApiPermanent (''github 403 (permission denied): '' @ message @ '' '' @ em_dash @
           '' verify the PAT has '' @ [CHR 0x60] @ ''Contents: read'' @ [CHR 0x60] @ '' for the target repo''))
      else if 500 \<le> status \<and> status < 600
      then ApiTransient (''github 5xx: '' @ show_nat status @ '' '' @ message)
      else ApiPermanent (''github '' @ show_nat status @ '': '' @ message))"

fun github_classify_error :: "octo_error \<Rightarrow> api_error" where
  "github_classify_error (OctoGithub status message) = github_classify_status status message"
| "github_classify_error (OctoOther text) = ApiTransient (''transport error: '' @ text)"

definition github_poll_oid :: "(string \<Rightarrow> string + 'oid) \<Rightarrow> (string \<Rightarrow> string) \<Rightarrow> string \<Rightarrow> api_error + 'oid poll_outcome" where
  "github_poll_oid from_hex dbg sha_hex =
     (case from_hex sha_hex of
        Inl e \<Rightarrow> Inl (ApiPermanent (''could not parse SHA '' @ dbg sha_hex @ '' from GitHub: '' @ e))
      | Inr oid \<Rightarrow> Inr (Refreshed oid))"

text \<open>
  \<open>github_api::poll\<close>. \<open>from_hex\<close> is \<open>gix_hash::ObjectId::from_hex\<close>; \<open>dbg\<close> quotes a string as
  \<open>{:?}\<close> does.
\<close>

definition github_poll ::
  "(string \<Rightarrow> string + 'oid) \<Rightarrow> (string \<Rightarrow> string) \<Rightarrow> string \<Rightarrow> (reference \<Rightarrow> octo_error + ref_object)
     \<Rightarrow> api_error + 'oid poll_outcome"
where
  "github_poll from_hex dbg ref_name get_ref =
     (case ref_to_reference ref_name of
        Inl e \<Rightarrow> Inl e
      | Inr reference \<Rightarrow>
         (case get_ref reference of
            Inl (OctoGithub status message) \<Rightarrow>
              if status = 404 then Inr UnbornRef else Inl (github_classify_error (OctoGithub status message))
          | Inl e \<Rightarrow> Inl (github_classify_error e)
          | Inr OtherObject \<Rightarrow>
              Inl (ApiPermanent (''unrecognised ref object type for '' @ ref_name @ ''; gcit only handles commit + tag''))
          | Inr (CommitObject sha_hex) \<Rightarrow> github_poll_oid from_hex dbg sha_hex
          | Inr (TagObject sha_hex) \<Rightarrow> github_poll_oid from_hex dbg sha_hex))"

section \<open>Grokmirror manifests\<close>

definition MAX_DECOMPRESSED_BYTES :: nat where
  [model_defs]: "MAX_DECOMPRESSED_BYTES = 16 * 1024 * 1024"

definition MAX_COMPRESSED_BYTES :: nat where
  [model_defs]: "MAX_COMPRESSED_BYTES = 64 * 1024 * 1024"

datatype grokmirror_error = GrokTransient string | RepoNotInManifest string | GrokPermanent string

record repo_entry =
  re_fingerprint :: string
  re_modified :: "nat option"

type_synonym manifest = "string \<rightharpoonup> repo_entry"

definition check_content_length_cap :: "nat option \<Rightarrow> grokmirror_error + unit" where
  "check_content_length_cap declared =
     (case declared of
        Some len \<Rightarrow>
          if len > MAX_COMPRESSED_BYTES
          then Inl (GrokPermanent (''manifest Content-Length '' @ show_nat len @ '' exceeds cap of '' @ show_nat MAX_COMPRESSED_BYTES))
          else Inr ()
      | None \<Rightarrow> Inr ())"

text \<open>The body arrives as chunks; \<open>Inl e\<close> is a chunk whose read failed.\<close>

fun read_capped :: "nat \<Rightarrow> string \<Rightarrow> (string + string) list \<Rightarrow> grokmirror_error + string" where
  "read_capped seen buf [] = Inr buf"
| "read_capped seen buf (Inl e # cs) = Inl (GrokTransient (''read manifest body chunk: '' @ e))"
| "read_capped seen buf (Inr c # cs) =
     (let seen = min (seen + length c) (2 ^ 64 - 1)
      in if seen > MAX_COMPRESSED_BYTES
         then Inl (GrokPermanent (''manifest body exceeded cap of '' @ show_nat MAX_COMPRESSED_BYTES @ '' bytes during stream read''))
         else read_capped seen (buf @ c) cs)"

definition trim_end_matches :: "char \<Rightarrow> string \<Rightarrow> string" where
  "trim_end_matches c s = rev (dropWhile (\<lambda>x. x = c) (rev s))"

definition build_manifest_url :: "string \<Rightarrow> string" where
  "build_manifest_url base_url = trim_end_matches (CHR ''/'') base_url @ ''/manifest.js.gz''"

text \<open>\<open>gunzip\<close> is \<open>Inl e\<close> for a corrupt stream; \<open>take(MAX + 1)\<close> stops reading one byte past the cap.\<close>

definition parse_manifest_bytes ::
  "(string \<Rightarrow> string + string) \<Rightarrow> (string \<Rightarrow> string + manifest) \<Rightarrow> string \<Rightarrow> grokmirror_error + manifest" where
  "parse_manifest_bytes gunzip from_json bytes =
     (case gunzip bytes of
        Inl e \<Rightarrow> Inl (GrokPermanent (''manifest decompression failed: '' @ e))
      | Inr text \<Rightarrow>
         (let buf = take (MAX_DECOMPRESSED_BYTES + 1) text
          in if length buf > MAX_DECOMPRESSED_BYTES
             then Inl (GrokPermanent (''manifest decompressed to over '' @ show_nat MAX_DECOMPRESSED_BYTES @
               '' bytes; rejecting as potentially hostile''))
             else (case from_json buf of Inl e \<Rightarrow> Inl (GrokPermanent (''manifest JSON parse: '' @ e)) | Inr m \<Rightarrow> Inr m)))"

definition lookup_fingerprint :: "manifest \<Rightarrow> string \<Rightarrow> grokmirror_error + string" where
  "lookup_fingerprint m repo_path =
     (case m repo_path of Some e \<Rightarrow> Inr (re_fingerprint e) | None \<Rightarrow> Inl (RepoNotInManifest repo_path))"

text \<open>
  \<open>parsed_path\<close> is the path component \<open>gix_url\<close> finds, \<open>Inl e\<close> when the URL does not parse; \<open>url\<close> is
  the URL as the message quotes it.
\<close>

definition extract_repo_path_from_url :: "string \<Rightarrow> string + string \<Rightarrow> grokmirror_error + string" where
  "extract_repo_path_from_url url parsed_path =
     (case parsed_path of
        Inl e \<Rightarrow> Inl (GrokPermanent (''could not parse source URL '' @ url @ '': '' @ e))
      | Inr path \<Rightarrow>
          if path = [] \<or> path = ''/'' then Inl (GrokPermanent (''source URL '' @ url @ '' has no path component''))
          else Inr (if starts_with path ''/'' then path else ''/'' @ path))"

section \<open>One poll cycle\<close>

datatype poll_cycle_error = CycleCancelled | CycleFailed string

text \<open>A network call raced against the flow's cancellation token by \<open>tokio::select!\<close>.\<close>

datatype 'a raced = Overtaken | Finished 'a

text \<open>
  \<open>split_github_repo\<close> on the path segments of the URL (\<open>Inl\<close>: the URL does not parse, \<open>None\<close>: it
  cannot have segments).
\<close>

definition split_github_repo :: "string + string list option \<Rightarrow> string + (string \<times> string)" where
  "split_github_repo parsed =
     (case parsed of
        Inl e \<Rightarrow> Inl e
      | Inr None \<Rightarrow> Inl ''github URL has no path''
      | Inr (Some segments) \<Rightarrow>
         (case filter (\<lambda>s. s \<noteq> []) segments of
            [] \<Rightarrow> Inl ''missing owner''
          | [owner] \<Rightarrow> Inl ''missing repo''
          | owner # repo # _ \<Rightarrow>
              Inr (owner, case strip_suffix repo ''.git'' of Some r \<Rightarrow> r | None \<Rightarrow> repo)))"

text \<open>What the flow's parameters give the executor: its clients and the parsed URL.\<close>

record source_params =
  sp_ref_name :: string
  sp_octo :: bool
  sp_reqwest :: bool
  sp_segments :: "string + string list option"
  sp_base_url :: "string option"
  sp_url :: string
  sp_path :: "string + string"

text \<open>
  What the network answers during one cycle: the refs API, the manifest fetch, and the ref list
  of the ls-refs handshake (an error by its text). \<open>hex\<close> holds the two library functions the
  refs API poll uses.
\<close>

record 'oid cycle_net =
  net_github :: "(reference \<Rightarrow> octo_error + ref_object) raced"
  net_manifest :: "(string + manifest) raced"
  net_ls_remote :: "(string + 'oid remote_ref list) raced"

type_synonym 'oid hex = "(string \<Rightarrow> string + 'oid) \<times> (string \<Rightarrow> string)"

definition ls_remote_inline :: "string \<Rightarrow> 'oid cycle_net \<Rightarrow> poll_cycle_error + 'oid poll_outcome" where
  "ls_remote_inline ref_name net =
     (case net_ls_remote net of
        Overtaken \<Rightarrow> Inl CycleCancelled
      | Finished (Inl e) \<Rightarrow> Inl (CycleFailed e)
      | Finished (Inr refs) \<Rightarrow> Inr (ls_remote_outcome refs ref_name))"

definition show_grok_error :: "grokmirror_error \<Rightarrow> string" where
  "show_grok_error e = (case e of GrokTransient m \<Rightarrow> ''transient: '' @ m
     | RepoNotInManifest p \<Rightarrow> ''repo '' @ [CHR 0x60] @ p @ [CHR 0x60] @ '' not present in manifest'' | GrokPermanent m \<Rightarrow> ''permanent: '' @ m)"

text \<open>\<open>poll_one\<close>; the fingerprint cache is the only state that crosses cycles.\<close>

fun poll_one ::
  "'oid hex \<Rightarrow> poll_strategy \<Rightarrow> source_params \<Rightarrow> 'oid cycle_net \<Rightarrow> string option \<Rightarrow> (poll_cycle_error + 'oid poll_outcome) \<times> string option"
where
  "poll_one hex GithubApi sp net fingerprint =
     (if \<not> sp_octo sp then (Inl (CycleFailed ''github_api strategy requires Octocrab handle''), fingerprint)
      else case split_github_repo (sp_segments sp) of
             Inl e \<Rightarrow> (Inl (CycleFailed (''github URL parse: '' @ e)), fingerprint)
           | Inr _ \<Rightarrow>
              (case net_github net of
                 Overtaken \<Rightarrow> (Inl CycleCancelled, fingerprint)
               | Finished get_ref \<Rightarrow>
                  (case github_poll (fst hex) (snd hex) (sp_ref_name sp) get_ref of
                     Inl e \<Rightarrow> (Inl (CycleFailed (show_api_error e)), fingerprint)
                   | Inr out \<Rightarrow> (Inr out, fingerprint))))"
| "poll_one hex Grokmirror sp net fingerprint =
     (if \<not> sp_reqwest sp then (Inl (CycleFailed ''grokmirror strategy requires reqwest handle''), fingerprint)
      else case sp_base_url sp of
        None \<Rightarrow> (Inl (CycleFailed ''grokmirror URL must carry a host''), fingerprint)
      | Some base \<Rightarrow>
         (case extract_repo_path_from_url (sp_url sp) (sp_path sp) of
            Inl e \<Rightarrow> (Inl (CycleFailed (''grokmirror repo path: '' @ show_grok_error e)), fingerprint)
          | Inr repo_path \<Rightarrow>
             (case net_manifest net of
                Overtaken \<Rightarrow> (Inl CycleCancelled, fingerprint)
              | Finished (Inl e) \<Rightarrow> (Inl (CycleFailed e), fingerprint)
              | Finished (Inr m) \<Rightarrow>
                 (case lookup_fingerprint m repo_path of
                    Inr new_fp \<Rightarrow>
                      (let unchanged = (case fingerprint of Some prev \<Rightarrow> prev = new_fp | None \<Rightarrow> False);
                           fingerprint = Some new_fp
                       in if unchanged then (Inr Unchanged, fingerprint)
                          else (ls_remote_inline (sp_ref_name sp) net, fingerprint))
                  | Inl (RepoNotInManifest _) \<Rightarrow> (Inr UnbornRef, fingerprint)
                  | Inl e \<Rightarrow> (Inl (CycleFailed (''grokmirror lookup: '' @ show_grok_error e)), fingerprint)))))"
| "poll_one hex LsRemote sp net fingerprint = (ls_remote_inline (sp_ref_name sp) net, fingerprint)"

section \<open>Lemmas\<close>

lemma compare_sha_trigger [simp]: "diff_trigger (compare_sha prev sha) \<longleftrightarrow> (\<exists>p. prev = Some p \<and> p \<noteq> sha)"
  by (simp add: compare_sha_def split: option.split)

lemma compare_sha_observed [simp]: "diff_observed (compare_sha prev sha) = sha"
  by (simp add: compare_sha_def)

lemma known_hosts_lowercase:
  "to_ascii_lowercase ''github.com'' = ''github.com''"
  "to_ascii_lowercase ''www.github.com'' = ''www.github.com''"
  "to_ascii_lowercase ''git.kernel.org'' = ''git.kernel.org''"
  by (simp_all add: to_ascii_lowercase_def ascii_lower_def)

text \<open>The name of an advertised ref and the object an update to it is reported as.\<close>

fun remote_name :: "'oid remote_ref \<Rightarrow> string" where
  "remote_name (DirectRef n _) = n"
| "remote_name (PeeledRef n _ _) = n"
| "remote_name (SymbolicRef n _ _ _) = n"
| "remote_name (UnbornRemote n _) = n"

fun remote_oid :: "'oid remote_ref \<Rightarrow> 'oid option" where
  "remote_oid (DirectRef _ oid) = Some oid"
| "remote_oid (PeeledRef _ tag _) = Some tag"
| "remote_oid (SymbolicRef _ _ (Some tag) _) = Some tag"
| "remote_oid (SymbolicRef _ _ None oid) = Some oid"
| "remote_oid (UnbornRemote _ _) = None"

lemma first_match_Cons:
  assumes "remote_name a \<noteq> n"
  shows "(\<exists>pre r post. a # refs = pre @ r # post \<and> n \<notin> remote_name ` set pre \<and> remote_name r = n \<and> Q r)
    \<longleftrightarrow> (\<exists>pre r post. refs = pre @ r # post \<and> n \<notin> remote_name ` set pre \<and> remote_name r = n \<and> Q r)"
    (is "?L \<longleftrightarrow> ?R")
proof
  assume ?L
  then obtain pre r post where e: "a # refs = pre @ r # post"
    and h: "n \<notin> remote_name ` set pre" "remote_name r = n" "Q r" by blast
  from e h(2) assms obtain pre' where "pre = a # pre'" "refs = pre' @ r # post" by (cases pre) auto
  with h show ?R by auto
next
  assume ?R
  then obtain pre r post where "refs = pre @ r # post" "n \<notin> remote_name ` set pre" "remote_name r = n" "Q r"
    by blast
  with assms have "a # refs = (a # pre) @ r # post" "n \<notin> remote_name ` set (a # pre)" by auto
  with \<open>remote_name r = n\<close> \<open>Q r\<close> show ?L by blast
qed

lemma ls_remote_outcome_Nil [simp]: "ls_remote_outcome [] ref_name = UnbornRef"
  by (simp add: ls_remote_outcome_def)

lemma ls_remote_outcome_Cons:
  "ls_remote_outcome (r # rs) ref_name =
     (if remote_name r = ref_name then case remote_oid r of Some oid \<Rightarrow> Refreshed oid | None \<Rightarrow> UnbornRef
      else ls_remote_outcome rs ref_name)"
  by (cases r rule: remote_oid.cases) (auto simp: ls_remote_outcome_def)

text \<open>
  The manifest of a cycle shows a fingerprint for the flow's repository. The executor compares
  it with the cached one and caches it before anything is resolved.
\<close>

definition manifest_shows :: "source_params \<Rightarrow> 'oid cycle_net \<Rightarrow> string \<Rightarrow> bool" where
  "manifest_shows sp net fp \<longleftrightarrow> sp_reqwest sp \<and> sp_base_url sp \<noteq> None \<and>
     (case extract_repo_path_from_url (sp_url sp) (sp_path sp) of
        Inl _ \<Rightarrow> False
      | Inr path \<Rightarrow> (case net_manifest net of Finished (Inr m) \<Rightarrow> lookup_fingerprint m path = Inr fp | _ \<Rightarrow> False))"

lemma poll_one_manifest_shows:
  "manifest_shows sp net fp \<Longrightarrow> poll_one hex Grokmirror sp net x =
     (if x = Some fp then Inr Unchanged else ls_remote_inline (sp_ref_name sp) net, Some fp)"
  by (auto simp: manifest_shows_def split: sum.splits raced.splits option.splits)

declare poll_one.simps [simp del]

section \<open>Properties\<close>

text \<open>
  Strategy detection is exact on the host: the refs API is used exactly for the two GitHub
  hosts and the manifest exactly for \<open>git.kernel.org\<close>, in any letter case; lookalike hosts,
  host-less and unparseable URLs all take the generic strategy.
\<close>

theorem auto_detect_exact:
  "(auto_detect parse url = GithubApi \<longleftrightarrow>
     (\<exists>h. parse url = Some (Some h) \<and> to_ascii_lowercase h \<in> {''github.com'', ''www.github.com''})) \<and>
   (auto_detect parse url = Grokmirror \<longleftrightarrow>
     (\<exists>h. parse url = Some (Some h) \<and> to_ascii_lowercase h = ''git.kernel.org''))"
  by (auto simp: auto_detect_def eq_ignore_ascii_case_def known_hosts_lowercase split: option.splits)

text \<open>
  The ls-refs lookup is decided by the first advertised ref of the configured name: a branch
  gives its object, an annotated tag the tag object itself and not the commit it points to; a
  name that is not advertised, or is advertised as unborn, never looks like an update.
\<close>

theorem ls_remote_resolves_configured_ref:
  "ls_remote_outcome refs ref_name = Refreshed oid \<longleftrightarrow>
     (\<exists>pre r post. refs = pre @ r # post \<and> ref_name \<notin> set (map remote_name pre)
        \<and> remote_name r = ref_name \<and> remote_oid r = Some oid)"
proof (induction refs)
  case Nil
  show ?case by simp
next
  case (Cons a refs)
  show ?case
  proof (cases "remote_name a = ref_name")
    case True
    then have "a # refs = [] @ a # refs" "ref_name \<notin> set (map remote_name [])" by simp_all
    with True show ?thesis
      by (fastforce simp: ls_remote_outcome_Cons Cons_eq_append_conv split: option.splits)
  next
    case False
    then show ?thesis
      using first_match_Cons [OF False, of refs "\<lambda>r. remote_oid r = Some oid"]
      by (simp add: ls_remote_outcome_Cons Cons.IH)
  qed
qed

text \<open>
  Manifest bodies are bounded while they are read: an accepted body is the concatenation of
  its chunks and within the cap, and the reader gives up at the first chunk that passes it.
\<close>

theorem read_capped_bounded:
  "read_capped 0 [] chunks = Inr body \<longleftrightarrow>
     (\<forall>e. Inl e \<notin> set chunks) \<and> body = concat (map projr chunks) \<and> length body \<le> MAX_COMPRESSED_BYTES"
proof -
  have "read_capped (length buf) buf chunks = Inr body \<longleftrightarrow>
      (\<forall>e. Inl e \<notin> set chunks) \<and> body = buf @ concat (map projr chunks) \<and> length body \<le> MAX_COMPRESSED_BYTES"
    if "length buf \<le> MAX_COMPRESSED_BYTES" for buf
    using that
  proof (induction chunks arbitrary: buf)
    case Nil
    then show ?case by auto
  next
    case (Cons c cs)
    show ?case
    proof (cases c)
      case (Inr x)
      show ?thesis
      proof (cases "length buf + length x \<le> MAX_COMPRESSED_BYTES")
        case True
        then have "min (length buf + length x) (2 ^ 64 - 1) = length (buf @ x)"
          by (simp add: MAX_COMPRESSED_BYTES_def)
        with True Inr Cons.IH [of "buf @ x"] show ?thesis by (simp add: Let_def)
      next
        case False
        then have "min (length buf + length x) (2 ^ 64 - 1) > MAX_COMPRESSED_BYTES"
          by (simp add: MAX_COMPRESSED_BYTES_def)
        with False Inr show ?thesis by (auto simp: Let_def)
      qed
    qed auto
  qed
  from this [of "[]"] show ?thesis by simp
qed

end
