(* ===== verification/Poll_Loop.thy ===== *)
theory Poll_Loop
  imports Poll_Strategy State_Apply Supervisor_Types
begin

text \<open>
  The per-flow poll loop (\<open>src/src/flow/poll/loop_.rs\<close>, \<open>send.rs\<close>, \<open>mod.rs\<close>). One iteration is a
  function of the loop's local variables and of what the environment did during it: whether
  cancellation overtook a wait, what the executor returned, the wall clock, and whether the two
  channels were open. \<open>pl_log\<close> is the sequence of messages the loop has sent, in order. The
  executor is a parameter, as in \<open>run_with_executor\<close>; production instantiates it with \<open>poll_one\<close>.
\<close>

section \<open>Parameters\<close>

record 'j poll_config =
  pc_source_interval :: "duration option"
  pc_job_interval :: duration
  pc_jitter :: 'j
  pc_cooldown :: duration

record 'j poll_override =
  po_source_interval :: "duration option"
  po_job_interval :: "duration option"
  po_jitter :: "'j option"
  po_cooldown :: "duration option"

record 'j effective_poll =
  source_interval :: duration
  job_interval :: duration
  jitter :: 'j
  cooldown :: duration

definition option_or :: "'a option \<Rightarrow> 'a option \<Rightarrow> 'a option" where
  "option_or a b = (case a of Some x \<Rightarrow> Some x | None \<Rightarrow> b)"

definition unwrap_or :: "'a option \<Rightarrow> 'a \<Rightarrow> 'a" where
  "unwrap_or a d = (case a of Some x \<Rightarrow> x | None \<Rightarrow> d)"

text \<open>\<open>EffectivePoll::compute\<close>\<close>

definition effective_poll_compute :: "'j poll_config \<Rightarrow> 'j poll_override \<Rightarrow> poll_strategy \<Rightarrow> 'j effective_poll" where
  "effective_poll_compute defaults override strategy =
     \<lparr>source_interval = unwrap_or (option_or (po_source_interval override) (pc_source_interval defaults))
        (default_interval strategy),
      job_interval = unwrap_or (po_job_interval override) (pc_job_interval defaults),
      jitter = unwrap_or (po_jitter override) (pc_jitter defaults),
      cooldown = unwrap_or (po_cooldown override) (pc_cooldown defaults)\<rparr>"

record 'j poll_params =
  pp_flow_name :: string
  pp_url :: string
  pp_ref_name :: string
  pp_effective :: "'j effective_poll"
  pp_rate_bucket :: bool

section \<open>Loop state and environment\<close>

datatype 'oid poll_effect = SentTrigger 'oid instant | SentUpdate "'oid state_update"

record ('x, 'oid) loop_state =
  pl_last_sha :: "'oid option"
  pl_last_dispatched_at :: "instant option"
  pl_error_cleared :: bool
  pl_errors :: last_errors
  pl_exec :: 'x
  pl_log :: "'oid poll_effect list"

datatype trigger_send = TriggerCancelled | TriggerClosed | TriggerQueued

record 'net cycle_env =
  ce_sleep_done :: bool
  ce_rate_done :: bool
  ce_net :: 'net
  ce_now :: instant
  ce_error_now :: instant
  ce_trigger :: trigger_send
  ce_state_open :: bool

datatype cycle_action = ContinueCycle | ReturnCycle
datatype send_outcome = Sent | SendCancelled | TriggerChannelClosed | StateChannelClosed

definition emit :: "'oid poll_effect \<Rightarrow> ('x, 'oid) loop_state \<Rightarrow> ('x, 'oid) loop_state" where
  "emit x st = st\<lparr>pl_log := pl_log st @ [x]\<rparr>"

section \<open>Operations\<close>

definition send_state_or_exit ::
  "'net cycle_env \<Rightarrow> 'oid state_update \<Rightarrow> ('x, 'oid) loop_state \<Rightarrow> bool \<times> ('x, 'oid) loop_state" where
  "send_state_or_exit env u st = (if \<not> ce_state_open env then (False, st) else (True, emit (SentUpdate u) st))"

definition send_trigger_then_observation ::
  "'net cycle_env \<Rightarrow> ('oid \<times> instant) option \<Rightarrow> 'oid state_update \<Rightarrow> ('x, 'oid) loop_state
     \<Rightarrow> send_outcome \<times> ('x, 'oid) loop_state"
where
  "send_trigger_then_observation env signal observation st =
     (case signal of
        Some (sha, at) \<Rightarrow>
         (case ce_trigger env of
            TriggerCancelled \<Rightarrow> (SendCancelled, st)
          | TriggerClosed \<Rightarrow> (TriggerChannelClosed, st)
          | TriggerQueued \<Rightarrow>
             (let st = emit (SentTrigger sha at) st
              in if \<not> ce_state_open env then (StateChannelClosed, st)
                 else (Sent, emit (SentUpdate observation) st)))
      | None \<Rightarrow>
          if \<not> ce_state_open env then (StateChannelClosed, st)
          else (Sent, emit (SentUpdate observation) st))"

definition maybe_clear_last_error :: "'j poll_params \<Rightarrow> ('x, 'oid) loop_state \<Rightarrow> ('x, 'oid) loop_state" where
  "maybe_clear_last_error params st =
     (if \<not> pl_error_cleared st
      then st\<lparr>pl_errors := (pl_errors st)(pp_flow_name params := None), pl_error_cleared := True\<rparr>
      else st)"

definition unborn_ref_message :: "string \<Rightarrow> string \<Rightarrow> string \<Rightarrow> string" where
  "unborn_ref_message flow url ref_name =
     ''ref '' @ ref_name @ '' not found at '' @ url @ '' '' @ em_dash @
     '' verify the ref exists upstream, wait if it'' @ [CHR 0x27] @ ''s still being pushed, or update flow.'' @
     flow @ ''.source.ref''"

text \<open>
  The \<open>expect\<close> on the elapsed time is the result \<open>None\<close>; \<open>is_cooled_down_total\<close> below shows that
  it never happens.
\<close>

definition is_cooled_down :: "instant option \<Rightarrow> instant \<Rightarrow> duration \<Rightarrow> bool option" where
  "is_cooled_down dispatched_at now cd =
     (case dispatched_at of
        None \<Rightarrow> Some True
      | Some t \<Rightarrow>
          if now < t then Some True
          else map_option (\<lambda>elapsed. elapsed \<ge> cd) (to_std (now - t)))"

text \<open>\<open>chrono::Duration::from_std\<close> fails beyond \<open>i64::MAX\<close> milliseconds.\<close>

definition chrono_from_std :: "duration \<Rightarrow> int option" where
  "chrono_from_std d = (if d \<le> (2 ^ 63 - 1) * 1000000 then Some (int d) else None)"

definition record_poll_failure ::
  "'j poll_params \<Rightarrow> 'net cycle_env \<Rightarrow> string \<Rightarrow> ('x, 'oid) loop_state \<Rightarrow> ('x, 'oid) loop_state" where
  "record_poll_failure params env message st =
     st\<lparr>pl_errors := record_last_error (pl_errors st) (pp_flow_name params) (ce_error_now env)
          ''git_poll_failed'' message None,
        pl_error_cleared := False\<rparr>"

definition handle_refreshed ::
  "'j poll_params \<Rightarrow> 'net cycle_env \<Rightarrow> 'oid \<Rightarrow> ('x, 'oid) loop_state \<Rightarrow> cycle_action \<times> ('x, 'oid) loop_state" where
  "handle_refreshed params env sha st =
     (let now = ce_now env; diff = compare_sha (pl_last_sha st) sha
      in if diff_trigger diff then
           (let cooled_down = is_cooled_down (pl_last_dispatched_at st) now (cooldown (pp_effective params))
            in if cooled_down = Some True then
                 (let until = map_option (\<lambda>d. now + d) (chrono_from_std (cooldown (pp_effective params)));
                      observation = PollObservation (pp_flow_name params) sha now (Some now) until
                  in case send_trigger_then_observation env (Some (sha, now)) observation st of
                       (Sent, st) \<Rightarrow>
                         (ContinueCycle, maybe_clear_last_error params
                            (st\<lparr>pl_last_dispatched_at := Some now, pl_last_sha := Some (diff_observed diff)\<rparr>))
                     | (_, st) \<Rightarrow> (ReturnCycle, st))
               else
                 (case send_state_or_exit env (PollTimestamp (pp_flow_name params) now) st of
                    (False, st) \<Rightarrow> (ReturnCycle, st)
                  | (True, st) \<Rightarrow> (ContinueCycle, maybe_clear_last_error params st)))
         else
           (case send_state_or_exit env (PollObservation (pp_flow_name params) sha now None None) st of
              (False, st) \<Rightarrow> (ReturnCycle, st)
            | (True, st) \<Rightarrow>
                (ContinueCycle, maybe_clear_last_error params (st\<lparr>pl_last_sha := Some (diff_observed diff)\<rparr>))))"

definition handle_unchanged ::
  "'j poll_params \<Rightarrow> 'net cycle_env \<Rightarrow> ('x, 'oid) loop_state \<Rightarrow> cycle_action \<times> ('x, 'oid) loop_state" where
  "handle_unchanged params env st =
     (case send_state_or_exit env (PollTimestamp (pp_flow_name params) (ce_now env)) st of
        (False, st) \<Rightarrow> (ReturnCycle, st)
      | (True, st) \<Rightarrow> (ContinueCycle, maybe_clear_last_error params st))"

definition handle_unborn_ref ::
  "'j poll_params \<Rightarrow> 'net cycle_env \<Rightarrow> ('x, 'oid) loop_state \<Rightarrow> cycle_action \<times> ('x, 'oid) loop_state" where
  "handle_unborn_ref params env st =
     (case send_state_or_exit env (PollTimestamp (pp_flow_name params) (ce_now env)) st of
        (False, st) \<Rightarrow> (ReturnCycle, st)
      | (True, st) \<Rightarrow>
          (ContinueCycle, record_poll_failure params env
             (unborn_ref_message (pp_flow_name params) (pp_url params) (pp_ref_name params)) st))"

type_synonym ('net, 'x, 'oid) executor = "'net \<Rightarrow> 'x \<Rightarrow> (poll_cycle_error + 'oid poll_outcome) \<times> 'x"

definition sleep_or_cancel :: "'net cycle_env \<Rightarrow> bool" where
  "sleep_or_cancel env = ce_sleep_done env"

definition acquire_rate_or_cancel :: "'j poll_params \<Rightarrow> 'net cycle_env \<Rightarrow> bool" where
  "acquire_rate_or_cancel params env = (if \<not> pp_rate_bucket params then True else ce_rate_done env)"

text \<open>The body of the loop in \<open>run_with_executor\<close>: the dispatch on the outcome, and the whole iteration.\<close>

fun handle_outcome ::
  "'j poll_params \<Rightarrow> 'net cycle_env \<Rightarrow> poll_cycle_error + 'oid poll_outcome \<Rightarrow> ('x, 'oid) loop_state
     \<Rightarrow> cycle_action \<times> ('x, 'oid) loop_state"
where
  "handle_outcome params env (Inl CycleCancelled) st = (ReturnCycle, st)"
| "handle_outcome params env (Inl (CycleFailed message)) st =
     (ContinueCycle, record_poll_failure params env message st)"
| "handle_outcome params env (Inr (Refreshed sha)) st = handle_refreshed params env sha st"
| "handle_outcome params env (Inr Unchanged) st = handle_unchanged params env st"
| "handle_outcome params env (Inr UnbornRef) st = handle_unborn_ref params env st"

definition poll_iteration ::
  "('net, 'x, 'oid) executor \<Rightarrow> 'j poll_params \<Rightarrow> 'net cycle_env \<Rightarrow> ('x, 'oid) loop_state
     \<Rightarrow> cycle_action \<times> ('x, 'oid) loop_state"
where
  "poll_iteration exec params env st =
     (if \<not> sleep_or_cancel env then (ReturnCycle, st)
      else if \<not> acquire_rate_or_cancel params env then (ReturnCycle, st)
      else let (outcome, x) = exec (ce_net env) (pl_exec st); st = st\<lparr>pl_exec := x\<rparr>
           in handle_outcome params env outcome st)"

fun poll_loop ::
  "('net, 'x, 'oid) executor \<Rightarrow> 'j poll_params \<Rightarrow> 'net cycle_env list \<Rightarrow> ('x, 'oid) loop_state
     \<Rightarrow> cycle_action \<times> ('x, 'oid) loop_state"
where
  "poll_loop exec params [] st = (ContinueCycle, st)"
| "poll_loop exec params (env # envs) st =
     (case poll_iteration exec params env st of
        (ReturnCycle, st) \<Rightarrow> (ReturnCycle, st)
      | (ContinueCycle, st) \<Rightarrow> poll_loop exec params envs st)"

definition initial_loop :: "'oid option \<Rightarrow> instant option \<Rightarrow> last_errors \<Rightarrow> 'x \<Rightarrow> ('x, 'oid) loop_state" where
  "initial_loop sha0 dispatched0 errors x =
     \<lparr>pl_last_sha = sha0, pl_last_dispatched_at = dispatched0, pl_error_cleared = False,
      pl_errors = errors, pl_exec = x, pl_log = []\<rparr>"

definition run_with_executor ::
  "('net, 'x, 'oid) executor \<Rightarrow> 'j poll_params \<Rightarrow> 'oid option \<Rightarrow> instant option \<Rightarrow> last_errors \<Rightarrow> 'x
     \<Rightarrow> 'net cycle_env list \<Rightarrow> cycle_action \<times> ('x, 'oid) loop_state"
where
  "run_with_executor exec params sha0 dispatched0 errors x envs =
     poll_loop exec params envs (initial_loop sha0 dispatched0 errors x)"

lemma is_cooled_down_total: "is_cooled_down d now cd \<noteq> None"
  by (auto simp: is_cooled_down_def to_std_def split: option.split)

lemma is_cooled_down_iff:
  "is_cooled_down d now cd = Some True \<longleftrightarrow> (\<forall>t. d = Some t \<longrightarrow> now < t \<or> t + int cd \<le> now)"
  by (auto simp: is_cooled_down_def to_std_def split: option.split)

section \<open>Specification: what one cycle may send\<close>

text \<open>
  The abstract loop knows the last recorded SHA and the last dispatch. A cycle sends nothing,
  or a timestamp; or it records a SHA that needs no dispatch; or it triggers a dispatch and
  records it; or it triggers and then finds the state channel closed, which ends the loop.
\<close>

type_synonym 'oid poll_view = "'oid option \<times> instant option"

definition pl_view :: "('x, 'oid) loop_state \<Rightarrow> 'oid poll_view" where
  [simp]: "pl_view st = (pl_last_sha st, pl_last_dispatched_at st)"

inductive poll_step ::
  "string \<Rightarrow> duration \<Rightarrow> 'oid poll_view \<Rightarrow> instant \<Rightarrow> 'oid poll_effect list \<Rightarrow> bool \<Rightarrow> 'oid poll_view \<Rightarrow> bool"
  for f :: string and cd :: duration
where
  silent: "poll_step f cd v now [] go v"
| timestamp: "poll_step f cd v now [SentUpdate (PollTimestamp f now)] True v"
| observe: "sha0 = None \<or> sha0 = Some sha
    \<Longrightarrow> poll_step f cd (sha0, d) now [SentUpdate (PollObservation f sha now None None)] True (Some sha, d)"
| trigger: "p \<noteq> sha \<Longrightarrow> is_cooled_down d now cd = Some True
    \<Longrightarrow> poll_step f cd (Some p, d) now
          [SentTrigger sha now, SentUpdate (PollObservation f sha now (Some now) until)] True (Some sha, Some now)"
| trigger_unrecorded: "p \<noteq> sha \<Longrightarrow> is_cooled_down d now cd = Some True
    \<Longrightarrow> poll_step f cd (Some p, d) now [SentTrigger sha now] False (Some p, d)"

inductive_cases poll_stepE: "poll_step f cd v now log go v'"

inductive poll_trace ::
  "string \<Rightarrow> duration \<Rightarrow> 'oid poll_view \<Rightarrow> instant list \<Rightarrow> 'oid poll_effect list \<Rightarrow> bool \<Rightarrow> 'oid poll_view \<Rightarrow> bool"
  for f :: string and cd :: duration
where
  finished: "poll_trace f cd v [] [] True v"
| stopped: "poll_step f cd v t log False v' \<Longrightarrow> poll_trace f cd v (t # ts) log False v'"
| continued: "poll_step f cd v t log True v' \<Longrightarrow> poll_trace f cd v' ts log' go v''
    \<Longrightarrow> poll_trace f cd v (t # ts) (log @ log') go v''"

lemmas handler_defs = handle_refreshed_def handle_unchanged_def handle_unborn_ref_def
  send_state_or_exit_def send_trigger_then_observation_def maybe_clear_last_error_def
  record_poll_failure_def emit_def Let_def

lemma handle_refreshed_step:
  assumes "handle_refreshed params env sha st = (act, st')"
  shows "\<exists>log. pl_log st' = pl_log st @ log \<and> poll_step (pp_flow_name params) (cooldown (pp_effective params))
    (pl_view st) (ce_now env) log (act = ContinueCycle) (pl_view st')"
proof (cases "diff_trigger (compare_sha (pl_last_sha st) sha)")
  case False
  then have "pl_last_sha st = None \<or> pl_last_sha st = Some sha"
    by (cases "pl_last_sha st") auto
  with assms False show ?thesis
    by (auto simp: handler_defs intro: poll_step.silent poll_step.observe split: if_splits)
next
  case True
  then obtain p where p: "pl_last_sha st = Some p" "p \<noteq> sha" by auto
  show ?thesis
  proof (cases "is_cooled_down (pl_last_dispatched_at st) (ce_now env) (cooldown (pp_effective params)) = Some True")
    case True
    with assms p show ?thesis
      by (auto simp: handler_defs intro: poll_step.silent poll_step.trigger poll_step.trigger_unrecorded
          split: if_splits trigger_send.splits)
  next
    case False
    with assms p show ?thesis
      by (auto simp: handler_defs intro: poll_step.silent poll_step.timestamp split: if_splits)
  qed
qed

lemma poll_iteration_step:
  assumes "poll_iteration exec params env st = (act, st')"
  shows "\<exists>log. pl_log st' = pl_log st @ log \<and> poll_step (pp_flow_name params) (cooldown (pp_effective params))
    (pl_view st) (ce_now env) log (act = ContinueCycle) (pl_view st')"
proof (cases "\<not> sleep_or_cancel env \<or> \<not> acquire_rate_or_cancel params env")
  case True
  with assms show ?thesis by (auto simp: poll_iteration_def intro: poll_step.silent split: if_splits)
next
  case False
  obtain out x where x: "exec (ce_net env) (pl_exec st) = (out, x)" by force
  show ?thesis
  proof (cases "\<exists>sha. out = Inr (Refreshed sha)")
    case True
    with assms False x obtain sha where "handle_refreshed params env sha (st\<lparr>pl_exec := x\<rparr>) = (act, st')"
      by (auto simp: poll_iteration_def)
    from handle_refreshed_step [OF this] show ?thesis by simp
  next
    case no: False
    with assms False x show ?thesis
      by (auto simp: poll_iteration_def handler_defs intro: poll_step.silent poll_step.timestamp
          elim!: handle_outcome.elims split: if_splits)
  qed
qed

text \<open>The loop refines the specification, whatever the executor.\<close>

lemma poll_loop_trace:
  assumes "poll_loop exec params envs st = (act, st')"
  shows "\<exists>log. pl_log st' = pl_log st @ log \<and> poll_trace (pp_flow_name params) (cooldown (pp_effective params))
    (pl_view st) (map ce_now envs) log (act = ContinueCycle) (pl_view st')"
  using assms
proof (induction envs arbitrary: st)
  case Nil
  then show ?case by (auto intro: poll_trace.finished)
next
  case (Cons env envs)
  obtain a st1 where 1: "poll_iteration exec params env st = (a, st1)" by force
  from poll_iteration_step [OF 1] obtain log where log: "pl_log st1 = pl_log st @ log"
    "poll_step (pp_flow_name params) (cooldown (pp_effective params)) (pl_view st) (ce_now env) log
       (a = ContinueCycle) (pl_view st1)" by blast
  show ?case
  proof (cases a)
    case ReturnCycle
    with Cons.prems 1 log show ?thesis by (auto intro: poll_trace.stopped)
  next
    case ContinueCycle
    with Cons.prems 1 have "poll_loop exec params envs st1 = (act, st')" by simp
    from Cons.IH [OF this] log ContinueCycle show ?thesis
      by (auto intro: poll_trace.continued)
  qed
qed

corollary run_with_executor_trace:
  assumes "run_with_executor exec params sha0 d0 errors x envs = (act, st)"
  shows "poll_trace (pp_flow_name params) (cooldown (pp_effective params)) (sha0, d0) (map ce_now envs)
    (pl_log st) (act = ContinueCycle) (pl_view st)"
  using poll_loop_trace [OF assms [unfolded run_with_executor_def]] by (auto simp: initial_loop_def)

section \<open>Consequences of the specification\<close>

text \<open>The messages of a log by kind.\<close>

fun trigger_times :: "'oid poll_effect list \<Rightarrow> instant list" where
  "trigger_times [] = []"
| "trigger_times (SentTrigger _ t # es) = t # trigger_times es"
| "trigger_times (SentUpdate _ # es) = trigger_times es"

fun trigger_shas :: "'oid poll_effect list \<Rightarrow> 'oid list" where
  "trigger_shas [] = []"
| "trigger_shas (SentTrigger sha _ # es) = sha # trigger_shas es"
| "trigger_shas (SentUpdate _ # es) = trigger_shas es"

fun sent_updates :: "'oid poll_effect list \<Rightarrow> 'oid state_update list" where
  "sent_updates [] = []"
| "sent_updates (SentTrigger _ _ # es) = sent_updates es"
| "sent_updates (SentUpdate u # es) = u # sent_updates es"

fun observed_shas :: "'oid state_update list \<Rightarrow> 'oid list" where
  "observed_shas [] = []"
| "observed_shas (PollObservation _ sha _ _ _ # us) = sha # observed_shas us"
| "observed_shas (_ # us) = observed_shas us"

lemma trigger_times_append [simp]: "trigger_times (a @ b) = trigger_times a @ trigger_times b"
  by (induction a rule: trigger_times.induct) auto

lemma trigger_shas_append [simp]: "trigger_shas (a @ b) = trigger_shas a @ trigger_shas b"
  by (induction a rule: trigger_shas.induct) auto

lemma sent_updates_append [simp]: "sent_updates (a @ b) = sent_updates a @ sent_updates b"
  by (induction a rule: sent_updates.induct) auto

lemma observed_shas_append [simp]: "observed_shas (a @ b) = observed_shas a @ observed_shas b"
  by (induction a rule: observed_shas.induct) auto

lemma trigger_shas_mem: "sha \<in> set (trigger_shas log) \<longleftrightarrow> (\<exists>t. SentTrigger sha t \<in> set log)"
  by (induction log rule: trigger_shas.induct) auto

text \<open>Successive dispatches keep the cooldown when the clock does not go back.\<close>

lemma trace_spaced:
  assumes "poll_trace f cd v ts log go v'" and "sorted ts" and "\<forall>t. snd v = Some t \<longrightarrow> (\<forall>u \<in> set ts. t \<le> u)"
  shows "successively (\<lambda>a b. a + int cd \<le> b) ((case snd v of None \<Rightarrow> [] | Some t \<Rightarrow> [t]) @ trigger_times log)"
  using assms
proof (induction rule: poll_trace.induct)
  case (finished v)
  then show ?case by (cases "snd v") auto
next
  case (stopped v t log v' ts)
  then show ?case
    by (auto elim!: poll_stepE simp: is_cooled_down_iff split: option.split)
next
  case (continued v t log v' ts log' go v'')
  from continued.hyps(1) show ?case
  proof (cases rule: poll_step.cases)
    case (trigger p sha d until)
    with continued show ?thesis by (auto simp: is_cooled_down_iff split: option.split)
  qed (use continued in auto)
qed

text \<open>The recorded SHA moves from one value to another only by a dispatch.\<close>

lemma trace_sha_chain:
  assumes "poll_trace f cd v ts log go v'" and "go" and "fst v = Some p"
  shows "p # trigger_shas log = remdups_adj (p # observed_shas (sent_updates log))"
  using assms
proof (induction arbitrary: p rule: poll_trace.induct)
  case (continued v t log v' ts log' go v'')
  from continued.hyps(1) show ?case
  proof (cases rule: poll_step.cases)
    case (trigger q sha d until)
    with continued.IH [of sha] continued.prems show ?thesis by simp
  next
    case (observe sha0 sha d)
    with continued.IH [of sha] continued.prems show ?thesis by auto
  qed (use continued in auto)
qed auto

text \<open>The loop's local copy agrees with what the sent updates make of the persistent state.\<close>

definition persisted_view :: "state \<Rightarrow> string \<Rightarrow> string option \<times> instant option" where
  "persisted_view s f = (let e = entry_or_default s f in (last_sha e, last_dispatched_at e))"

definition hex_view :: "('oid \<Rightarrow> string) \<Rightarrow> 'oid poll_view \<Rightarrow> string option \<times> instant option" where
  "hex_view to_hex v = (map_option to_hex (fst v), snd v)"

lemma step_sync:
  assumes "poll_step f cd v t log go v'" and "persisted_view s f = hex_view to_hex v"
  shows "persisted_view (foldl (apply_update to_hex) s (sent_updates log)) f = hex_view to_hex v'"
  using assms
  by (cases rule: poll_step.cases) (auto simp: persisted_view_def hex_view_def apply_defs split: option.splits)

lemma trace_sync:
  assumes "poll_trace f cd v ts log go v'" and "persisted_view s f = hex_view to_hex v"
  shows "persisted_view (foldl (apply_update to_hex) s (sent_updates log)) f = hex_view to_hex v'"
  using assms
  by (induction arbitrary: s rule: poll_trace.induct) (auto dest: step_sync)

text \<open>A dispatch is recorded only after its trigger has been queued.\<close>

lemma step_announced:
  assumes "poll_step f cd v t log go v'"
    and "log = pre @ SentUpdate (PollObservation g sha at (Some d) until) # post"
  shows "SentTrigger sha d \<in> set pre"
  using assms by (cases rule: poll_step.cases) (auto simp: Cons_eq_append_conv)

lemma trace_announced:
  assumes "poll_trace f cd v ts log go v'"
    and "log = pre @ SentUpdate (PollObservation g sha at (Some d) until) # post"
  shows "SentTrigger sha d \<in> set pre"
  using assms
proof (induction arbitrary: pre rule: poll_trace.induct)
  case (continued v t log v' ts log' go v'')
  let ?u = "SentUpdate (PollObservation g sha at (Some d) until)"
  from continued.prems obtain us where
    "log = pre @ us \<and> us @ log' = ?u # post \<or> log @ us = pre \<and> log' = us @ ?u # post"
    by (auto simp: append_eq_append_conv2)
  then consider "us = []" "log' = [] @ ?u # post" "pre = log" | r where "log = pre @ ?u # r"
    | "pre = log @ us" "log' = us @ ?u # post"
    by (cases us) auto
  then show ?case
    using continued.IH step_announced [OF continued.hyps(1)] by cases fastforce+
qed (auto dest: step_announced)

lemma announced_persisted:
  assumes "\<And>pre g sha at d until post. log = pre @ SentUpdate (PollObservation g sha at (Some d) until) # post
      \<Longrightarrow> SentTrigger sha d \<in> set pre"
    and "last_dispatched_at (entry_or_default (foldl (apply_update to_hex) s (sent_updates log)) f) = Some t"
    and "\<And>g. FlowRemoved g \<notin> set (sent_updates log)"
  shows "last_dispatched_at (entry_or_default s f) = Some t \<or> (\<exists>sha. SentTrigger sha t \<in> set log)"
  using assms
proof (induction log rule: rev_induct)
  case Nil
  then show ?case by simp
next
  case (snoc x log)
  let ?s = "foldl (apply_update to_hex) s (sent_updates log)"
  have old: "last_dispatched_at (entry_or_default ?s f) = Some t \<Longrightarrow> ?case"
    using snoc.IH snoc.prems(1,3) by fastforce
  show ?case
  proof (cases x)
    case (SentTrigger sha u)
    with snoc.prems(2) old show ?thesis by simp
  next
    case (SentUpdate u)
    show ?thesis
    proof (cases "\<exists>g sha at d until. u = PollObservation g sha at (Some d) until \<and> g = f")
      case True
      then obtain sha at d until where u: "u = PollObservation f sha at (Some d) until" by blast
      with SentUpdate snoc.prems(1) [of log f sha at d until "[]"] have "SentTrigger sha d \<in> set log" by simp
      moreover from snoc.prems(2) SentUpdate u have "d = t" by (simp add: apply_defs split: if_splits)
      ultimately show ?thesis by auto
    next
      case False
      with snoc.prems(2,3) SentUpdate have "last_dispatched_at (entry_or_default ?s f) = Some t"
        by (cases u) (auto simp: apply_defs default_flow_state_def split: option.splits if_splits)
      then show ?thesis by (rule old)
    qed
  qed
qed

lemma trace_no_removal:
  assumes "poll_trace f cd v ts log go v'"
  shows "FlowRemoved g \<notin> set (sent_updates log)"
  using assms by (induction rule: poll_trace.induct) (auto elim: poll_stepE)

section \<open>Executors that resolve the ref on every cycle\<close>

text \<open>
  A cycle is served when no wait was cancelled and both channels accept. An executor whose
  answer depends on the network alone lets the loop retry: a change
  held back by the cooldown, or hidden by failing cycles, is still there at the next cycle.
\<close>

definition served :: "'net cycle_env \<Rightarrow> bool" where
  "served env \<longleftrightarrow> ce_sleep_done env \<and> ce_rate_done env \<and> ce_trigger env = TriggerQueued \<and> ce_state_open env"

lemma served_iteration:
  "served env \<Longrightarrow> poll_iteration exec params env st =
     (case exec (ce_net env) (pl_exec st) of (outcome, x) \<Rightarrow> handle_outcome params env outcome (st\<lparr>pl_exec := x\<rparr>))"
  by (simp add: poll_iteration_def served_def sleep_or_cancel_def acquire_rate_or_cancel_def)

lemma served_change_cooled:
  assumes "served env" and "pl_last_sha st = Some p" and "p \<noteq> sha"
    and "is_cooled_down (pl_last_dispatched_at st) (ce_now env) (cooldown (pp_effective params)) = Some True"
  shows "\<exists>st'. handle_refreshed params env sha st = (ContinueCycle, st') \<and> pl_last_sha st' = Some sha
    \<and> SentTrigger sha (ce_now env) \<in> set (pl_log st')"
  using assms by (simp add: served_def handler_defs)

lemma served_change_held:
  assumes "served env" and "pl_last_sha st = Some p" and "p \<noteq> sha"
    and "is_cooled_down (pl_last_dispatched_at st) (ce_now env) (cooldown (pp_effective params)) \<noteq> Some True"
  shows "\<exists>st'. handle_refreshed params env sha st = (ContinueCycle, st') \<and> pl_view st' = pl_view st
    \<and> set (pl_log st) \<subseteq> set (pl_log st')"
  using assms by (auto simp: served_def handler_defs)

lemma served_no_change:
  assumes "served env" and "pl_last_sha st = Some sha"
  shows "\<exists>st'. handle_refreshed params env sha st = (ContinueCycle, st') \<and> pl_last_sha st' = Some sha
    \<and> set (pl_log st) \<subseteq> set (pl_log st')"
  using assms by (auto simp: served_def handler_defs)

locale resolving_executor =
  fixes exec :: "('net, 'x, 'oid) executor"
    and resolve :: "'net \<Rightarrow> poll_cycle_error + 'oid poll_outcome"
  assumes exec_resolves: "fst (exec net x) = resolve net"
begin

lemma resolved_iteration:
  assumes "served env"
  obtains x where "poll_iteration exec params env st =
    handle_outcome params env (resolve (ce_net env)) (st\<lparr>pl_exec := x\<rparr>)"
proof -
  obtain out x where "exec (ce_net env) (pl_exec st) = (out, x)" by force
  with exec_resolves [of "ce_net env" "pl_exec st"] show ?thesis
    by (intro that [of x]) (simp add: served_iteration [OF assms])
qed

text \<open>
  The ref stays at \<open>sha\<close> and cycles fail at worst: either the dispatch is out, or nothing has
  been forgotten.
\<close>

lemma change_kept_iteration:
  assumes "served env" and "resolve (ce_net env) = Inr (Refreshed sha) \<or> (\<exists>m. resolve (ce_net env) = Inl (CycleFailed m))"
    and "pl_last_sha st = Some p" and "p \<noteq> sha"
  shows "\<exists>st'. poll_iteration exec params env st = (ContinueCycle, st') \<and>
    (pl_view st' = pl_view st \<or> pl_last_sha st' = Some sha \<and> (\<exists>t. SentTrigger sha t \<in> set (pl_log st')))"
proof -
  obtain x where x: "poll_iteration exec params env st =
    handle_outcome params env (resolve (ce_net env)) (st\<lparr>pl_exec := x\<rparr>)"
    by (rule resolved_iteration [OF assms(1)])
  consider m where "resolve (ce_net env) = Inl (CycleFailed m)" | "resolve (ce_net env) = Inr (Refreshed sha)"
    using assms(2) by blast
  then show ?thesis
  proof cases
    case 1
    with x show ?thesis by (simp add: record_poll_failure_def)
  next
    case 2
    with x served_change_cooled [of env "st\<lparr>pl_exec := x\<rparr>" p sha params]
      served_change_held [of env "st\<lparr>pl_exec := x\<rparr>" p sha params] assms
    show ?thesis by fastforce
  qed
qed

lemma fired_kept_iteration:
  assumes "served env" and "resolve (ce_net env) = Inr (Refreshed sha) \<or> (\<exists>m. resolve (ce_net env) = Inl (CycleFailed m))"
    and "pl_last_sha st = Some sha"
  shows "\<exists>st'. poll_iteration exec params env st = (ContinueCycle, st') \<and> pl_last_sha st' = Some sha
    \<and> set (pl_log st) \<subseteq> set (pl_log st')"
proof -
  obtain x where x: "poll_iteration exec params env st =
    handle_outcome params env (resolve (ce_net env)) (st\<lparr>pl_exec := x\<rparr>)"
    by (rule resolved_iteration [OF assms(1)])
  consider m where "resolve (ce_net env) = Inl (CycleFailed m)" | "resolve (ce_net env) = Inr (Refreshed sha)"
    using assms(2) by blast
  then show ?thesis
  proof cases
    case 1
    with x assms(3) show ?thesis by (simp add: record_poll_failure_def)
  next
    case 2
    with x served_no_change [of env "st\<lparr>pl_exec := x\<rparr>" sha params] assms show ?thesis by simp
  qed
qed

lemma pending_change_fires:
  assumes "list_all (\<lambda>env. served env \<and>
      (resolve (ce_net env) = Inr (Refreshed sha) \<or> (\<exists>m. resolve (ce_net env) = Inl (CycleFailed m)))) envs"
    and "served env" and "resolve (ce_net env) = Inr (Refreshed sha)"
    and "is_cooled_down (pl_last_dispatched_at st) (ce_now env) (cooldown (pp_effective params)) = Some True"
    and "pl_last_sha st = Some p" and "p \<noteq> sha"
  shows "\<exists>st' t. poll_loop exec params (envs @ [env]) st = (ContinueCycle, st')
    \<and> pl_last_sha st' = Some sha \<and> SentTrigger sha t \<in> set (pl_log st')"
proof -
  let ?fired = "\<lambda>st'. pl_last_sha st' = Some sha \<and> (\<exists>t. SentTrigger sha t \<in> set (pl_log st'))"
  have after: "\<exists>st'. poll_loop exec params (es @ [env]) s = (ContinueCycle, st') \<and> ?fired st'"
    if "?fired s" and "list_all (\<lambda>env. served env \<and>
      (resolve (ce_net env) = Inr (Refreshed sha) \<or> (\<exists>m. resolve (ce_net env) = Inl (CycleFailed m)))) es" for es s
    using that
  proof (induction es arbitrary: s)
    case Nil
    with fired_kept_iteration [of env sha s params] assms(2,3) show ?case by fastforce
  next
    case (Cons e es)
    with fired_kept_iteration [of e sha s params] obtain s1 where
      s1: "poll_iteration exec params e s = (ContinueCycle, s1)" "?fired s1" by fastforce
    with Cons show ?case by simp
  qed
  show ?thesis
    using assms(1,4,5)
  proof (induction envs arbitrary: st)
    case Nil
    obtain x where "poll_iteration exec params env st = handle_refreshed params env sha (st\<lparr>pl_exec := x\<rparr>)"
      using resolved_iteration [OF assms(2), of params st] assms(3) by fastforce
    with served_change_cooled [of env "st\<lparr>pl_exec := x\<rparr>" p sha params] assms(2,6) Nil show ?case by fastforce
  next
    case (Cons e es)
    then obtain s1 where s1: "poll_iteration exec params e st = (ContinueCycle, s1)"
      and c: "pl_view s1 = pl_view st \<or> ?fired s1"
      using change_kept_iteration [of e sha st p params] assms(6) by fastforce
    from c show ?case
    proof
      assume "pl_view s1 = pl_view st"
      with Cons s1 show ?thesis by simp
    next
      assume "?fired s1"
      with after [of s1 es] Cons.prems s1 show ?thesis by auto
    qed
  qed
qed

end

text \<open>Production executors: ls-refs and the refs API resolve on every cycle.\<close>

definition resolve_now ::
  "'oid hex \<Rightarrow> poll_strategy \<Rightarrow> source_params \<Rightarrow> 'oid cycle_net \<Rightarrow> poll_cycle_error + 'oid poll_outcome" where
  "resolve_now hex strategy sp net = fst (poll_one hex strategy sp net None)"

interpretation ls_remote_exec: resolving_executor "poll_one hex LsRemote sp" "resolve_now hex LsRemote sp"
  for hex :: "'oid hex" and sp
  by unfold_locales (simp add: resolve_now_def poll_one.simps)

interpretation github_exec: resolving_executor "poll_one hex GithubApi sp" "resolve_now hex GithubApi sp"
  for hex :: "'oid hex" and sp
  by unfold_locales (simp add: resolve_now_def poll_one.simps split: sum.split raced.split)

section \<open>The manifest strategy\<close>

lemma served_unchanged:
  "served env \<Longrightarrow> \<exists>st'. handle_unchanged params env st = (ContinueCycle, st') \<and> pl_view st' = pl_view st
     \<and> pl_exec st' = pl_exec st \<and> trigger_shas (pl_log st') = trigger_shas (pl_log st)"
  by (simp add: served_def handler_defs)

lemma cached_fingerprint_silent:
  assumes "list_all (\<lambda>env. served env \<and> manifest_shows sp (ce_net env) fp) envs" and "pl_exec st = Some fp"
  shows "\<exists>st'. poll_loop (poll_one hex Grokmirror sp) params envs st = (ContinueCycle, st')
    \<and> pl_view st' = pl_view st \<and> trigger_shas (pl_log st') = trigger_shas (pl_log st)"
  using assms
proof (induction envs arbitrary: st)
  case Nil
  then show ?case by simp
next
  case (Cons env envs)
  from Cons.prems served_unchanged [of env params "st\<lparr>pl_exec := Some fp\<rparr>"] obtain st1 where
    "poll_iteration (poll_one hex Grokmirror sp) params env st = (ContinueCycle, st1)"
    "pl_view st1 = pl_view st" "pl_exec st1 = Some fp" "trigger_shas (pl_log st1) = trigger_shas (pl_log st)"
    by (auto simp: served_iteration poll_one_manifest_shows)
  with Cons.IH [of st1] Cons.prems show ?case by simp
qed

text \<open>A ref that stays at the recorded SHA triggers nothing.\<close>

definition only_resolves :: "('net, 'x, 'oid) executor \<Rightarrow> 'oid \<Rightarrow> 'net cycle_env \<Rightarrow> bool" where
  "only_resolves exec sha env \<longleftrightarrow> (\<forall>x s. fst (exec (ce_net env) x) = Inr (Refreshed s) \<longrightarrow> s = sha)"

lemma same_sha_outcome:
  assumes "handle_outcome params env out st = (act, st')" and "pl_last_sha st = Some sha"
    and "\<And>s. out = Inr (Refreshed s) \<Longrightarrow> s = sha"
  shows "pl_last_sha st' = Some sha \<and> trigger_shas (pl_log st') = trigger_shas (pl_log st)"
proof (cases "(params, env, out, st)" rule: handle_outcome.cases)
  case (3 params env sha' st)
  with assms show ?thesis by (auto simp: handler_defs split: if_splits)
qed (use assms in \<open>auto simp: handler_defs split: if_splits\<close>)

lemma same_sha_iteration:
  assumes "poll_iteration exec params env st = (act, st')" and "pl_last_sha st = Some sha" and "only_resolves exec sha env"
  shows "pl_last_sha st' = Some sha \<and> trigger_shas (pl_log st') = trigger_shas (pl_log st)"
proof (cases "sleep_or_cancel env \<and> acquire_rate_or_cancel params env")
  case False
  with assms(1,2) show ?thesis by (auto simp: poll_iteration_def split: if_splits)
next
  case True
  obtain out x where x: "exec (ce_net env) (pl_exec st) = (out, x)" by force
  with assms(3) have only: "out = Inr (Refreshed s) \<Longrightarrow> s = sha" for s
    by (metis fst_conv only_resolves_def)
  from True assms(1) x have "handle_outcome params env out (st\<lparr>pl_exec := x\<rparr>) = (act, st')"
    by (simp add: poll_iteration_def)
  from same_sha_outcome [OF this _ only] assms(2) show ?thesis by simp
qed

lemma same_sha_loop:
  assumes "poll_loop exec params envs st = (act, st')" and "pl_last_sha st = Some sha" and "list_all (only_resolves exec sha) envs"
  shows "trigger_shas (pl_log st') = trigger_shas (pl_log st)"
  using assms
proof (induction envs arbitrary: st)
  case Nil
  then show ?case by simp
next
  case (Cons env envs)
  obtain a st1 where it: "poll_iteration exec params env st = (a, st1)" by force
  with same_sha_iteration [OF it] Cons show ?case by (cases a) auto
qed

section \<open>Properties\<close>

text \<open>
  The example of the witnesses: an ls-refs flow with a cooldown of ten seconds, polled while its
  branch moves from object 1 to object 2 and then to object 3.
\<close>

definition example_params :: "unit poll_params" where
  "example_params = \<lparr>pp_flow_name = ''ci'', pp_url = ''https://example.org/r'', pp_ref_name = ''refs/heads/main'',
     pp_effective = \<lparr>source_interval = from_secs 60, job_interval = from_secs 30, jitter = (), cooldown = 10\<rparr>,
     pp_rate_bucket = False\<rparr>"

definition example_source :: source_params where
  "example_source = \<lparr>sp_ref_name = ''refs/heads/main'', sp_octo = False, sp_reqwest = True, sp_segments = Inr None,
     sp_base_url = Some ''https://git.kernel.org'', sp_url = ''https://git.kernel.org/r'', sp_path = Inr ''/r''\<rparr>"

definition example_hex :: "nat hex" where
  "example_hex = (\<lambda>s. Inr (length s), \<lambda>s. s)"

definition example_net :: "(string + nat remote_ref list) \<Rightarrow> nat cycle_net" where
  "example_net refs = \<lparr>net_github = Overtaken,
     net_manifest = Finished (Inr [''/r'' \<mapsto> \<lparr>re_fingerprint = ''f2'', re_modified = None\<rparr>]),
     net_ls_remote = Finished refs\<rparr>"

definition example_env :: "instant \<Rightarrow> (string + nat remote_ref list) \<Rightarrow> nat cycle_net cycle_env" where
  "example_env t refs = \<lparr>ce_sleep_done = True, ce_rate_done = True, ce_net = example_net refs,
     ce_now = t, ce_error_now = t, ce_trigger = TriggerQueued, ce_state_open = True\<rparr>"

definition branch_at :: "nat \<Rightarrow> string + nat remote_ref list" where
  "branch_at n = Inr [DirectRef ''refs/heads/main'' n]"

abbreviation example_poll_run :: "cycle_action \<times> (string option, nat) loop_state" where
  "example_poll_run \<equiv> run_with_executor (poll_one example_hex LsRemote example_source) example_params (Some 1) None
     Map.empty None [example_env 0 (branch_at 2), example_env 5 (branch_at 3), example_env 12 (branch_at 3)]"

definition example_poll_end :: "(string option, nat) loop_state" where
  "example_poll_end = snd example_poll_run"

lemmas example_defs = example_params_def example_source_def example_hex_def example_net_def example_env_def
  branch_at_def

lemma example_poll_run_log:
  "example_poll_run = (ContinueCycle, example_poll_end)"
  "pl_log example_poll_end =
     [SentTrigger 2 0, SentUpdate (PollObservation ''ci'' 2 0 (Some 0) (Some 10)),
      SentUpdate (PollTimestamp ''ci'' 5),
      SentTrigger 3 12, SentUpdate (PollObservation ''ci'' 3 12 (Some 12) (Some 22))]"
  "pl_view example_poll_end = (Some 3, Some 12)"
  by (simp_all add: example_poll_end_def run_with_executor_def initial_loop_def poll_iteration_def example_defs
      sleep_or_cancel_def acquire_rate_or_cancel_def handler_defs poll_one.simps ls_remote_inline_def ls_remote_outcome_def
      is_cooled_down_def to_std_def chrono_from_std_def compare_sha_def)

text \<open>
  C2. The cooldown throttles dispatches: as long as the wall clock does not go back, any two
  successive triggers of a flow's poll loop are at least the cooldown apart, and the first one is
  at least the cooldown after the dispatch recorded before the loop started, whatever the
  executor answers and wherever the loop is cancelled.
\<close>

theorem dispatches_keep_cooldown:
  assumes "run_with_executor exec params sha0 d0 errors x envs = (act, st)"
    and "sorted (map ce_now envs)" and "\<forall>t. d0 = Some t \<longrightarrow> (\<forall>env \<in> set envs. t \<le> ce_now env)"
  shows "successively (\<lambda>a b. a + int (cooldown (pp_effective params)) \<le> b)
    ((case d0 of None \<Rightarrow> [] | Some t \<Rightarrow> [t]) @ trigger_times (pl_log st))"
  using trace_spaced [OF run_with_executor_trace [OF assms(1)]] assms(2,3) by simp

theorem dispatches_keep_cooldown_witness:
  "successively (\<lambda>a b. a + 10 \<le> b) (trigger_times (pl_log example_poll_end))"
  using dispatches_keep_cooldown [OF example_poll_run_log(1)]
  by (simp add: example_defs)

text \<open>
  C14. A dispatch is never recorded before its trigger is queued: cut the run's messages at any
  point, as a crash would, and apply the updates sent so far; a dispatch time found in the
  persistent state was there before the run or belongs to a trigger already sent.
\<close>

theorem dispatch_recorded_after_trigger:
  assumes "run_with_executor exec params sha0 d0 errors x envs = (act, st)"
    and "last_dispatched_at (entry_or_default
      (foldl (apply_update to_hex) s (sent_updates (take n (pl_log st)))) (pp_flow_name params)) = Some t"
  shows "last_dispatched_at (entry_or_default s (pp_flow_name params)) = Some t
    \<or> (\<exists>sha. SentTrigger sha t \<in> set (take n (pl_log st)))"
proof (rule announced_persisted [OF _ assms(2)])
  note trace = run_with_executor_trace [OF assms(1)]
  show "SentTrigger sha d \<in> set pre"
    if "take n (pl_log st) = pre @ SentUpdate (PollObservation g sha at (Some d) until) # post"
    for pre g sha at d until post
  proof -
    from that have "pl_log st = pre @ SentUpdate (PollObservation g sha at (Some d) until) # post @ drop n (pl_log st)"
      by (metis append_Cons append_assoc append_take_drop_id)
    with trace_announced [OF trace] show ?thesis by blast
  qed
  show "FlowRemoved g \<notin> set (sent_updates (take n (pl_log st)))" for g
    using trace_no_removal [OF trace, of g] sent_updates_append [of "take n (pl_log st)" "drop n (pl_log st)"]
    by auto
qed

theorem dispatch_recorded_after_trigger_witness:
  "last_dispatched_at (entry_or_default default_state ''ci'') = Some 0
    \<or> (\<exists>sha. SentTrigger sha 0 \<in> set (take 2 (pl_log example_poll_end)))"
  using dispatch_recorded_after_trigger [OF example_poll_run_log(1),
      of show_nat default_state 2 0]
  by (simp add: example_poll_run_log example_params_def apply_defs default_state_def)

text \<open>
  The poll loop's own copy of the last SHA and the last dispatch never drifts from the
  persistent state: if it started from the flow's entry, then at the end of any run, however it
  ended, it is what the updates sent have made of that entry.
\<close>

theorem poll_loop_state_in_sync:
  assumes "run_with_executor exec params sha0 d0 errors x envs = (act, st)"
    and "persisted_view s (pp_flow_name params) = (map_option to_hex sha0, d0)"
  shows "persisted_view (foldl (apply_update to_hex) s (sent_updates (pl_log st))) (pp_flow_name params) =
    (map_option to_hex (pl_last_sha st), pl_last_dispatched_at st)"
  using trace_sync [OF run_with_executor_trace [OF assms(1)], of s to_hex] assms(2)
  by (simp add: hex_view_def)

theorem poll_loop_state_in_sync_witness:
  "persisted_view (foldl (apply_update show_nat)
      (put_entry default_state ''ci'' (default_flow_state\<lparr>last_sha := Some (show_nat 1)\<rparr>))
      (sent_updates (pl_log example_poll_end))) ''ci'' = (Some (show_nat 3), Some 12)"
  using poll_loop_state_in_sync [OF example_poll_run_log(1),
      of "put_entry default_state ''ci'' (default_flow_state\<lparr>last_sha := Some (show_nat 1)\<rparr>)" show_nat]
    example_poll_run_log(3)
  by (simp add: persisted_view_def apply_defs default_state_def default_flow_state_def example_params_def)

text \<open>
  Every recorded change of the ref has been dispatched, once and in order: while the loop
  runs, the triggered SHAs are the recorded SHAs with adjacent repetitions removed, starting
  after the SHA known at the start.
\<close>

theorem recorded_changes_are_dispatched:
  assumes "run_with_executor exec params (Some p) d0 errors x envs = (ContinueCycle, st)"
  shows "p # trigger_shas (pl_log st) = remdups_adj (p # observed_shas (sent_updates (pl_log st)))"
  using trace_sha_chain [OF run_with_executor_trace [OF assms]] by simp

theorem recorded_changes_are_dispatched_witness:
  "1 # trigger_shas (pl_log example_poll_end) = remdups_adj (1 # observed_shas (sent_updates (pl_log example_poll_end)))"
  using recorded_changes_are_dispatched [OF example_poll_run_log(1)] .

text \<open>
  C22. With a strategy that resolves the ref on every cycle no change is lost: while the ref
  stays at a SHA other than the recorded one, through any number of cycles that fail or are
  held back by the cooldown, the loop keeps running, and by the first served cycle after the
  cooldown it has triggered and recorded that SHA.
\<close>

theorem pending_change_is_dispatched:
  assumes "strategy = LsRemote \<or> strategy = GithubApi"
    and "list_all (\<lambda>env. served env \<and> (resolve_now hex strategy sp (ce_net env) = Inr (Refreshed sha) \<or>
      (\<exists>m. resolve_now hex strategy sp (ce_net env) = Inl (CycleFailed m)))) envs"
    and "served env" and "resolve_now hex strategy sp (ce_net env) = Inr (Refreshed sha)"
    and "\<forall>t. d0 = Some t \<longrightarrow> t + int (cooldown (pp_effective params)) \<le> ce_now env" and "p \<noteq> sha"
  shows "\<exists>st t. run_with_executor (poll_one hex strategy sp) params (Some p) d0 errors x (envs @ [env]) = (ContinueCycle, st)
    \<and> pl_last_sha st = Some sha \<and> SentTrigger sha t \<in> set (pl_log st)"
proof -
  let ?st = "initial_loop (Some p) d0 errors x"
  have c: "is_cooled_down (pl_last_dispatched_at ?st) (ce_now env) (cooldown (pp_effective params)) = Some True"
    using assms(5) by (auto simp: is_cooled_down_iff initial_loop_def)
  have p: "pl_last_sha ?st = Some p" by (simp add: initial_loop_def)
  from assms(1) show ?thesis
  proof
    assume "strategy = LsRemote"
    with ls_remote_exec.pending_change_fires [OF _ assms(3) _ c p assms(6)] assms(2,4) show ?thesis
      by (simp add: run_with_executor_def)
  next
    assume "strategy = GithubApi"
    with github_exec.pending_change_fires [OF _ assms(3) _ c p assms(6)] assms(2,4) show ?thesis
      by (simp add: run_with_executor_def)
  qed
qed

theorem pending_change_is_dispatched_witness:
  "\<exists>st t. run_with_executor (poll_one example_hex LsRemote example_source) example_params (Some 1) (Some 0) Map.empty None
      ([example_env 3 (branch_at 2), example_env 7 (Inl ''timeout'')] @ [example_env 10 (branch_at 2)]) = (ContinueCycle, st)
    \<and> pl_last_sha st = Some 2 \<and> SentTrigger 2 t \<in> set (pl_log st)"
  by (rule pending_change_is_dispatched)
     (simp_all add: example_defs served_def resolve_now_def poll_one.simps ls_remote_inline_def ls_remote_outcome_def)

text \<open>
  With the manifest strategy a change can be lost: the fingerprint is cached before the ref
  is resolved, so once the resolution fails, or succeeds within the cooldown, no number of
  further cycles that see the same manifest triggers it or records it.
\<close>

theorem grokmirror_change_lost:
  assumes "served env" and "manifest_shows sp (ce_net env) fp" and "x \<noteq> Some fp"
    and "(\<exists>m. ls_remote_inline (sp_ref_name sp) (ce_net env) = Inl (CycleFailed m)) \<or>
      (\<exists>sha. ls_remote_inline (sp_ref_name sp) (ce_net env) = Inr (Refreshed sha) \<and> p \<noteq> sha \<and>
        is_cooled_down d0 (ce_now env) (cooldown (pp_effective params)) = Some False)"
    and "list_all (\<lambda>env. served env \<and> manifest_shows sp (ce_net env) fp) envs"
  shows "\<exists>st. run_with_executor (poll_one hex Grokmirror sp) params (Some p) d0 errors x (env # envs) = (ContinueCycle, st)
    \<and> pl_last_sha st = Some p \<and> trigger_shas (pl_log st) = []"
proof -
  let ?st = "initial_loop (Some p) d0 errors x"
  have it: "poll_iteration (poll_one hex Grokmirror sp) params env ?st =
      handle_outcome params env (ls_remote_inline (sp_ref_name sp) (ce_net env)) (?st\<lparr>pl_exec := Some fp\<rparr>)"
    using assms(1-3) by (simp add: served_iteration poll_one_manifest_shows initial_loop_def)
  have "\<exists>st1. poll_iteration (poll_one hex Grokmirror sp) params env ?st = (ContinueCycle, st1)
      \<and> pl_last_sha st1 = Some p \<and> pl_exec st1 = Some fp \<and> trigger_shas (pl_log st1) = []"
    using assms(1,4) unfolding it
    by (auto simp: served_def handler_defs initial_loop_def)
  then obtain st1 where "poll_iteration (poll_one hex Grokmirror sp) params env ?st = (ContinueCycle, st1)"
    "pl_last_sha st1 = Some p" "pl_exec st1 = Some fp" "trigger_shas (pl_log st1) = []" by blast
  with cached_fingerprint_silent [OF assms(5), of st1 hex params] show ?thesis
    by (auto simp: run_with_executor_def)
qed

theorem grokmirror_change_lost_witness:
  "\<exists>st. run_with_executor (poll_one example_hex Grokmirror example_source) example_params (Some 1) None Map.empty (Some ''f1'')
      (example_env 0 (Inl ''timeout'') # [example_env 60 (branch_at 2), example_env 120 (branch_at 2)]) = (ContinueCycle, st)
    \<and> pl_last_sha st = Some 1 \<and> trigger_shas (pl_log st) = []"
  by (rule grokmirror_change_lost [where fp = "''f2''"])
     (simp_all add: example_defs served_def manifest_shows_def extract_repo_path_from_url_def
        lookup_fingerprint_def ls_remote_inline_def)

end
