(* ===== verification/Config_Types.thy ===== *)
theory Config_Types
  imports Poll_Loop Flow_Dispatcher
begin

text \<open>
  The validated configuration of a flow (\<open>src/src/config/parse.rs\<close>): what the supervisor, the
  notifiers and the reload code read. The action and the poll overrides are in \<^verbatim>\<open>Flow_Dispatcher\<close>
  and \<^verbatim>\<open>Poll_Loop\<close>; the jitter fraction is a type variable.
\<close>

section \<open>Configuration of a flow\<close>

datatype fire_event = RunStartEvent | JobCompleteEvent | RunCompleteEvent

record discord_template =
  dt_title :: "string option"
  dt_description :: "string option"
  dt_field_name :: "string option"
  dt_field_value :: "string option"
  dt_collapsed_summary :: "string option"

record mail_template =
  mt_subject :: "string option"
  mt_body :: "string option"

datatype destination =
    DiscordWebhook string "fire_event list" discord_template
  | LocalMail string "fire_event list" mail_template

record source_config =
  src_url :: string
  src_ref :: string
  src_credential :: "string option"

record 'j flow_config =
  fc_name :: string
  fc_enabled :: bool
  fc_description :: "string option"
  fc_source :: source_config
  fc_action :: action_config
  fc_destination :: "destination list"
  fc_poll :: "'j poll_override"

text \<open>\<open>Config\<close>, without the log filter, which only start-up reads.\<close>

record 'j config =
  cf_poll :: "'j poll_config"
  cf_request_timeout :: duration
  cf_flow :: "'j flow_config list"

end
