(* ===== verification/Discord.thy ===== *)
theory Discord
  imports Notify Config_Types
begin

text \<open>
  The Discord notifier (\<open>src/src/discord\<close>): the webhook URL check, templates with truncation,
  the embed and its delivery. \<open>url::Url::parse\<close>, the template renderer, the length limits and
  validation of \<open>twilight_validate\<close> and the HTTP exchange of \<open>twilight_http\<close> are parameters.
\<close>

section \<open>Webhook URL\<close>

record parsed_url =
  url_scheme :: string
  url_username :: string
  url_password :: "string option"
  url_host :: "string option"
  url_path_segments :: "string list option"

record parsed_webhook_url =
  wh_id :: u64
  wh_token :: string

text \<open>The text of a number error, by what stops the digit loop.\<close>

fun parse_digits_error :: "nat \<Rightarrow> string \<Rightarrow> string" where
  "parse_digits_error acc [] = ''cannot parse integer from empty string''"
| "parse_digits_error acc (c # cs) =
     (case digit_val c of
        None \<Rightarrow> ''invalid digit found in string''
      | Some d \<Rightarrow> if 10 * acc + d < 2 ^ 64 then parse_digits_error (10 * acc + d) cs
                  else ''number too large to fit in target type'')"

datatype parse_webhook_url_error =
    Malformed string
  | SchemeNotHttps string
  | UserinfoNotAllowed
  | HostNotAllowed string
  | PathMalformed
  | InvalidId string string
  | IdZero
  | WebhookEmptyToken

fun parse_webhook_url_error_message :: "parse_webhook_url_error \<Rightarrow> string" where
  "parse_webhook_url_error_message (Malformed source) = ''malformed webhook URL: '' @ source"
| "parse_webhook_url_error_message (SchemeNotHttps scheme) =
     ''webhook scheme '' @ squoted scheme @ '' is not allowed; expected https''"
| "parse_webhook_url_error_message UserinfoNotAllowed = ''webhook URL must not contain userinfo (user[:pass]@host)''"
| "parse_webhook_url_error_message (HostNotAllowed host) =
     ''webhook host '' @ squoted host @
     '' is not allowed; expected discord.com, discordapp.com, ptb.discord.com, or canary.discord.com''"
| "parse_webhook_url_error_message PathMalformed =
     ''webhook URL path malformed; expected /api/webhooks/<id>/<token>''"
| "parse_webhook_url_error_message (InvalidId i source) =
     ''webhook id '' @ squoted i @ '' is not a valid number: '' @ source"
| "parse_webhook_url_error_message IdZero = ''webhook id is zero; expected a non-zero Discord snowflake''"
| "parse_webhook_url_error_message WebhookEmptyToken = ''webhook token is empty''"

definition is_discord_host :: "string \<Rightarrow> bool" where
  "is_discord_host host \<longleftrightarrow>
     to_ascii_lowercase host \<in> {''discord.com'', ''discordapp.com'', ''ptb.discord.com'', ''canary.discord.com''}"

definition strip_plus :: "string \<Rightarrow> string" where
  "strip_plus s = (case s of c # cs \<Rightarrow> if c = CHR ''+'' then cs else s | [] \<Rightarrow> s)"

definition parse_webhook_url ::
  "(string \<Rightarrow> string + parsed_url) \<Rightarrow> string \<Rightarrow> parse_webhook_url_error + parsed_webhook_url" where
  "parse_webhook_url url_parse input =
     (case url_parse input of
        Inl source \<Rightarrow> Inl (Malformed source)
      | Inr url \<Rightarrow>
          if url_scheme url \<noteq> ''https'' then Inl (SchemeNotHttps (url_scheme url))
          else if url_username url \<noteq> [] \<or> url_password url \<noteq> None then Inl UserinfoNotAllowed
          else case url_host url of
            None \<Rightarrow> Inl (HostNotAllowed [])
          | Some host \<Rightarrow>
              if \<not> is_discord_host host then Inl (HostNotAllowed host)
              else case url_path_segments url of
                None \<Rightarrow> Inl PathMalformed
              | Some path_segments \<Rightarrow>
                 (case filter (\<lambda>s. s \<noteq> []) path_segments of
                    [a, b, id_str, token_str] \<Rightarrow>
                      if a \<noteq> ''api'' \<or> b \<noteq> ''webhooks'' then Inl PathMalformed
                      else (case parse_u64 id_str of
                              None \<Rightarrow> Inl (InvalidId id_str (parse_digits_error 0 (strip_plus id_str)))
                            | Some id_num \<Rightarrow>
                                if token_str = [] then Inl WebhookEmptyToken
                                else if id_num = 0 then Inl IdZero
                                else Inr \<lparr>wh_id = of_nat id_num, wh_token = token_str\<rparr>)
                  | _ \<Rightarrow> Inl PathMalformed))"

section \<open>Templates\<close>

definition ellipsis :: string where "ellipsis = [CHR 0xE2, CHR 0x80, CHR 0xA6]"

definition middle_dot :: string where "middle_dot = [CHR 0xC2, CHR 0xB7]"

definition truncate_codepoints :: "string \<Rightarrow> nat \<Rightarrow> string" where
  "truncate_codepoints input max_chars =
     (if max_chars = 0 then []
      else if char_len input \<le> max_chars then input
      else take_chars (max_chars - 1) input @ ellipsis)"

type_synonym renderer = "string \<Rightarrow> render_data \<Rightarrow> string + string"

definition render_and_truncate :: "renderer \<Rightarrow> string \<Rightarrow> render_data \<Rightarrow> nat \<Rightarrow> string + string" where
  "render_and_truncate handlebars template ctx max_chars =
     (case handlebars template ctx of Inl e \<Rightarrow> Inl e | Inr rendered \<Rightarrow> Inr (truncate_codepoints rendered max_chars))"

definition render_optional :: "renderer \<Rightarrow> string option \<Rightarrow> render_data \<Rightarrow> nat \<Rightarrow> string + string option" where
  "render_optional handlebars template ctx max_chars =
     (case template of
        Some t \<Rightarrow> map_sum (\<lambda>e. e) Some (render_and_truncate handlebars t ctx max_chars)
      | None \<Rightarrow> Inr None)"

section \<open>Embeds\<close>

fun color_for :: "conclusion \<Rightarrow> u32" where
  "color_for Success = 0x3ba55d"
| "color_for Skipped = 0x747f8d"
| "color_for Neutral = 0x99aab5"
| "color_for Failure = 0xed4245"
| "color_for TimedOut = 0xfaa61a"
| "color_for Cancelled_run = 0x747f8d"
| "color_for ActionRequired = 0x9b59b6"
| "color_for Unknown_conclusion = 0x99aab5"

definition COLOR_IN_PROGRESS :: u32 where "COLOR_IN_PROGRESS = 0x99aab5"

text \<open>The limits \<open>twilight_validate\<close> exports.\<close>

record embed_limits =
  TITLE_LENGTH :: nat
  DESCRIPTION_LENGTH :: nat
  FIELD_COUNT :: nat
  FIELD_NAME_LENGTH :: nat
  FIELD_VALUE_LENGTH :: nat
  FOOTER_TEXT_LENGTH :: nat
  EMBED_TOTAL_LENGTH :: nat

record embed_field =
  ef_inline :: bool
  ef_name :: string
  ef_value :: string

text \<open>The parts of an embed the code fills in; the others are absent.\<close>

record embed =
  em_color :: u32
  em_description :: "string option"
  em_fields :: "embed_field list"
  em_footer :: string
  em_title :: "string option"
  em_url :: string

definition build_collapsed_fields ::
  "embed_limits \<Rightarrow> renderer \<Rightarrow> discord_template \<Rightarrow> render_data \<Rightarrow> run_summary \<Rightarrow> string + embed_field list" where
  "build_collapsed_fields lim handlebars templates data summary =
     (case (case dt_collapsed_summary templates of
              Some t \<Rightarrow> render_and_truncate handlebars t data (FIELD_VALUE_LENGTH lim)
            | None \<Rightarrow> Inr (truncate_codepoints
                (show_nat (length (run_jobs summary)) @ '' jobs '' @ middle_dot @ '' '' @ label_or ''complete'' (run_conclusion summary))
                (FIELD_VALUE_LENGTH lim))) of
        Inl e \<Rightarrow> Inl e
      | Inr summary_text \<Rightarrow>
          Inr [\<lparr>ef_inline = False, ef_name = truncate_codepoints ''Summary'' (FIELD_NAME_LENGTH lim), ef_value = summary_text\<rparr>])"

definition job_field ::
  "embed_limits \<Rightarrow> renderer \<Rightarrow> discord_template \<Rightarrow> (job_result \<Rightarrow> render_data) \<Rightarrow> job_result \<Rightarrow> string + embed_field" where
  "job_field lim handlebars templates job_data job =
     (case (case dt_field_name templates of
              Some t \<Rightarrow> render_and_truncate handlebars t (job_data job) (FIELD_NAME_LENGTH lim)
            | None \<Rightarrow> Inr (truncate_codepoints (job_name job) (FIELD_NAME_LENGTH lim))) of
        Inl e \<Rightarrow> Inl e
      | Inr name \<Rightarrow>
         (case (case dt_field_value templates of
                  Some t \<Rightarrow> render_and_truncate handlebars t (job_data job) (FIELD_VALUE_LENGTH lim)
                | None \<Rightarrow> Inr (truncate_codepoints
                    (''['' @ label_or ''in progress'' (job_conclusion job) @ ''](''  @ job_html_url job @ '')'') (FIELD_VALUE_LENGTH lim))) of
            Inl e \<Rightarrow> Inl e
          | Inr field_value \<Rightarrow> Inr \<lparr>ef_inline = True, ef_name = name, ef_value = field_value\<rparr>))"

fun job_fields ::
  "embed_limits \<Rightarrow> renderer \<Rightarrow> discord_template \<Rightarrow> (job_result \<Rightarrow> render_data) \<Rightarrow> job_result list \<Rightarrow> string + embed_field list" where
  "job_fields lim handlebars templates job_data [] = Inr []"
| "job_fields lim handlebars templates job_data (job # jobs) =
     (case job_field lim handlebars templates job_data job of
        Inl e \<Rightarrow> Inl e
      | Inr f \<Rightarrow> (case job_fields lim handlebars templates job_data jobs of Inl e \<Rightarrow> Inl e | Inr fs \<Rightarrow> Inr (f # fs)))"

definition build_expanded_fields ::
  "embed_limits \<Rightarrow> renderer \<Rightarrow> discord_template \<Rightarrow> (job_result \<Rightarrow> render_data) \<Rightarrow> run_summary \<Rightarrow> string + embed_field list" where
  "build_expanded_fields lim handlebars templates job_data summary =
     (let jobs = run_jobs summary;
          cap = (if length jobs > FIELD_COUNT lim then FIELD_COUNT lim - 1 else FIELD_COUNT lim)
      in case job_fields lim handlebars templates job_data (take cap jobs) of
           Inl e \<Rightarrow> Inl e
         | Inr fs \<Rightarrow>
             Inr (fs @
               (if length jobs > FIELD_COUNT lim then
                  [\<lparr>ef_inline = False, ef_name = truncate_codepoints ellipsis (FIELD_NAME_LENGTH lim),
                    ef_value = truncate_codepoints (''and '' @ show_nat (length jobs - cap) @ '' more job(s)'') (FIELD_VALUE_LENGTH lim)\<rparr>]
                else [])))"

definition build_run_complete_embed ::
  "embed_limits \<Rightarrow> renderer \<Rightarrow> ('oid \<Rightarrow> string) \<Rightarrow> (instant \<Rightarrow> string) \<Rightarrow> discord_template \<Rightarrow> 'oid run_context \<Rightarrow> run_summary
     \<Rightarrow> string + embed"
where
  "build_run_complete_embed lim handlebars to_hex to_rfc3339 templates ctx summary =
     (let data = render_context to_hex to_rfc3339 ctx summary
      in case render_optional handlebars (dt_title templates) data (TITLE_LENGTH lim) of
           Inl e \<Rightarrow> Inl e
         | Inr title \<Rightarrow>
            (case render_optional handlebars (dt_description templates) data (DESCRIPTION_LENGTH lim) of
               Inl e \<Rightarrow> Inl e
             | Inr description \<Rightarrow>
                (let collapse = (case run_conclusion summary of Some c \<Rightarrow> should_collapse c | None \<Rightarrow> False);
                     color = (case run_conclusion summary of Some c \<Rightarrow> color_for c | None \<Rightarrow> COLOR_IN_PROGRESS)
                 in case (if collapse then build_collapsed_fields lim handlebars templates data summary
                          else build_expanded_fields lim handlebars templates
                                 (render_context_with_job to_hex to_rfc3339 ctx summary) summary) of
                      Inl e \<Rightarrow> Inl e
                    | Inr fs \<Rightarrow>
                        Inr \<lparr>em_color = color, em_description = description, em_fields = fs,
                             em_footer = truncate_codepoints
                               (''Run #'' @ show_nat (unat (run_number summary)) @ '' '' @ middle_dot @ '' attempt '' @
                                show_nat (unat (run_attempt summary))) (FOOTER_TEXT_LENGTH lim),
                             em_title = title, em_url = run_url summary\<rparr>)))"

definition opt_len :: "string option \<Rightarrow> nat" where
  "opt_len s = (case s of Some s \<Rightarrow> char_len s | None \<Rightarrow> 0)"

definition embed_codepoint_count :: "embed \<Rightarrow> nat" where
  "embed_codepoint_count e =
     opt_len (em_description e) + char_len (em_footer e) +
     sum_list (map (\<lambda>f. char_len (ef_name f) + char_len (ef_value f)) (em_fields e)) + opt_len (em_title e)"

section \<open>Delivery\<close>

record discord_notifier =
  dn_id :: string
  dn_parsed :: parsed_webhook_url
  dn_fire_on :: "fire_event list"
  dn_template :: discord_template

definition DEFAULT_RATE_LIMIT_RETRY_AFTER :: duration where
  [model_defs]: "DEFAULT_RATE_LIMIT_RETRY_AFTER = from_secs 5"

text \<open>The kinds of a \<open>twilight_http\<close> error the code looks at, with the error's text.\<close>

datatype twilight_error = TwResponse nat | TwValidation string | TwRequestTimedOut string | TwOther string

text \<open>A 5xx status is rendered with its reason phrase by \<open>StatusCode\<close>.\<close>

definition classify_twilight_error :: "(nat \<Rightarrow> string) \<Rightarrow> twilight_error \<Rightarrow> notify_error" where
  "classify_twilight_error show_status err =
     (case err of
        TwResponse code \<Rightarrow>
          if code = 429 then NotifyTransient (''discord HTTP '' @ show_nat code) (Some DEFAULT_RATE_LIMIT_RETRY_AFTER)
          else if code = 401 then
            NotifyPermanent ''discord HTTP 401: invalid token; the webhook token has been rotated or never existed''
          else if code = 403 then
            NotifyPermanent ''discord HTTP 403: forbidden; the webhook lacks permission to post in its channel''
          else if code = 404 then
            NotifyPermanent ''discord HTTP 404: webhook deleted; recreate it in Discord and update the credential''
          else if code = 410 then
            NotifyPermanent ''discord HTTP 410: webhook channel closed; the destination channel was deleted''
          else if is_server_error code then NotifyTransient (''discord HTTP '' @ show_status code) None
          else NotifyPermanent (''discord HTTP '' @ show_nat code)
      | TwValidation text \<Rightarrow> NotifyPermanent (''twilight-http validation error: '' @ text)
      | TwRequestTimedOut text \<Rightarrow> NotifyTransient (''discord request timed out: '' @ text) None
      | TwOther text \<Rightarrow> NotifyTransient (''discord transport error: '' @ text) None)"

text \<open>When the cancellation of the flow is seen, if it is.\<close>

datatype cancel_point = NeverCancelled | CancelledBeforeRequest | CancelledInFlight

record discord_env =
  de_limits :: embed_limits
  de_render :: renderer
  de_rfc3339 :: "instant \<Rightarrow> string"
  de_validate :: "embed \<Rightarrow> string option"
  de_cancel :: cancel_point
  de_execute :: "u64 \<Rightarrow> string \<Rightarrow> embed \<Rightarrow> twilight_error option"
  de_show_status :: "nat \<Rightarrow> string"

text \<open>The requests sent, and the result.\<close>

definition discord_deliver ::
  "discord_env \<Rightarrow> discord_notifier \<Rightarrow> embed \<Rightarrow> (u64 \<times> string \<times> embed) list \<times> (notify_error + notify_outcome)" where
  "discord_deliver env n e =
     (case de_validate env e of
        Some err \<Rightarrow> ([], Inl (NotifyPermanent (''embed validation failed: '' @ err)))
      | None \<Rightarrow>
         (let len = embed_codepoint_count e
          in if len > EMBED_TOTAL_LENGTH (de_limits env) then
               ([], Inl (NotifyPermanent (''embed total '' @ show_nat len @ '' codepoints exceeds Discord limit '' @
                  show_nat (EMBED_TOTAL_LENGTH (de_limits env)))))
             else
               ([(wh_id (dn_parsed n), wh_token (dn_parsed n), e)],
                case de_execute env (wh_id (dn_parsed n)) (wh_token (dn_parsed n)) e of
                  None \<Rightarrow> Inr (NotifySent (''webhook:'' @ show_nat (unat (wh_id (dn_parsed n)))))
                | Some err \<Rightarrow> Inl (classify_twilight_error (de_show_status env) err))))"

text \<open>
  \<open>on_run_complete\<close>: the select polls the cancellation before the delivery, each time.
\<close>

definition discord_on_run_complete ::
  "('oid \<Rightarrow> string) \<Rightarrow> discord_env \<Rightarrow> discord_notifier \<Rightarrow> 'oid run_context \<Rightarrow> run_summary
     \<Rightarrow> (u64 \<times> string \<times> embed) list \<times> (notify_error + notify_outcome)"
where
  "discord_on_run_complete to_hex env n ctx summary =
     (if RunCompleteEvent \<notin> set (dn_fire_on n) then ([], Inr (NotifySkipped FireOnMismatch))
      else case build_run_complete_embed (de_limits env) (de_render env) to_hex (de_rfc3339 env) (dn_template n) ctx summary of
             Inl e \<Rightarrow> ([], Inl (NotifyPermanent (''embed render failed: '' @ e)))
           | Inr e \<Rightarrow>
               if de_cancel env \<noteq> NeverCancelled then
                 (if de_cancel env = CancelledInFlight then fst (discord_deliver env n e) else [],
                  Inl (NotifyTransient (''discord webhook '' @ show_nat (unat (wh_id (dn_parsed n))) @ '' cancelled; delivery status unknown '' @
                    em_dash @ '' the request may or may not have reached Discord'') None))
               else discord_deliver env n e)"

section \<open>Lemmas\<close>

lemma char_len_truncate: "char_len (truncate_codepoints s n) \<le> n"
proof -
  have "char_len ellipsis = 1" by (simp add: ellipsis_def char_len_def is_continuation_def)
  then show ?thesis by (auto simp: truncate_codepoints_def char_len_take_chars char_len_def [of "[]"])
qed

lemma render_and_truncate_len: "render_and_truncate h t ctx n = Inr s \<Longrightarrow> char_len s \<le> n"
  by (auto simp: render_and_truncate_def char_len_truncate split: sum.splits)

lemma render_optional_len: "render_optional h t ctx n = Inr s \<Longrightarrow> opt_len s \<le> n"
  by (auto simp: render_optional_def opt_len_def render_and_truncate_len map_sum_def split: option.splits sum.splits)

definition field_within :: "embed_limits \<Rightarrow> embed_field \<Rightarrow> bool" where
  "field_within lim f \<longleftrightarrow> char_len (ef_name f) \<le> FIELD_NAME_LENGTH lim \<and> char_len (ef_value f) \<le> FIELD_VALUE_LENGTH lim"

lemma job_field_within: "job_field lim h t jd job = Inr f \<Longrightarrow> field_within lim f"
  by (auto simp: job_field_def field_within_def char_len_truncate render_and_truncate_len split: sum.splits option.splits)

lemma job_fields_within:
  "job_fields lim h t jd jobs = Inr fs \<Longrightarrow> list_all (field_within lim) fs \<and> length fs = length jobs"
  by (induction jobs arbitrary: fs) (auto simp: job_field_within split: sum.splits)

lemma build_fields_within:
  "build_collapsed_fields lim h t data summary = Inr fs \<Longrightarrow> list_all (field_within lim) fs \<and> length fs = 1"
  by (auto simp: build_collapsed_fields_def field_within_def char_len_truncate render_and_truncate_len split: sum.splits option.splits)

lemma build_expanded_within:
  assumes "build_expanded_fields lim h t jd summary = Inr fs"
  shows "list_all (field_within lim) fs"
    and "length fs = (if length (run_jobs summary) > FIELD_COUNT lim then Suc (FIELD_COUNT lim - 1) else length (run_jobs summary))"
proof -
  from assms obtain gs cap where "cap = (if length (run_jobs summary) > FIELD_COUNT lim then FIELD_COUNT lim - 1 else FIELD_COUNT lim)"
    "job_fields lim h t jd (take cap (run_jobs summary)) = Inr gs"
    "fs = gs @ (if length (run_jobs summary) > FIELD_COUNT lim then
                  [\<lparr>ef_inline = False, ef_name = truncate_codepoints ellipsis (FIELD_NAME_LENGTH lim),
                    ef_value = truncate_codepoints (''and '' @ show_nat (length (run_jobs summary) - cap) @ '' more job(s)'') (FIELD_VALUE_LENGTH lim)\<rparr>]
                else [])"
    by (auto simp: build_expanded_fields_def Let_def split: sum.splits)
  with job_fields_within [OF this(2)] show "list_all (field_within lim) fs"
    "length fs = (if length (run_jobs summary) > FIELD_COUNT lim then Suc (FIELD_COUNT lim - 1) else length (run_jobs summary))"
    by (auto simp: field_within_def char_len_truncate min_def)
qed

lemma build_embed_parts:
  assumes "build_run_complete_embed lim h to_hex rfc t ctx summary = Inr e"
  shows "opt_len (em_title e) \<le> TITLE_LENGTH lim \<and> opt_len (em_description e) \<le> DESCRIPTION_LENGTH lim \<and>
    char_len (em_footer e) \<le> FOOTER_TEXT_LENGTH lim \<and>
    (build_collapsed_fields lim h t (render_context to_hex rfc ctx summary) summary = Inr (em_fields e) \<or>
     build_expanded_fields lim h t (render_context_with_job to_hex rfc ctx summary) summary = Inr (em_fields e))"
  using assms unfolding build_run_complete_embed_def Let_def
  by (auto simp: render_optional_len char_len_truncate split: sum.splits if_splits)

section \<open>Properties\<close>

text \<open>
  C37. Whatever the templates render to and however many jobs a run has, every part of the
  embed is within the limit of its kind and the number of fields is within the field limit.
\<close>

theorem embed_within_limits:
  assumes "build_run_complete_embed lim handlebars to_hex to_rfc3339 templates ctx summary = Inr e" and "FIELD_COUNT lim > 0"
  shows "opt_len (em_title e) \<le> TITLE_LENGTH lim \<and> opt_len (em_description e) \<le> DESCRIPTION_LENGTH lim \<and>
    char_len (em_footer e) \<le> FOOTER_TEXT_LENGTH lim \<and> length (em_fields e) \<le> FIELD_COUNT lim \<and>
    list_all (\<lambda>f. char_len (ef_name f) \<le> FIELD_NAME_LENGTH lim \<and> char_len (ef_value f) \<le> FIELD_VALUE_LENGTH lim) (em_fields e)"
proof -
  note parts = build_embed_parts [OF assms(1)]
  then have "list_all (field_within lim) (em_fields e) \<and> length (em_fields e) \<le> FIELD_COUNT lim"
    using assms(2) build_fields_within [of lim handlebars templates _ summary "em_fields e"]
      build_expanded_within [of lim handlebars templates _ summary "em_fields e"] by auto
  with parts show ?thesis by (simp add: field_within_def [abs_def])
qed

definition discord_limits :: embed_limits where
  "discord_limits = \<lparr>TITLE_LENGTH = 256, DESCRIPTION_LENGTH = 4096, FIELD_COUNT = 25, FIELD_NAME_LENGTH = 256,
     FIELD_VALUE_LENGTH = 1024, FOOTER_TEXT_LENGTH = 2048, EMBED_TOTAL_LENGTH = 6000\<rparr>"

definition example_embed :: "string + embed" where
  "example_embed = build_run_complete_embed discord_limits (\<lambda>t _. Inr t) (\<lambda>_ :: nat. []) (\<lambda>_. [])
     \<lparr>dt_title = Some ''CI'', dt_description = None, dt_field_name = None, dt_field_value = None, dt_collapsed_summary = None\<rparr>
     (build_run_context (\<lambda>_. []) example_flow \<lparr>ts_observed_sha = 0, ts_observed_at = 0\<rparr> [] [] [] 0 0 []) (empty_run_summary 7)"

theorem embed_within_limits_witness:
  "\<exists>e. example_embed = Inr e \<and> length (em_fields e) \<le> 25"
proof -
  have "\<exists>e. example_embed = Inr e"
    by (simp add: example_embed_def build_run_complete_embed_def render_optional_def render_and_truncate_def empty_run_summary_def
        build_expanded_fields_def Let_def)
  then obtain e where e: "example_embed = Inr e" by blast
  from embed_within_limits [OF this [unfolded example_embed_def]] have "length (em_fields e) \<le> 25"
    by (simp add: discord_limits_def)
  with e show ?thesis by blast
qed

text \<open>
  A request goes to Discord only: a credential is accepted as a webhook URL only if it is
  \<open>https\<close> without user information, its host is one of the four Discord hosts, its path is
  \<open>/api/webhooks/<id>/<token>\<close> up to empty segments, and the id is a non-zero 64-bit number, which is
  kept.
\<close>

theorem webhook_url_confined:
  assumes "parse_webhook_url url_parse input = Inr wh"
  shows "\<exists>url host id_str. url_parse input = Inr url \<and> url_scheme url = ''https'' \<and> url_username url = [] \<and> url_password url = None \<and>
    url_host url = Some host \<and> to_ascii_lowercase host \<in> {''discord.com'', ''discordapp.com'', ''ptb.discord.com'', ''canary.discord.com''} \<and>
    (\<exists>segs. url_path_segments url = Some segs \<and> filter (\<lambda>s. s \<noteq> []) segs = [''api'', ''webhooks'', id_str, wh_token wh]) \<and>
    parse_u64 id_str = Some (unat (wh_id wh)) \<and> wh_id wh \<noteq> 0 \<and> wh_token wh \<noteq> []"
proof -
  from assms obtain url host segs id_str token_str n where
    p: "url_parse input = Inr url" "url_scheme url = ''https''" "url_username url = []" "url_password url = None"
      "url_host url = Some host" "is_discord_host host" "url_path_segments url = Some segs"
      "filter (\<lambda>s. s \<noteq> []) segs = [''api'', ''webhooks'', id_str, token_str]" "parse_u64 id_str = Some n" "token_str \<noteq> []" "n \<noteq> 0"
      "wh = \<lparr>wh_id = of_nat n, wh_token = token_str\<rparr>"
    by (auto simp: parse_webhook_url_def split: sum.splits if_splits option.splits list.splits)
  have "n < 2 ^ 64" using p(9) by (rule parse_u64_bound)
  then have "unat (of_nat n :: u64) = n" by (simp add: unat_of_nat take_bit_nat_eq_self)
  moreover from this p(11) have "(of_nat n :: u64) \<noteq> 0" by (metis unat_0)
  ultimately show ?thesis using p by (auto simp: is_discord_host_def)
qed

definition example_url :: parsed_url where
  "example_url = \<lparr>url_scheme = ''https'', url_username = [], url_password = None, url_host = Some ''discord.com'',
     url_path_segments = Some [''api'', ''webhooks'', ''12'', ''tok'']\<rparr>"

lemma example_webhook: "parse_webhook_url (\<lambda>_. Inr example_url) ''u'' = Inr \<lparr>wh_id = 12, wh_token = ''tok''\<rparr>"
  by (simp add: parse_webhook_url_def example_url_def is_discord_host_def to_ascii_lowercase_def ascii_lower_def
      parse_u64_def digit_val_def)

theorem webhook_url_confined_witness:
  "\<exists>url. (Inr example_url :: string + parsed_url) = Inr url \<and> url_scheme url = ''https''"
  using webhook_url_confined [OF example_webhook] by blast

text \<open>
  The notifier reports a run as sent exactly if Discord accepted the one request it sent,
  which carried the whole embed with the webhook's own id and token, within the total limit; a
  cancelled delivery is always reported as transient.
\<close>

theorem discord_sent_iff_accepted:
  assumes "discord_on_run_complete to_hex env n ctx summary = (requests, r)"
  shows "(\<exists>receipt. r = Inr (NotifySent receipt)) \<longleftrightarrow>
    de_cancel env = NeverCancelled \<and>
    (\<exists>e. requests = [(wh_id (dn_parsed n), wh_token (dn_parsed n), e)] \<and>
       build_run_complete_embed (de_limits env) (de_render env) to_hex (de_rfc3339 env) (dn_template n) ctx summary = Inr e \<and>
       embed_codepoint_count e \<le> EMBED_TOTAL_LENGTH (de_limits env) \<and>
       de_execute env (wh_id (dn_parsed n)) (wh_token (dn_parsed n)) e = None)"
  using assms by (auto simp: discord_on_run_complete_def discord_deliver_def Let_def split: if_splits sum.splits option.splits)

definition example_discord_env :: discord_env where
  "example_discord_env = \<lparr>de_limits = discord_limits, de_render = \<lambda>t _. Inr t, de_rfc3339 = \<lambda>_. [], de_validate = \<lambda>_. None,
     de_cancel = CancelledInFlight, de_execute = \<lambda>_ _ _. None, de_show_status = show_nat\<rparr>"

definition example_discord :: "(u64 \<times> string \<times> embed) list \<times> (notify_error + notify_outcome)" where
  "example_discord = discord_on_run_complete (\<lambda>_ :: nat. []) example_discord_env
     \<lparr>dn_id = ''ci.dest0'', dn_parsed = \<lparr>wh_id = 12, wh_token = ''tok''\<rparr>, dn_fire_on = [RunCompleteEvent],
      dn_template = \<lparr>dt_title = None, dt_description = None, dt_field_name = None, dt_field_value = None, dt_collapsed_summary = None\<rparr>\<rparr>
     (build_run_context (\<lambda>_. []) example_flow \<lparr>ts_observed_sha = 0, ts_observed_at = 0\<rparr> [] [] [] 0 0 []) (empty_run_summary 7)"

theorem discord_sent_iff_accepted_witness:
  "\<not> (\<exists>receipt. snd example_discord = Inr (NotifySent receipt))"
proof -
  have "example_discord = (fst example_discord, snd example_discord)" by simp
  from discord_sent_iff_accepted [OF this [unfolded example_discord_def]] show ?thesis
    unfolding example_discord_def [symmetric] by (simp add: example_discord_env_def)
qed

end
