(* ===== verification/Config_Validate.thy ===== *)
theory Config_Validate
  imports Complex_Main Credentials Discord "HOL-Library.State_Monad" "HOL-Library.AList"
    "HOL-Library.List_Lexorder" "HOL-Library.Char_ord"
begin

text \<open>
  Validation of the configuration file (\<open>src/src/config/validate\<close>, with the tables the TOML
  decoder fills from \<open>src/src/config/parse.rs\<close> and the errors of \<open>src/src/config/error.rs\<close>). The
  validators share a growing list of errors and two indexes: here they run in the state monad over
  a record of the three. \<open>toml\<close>, \<open>humantime\<close>, \<open>url\<close> and \<open>handlebars\<close> are the fields of \<open>validate_env\<close>,
  as are the \<open>{:?}\<close> of a text or character and the decimal text of a float.
\<close>

section \<open>Tables as decoded\<close>

text \<open>
  A finite \<open>f64\<close> is a rational number, and comparing finite ones is comparing rationals.
\<close>

datatype f64 = Finite rat | Infinite | NegInfinite | NaN

fun f64_le :: "f64 \<Rightarrow> f64 \<Rightarrow> bool" where
  "f64_le NaN _ = False"
| "f64_le _ NaN = False"
| "f64_le NegInfinite _ = True"
| "f64_le _ Infinite = True"
| "f64_le (Finite a) (Finite b) = (a \<le> b)"
| "f64_le _ _ = False"

text \<open>A value with the byte offset it starts at in the file.\<close>

record 'a spanned =
  get_ref :: 'a
  span_start :: nat

record raw_poll =
  rp_source_interval :: "string spanned option"
  rp_job_interval :: "string spanned option"
  rp_jitter :: "f64 spanned option"
  rp_cooldown :: "string spanned option"

record raw_http =
  rh_request_timeout :: "string spanned option"
  rh_max_concurrent :: "nat spanned option"

record raw_source =
  rs_url :: "string spanned"
  rs_ref :: "string spanned"
  rs_credential_id :: "string spanned option"

record raw_action =
  ra_kind :: "string spanned"
  ra_repo :: "string spanned option"
  ra_workflow :: "string spanned option"
  ra_ref :: "string spanned option"
  ra_credential_id :: "string spanned option"
  ra_inputs :: "(string \<times> string) list"

record raw_template =
  rt_title :: "string spanned option"
  rt_description :: "string spanned option"
  rt_field_name :: "string spanned option"
  rt_field_value :: "string spanned option"
  rt_collapsed_summary :: "string spanned option"
  rt_subject :: "string spanned option"
  rt_body :: "string spanned option"

record raw_destination =
  rd_kind :: "string spanned"
  rd_credential_id :: "string spanned option"
  rd_user :: "string spanned option"
  rd_fire_on :: "fire_event spanned list option"
  rd_template :: raw_template

record raw_flow =
  rf_name :: "string spanned"
  rf_enabled :: bool
  rf_description :: "string option"
  rf_source :: raw_source
  rf_action :: raw_action
  rf_destination :: "raw_destination list"
  rf_poll :: raw_poll

record raw_config =
  rwc_poll :: raw_poll
  rwc_log_filter :: "string option"
  rwc_http :: raw_http
  rwc_flow :: "raw_flow list"

text \<open>The validated configuration with the parts only start-up and \<open>gcit check\<close> read.\<close>

record loaded_config = "f64 config" +
  lc_source_path :: string
  lc_log_filter :: "string option"
  lc_credential_lines :: "(string \<times> nat list) list"

section \<open>Errors\<close>

datatype config_error =
    ParseError string nat string
  | ValidateError string "nat list" "string option" string string string string
  | CredentialNotFound string "nat list" string "string list" "string list"
  | CredentialInvariant string string "string list"
  | TemplateCompile string nat string string string

definition write_lines :: "nat list \<Rightarrow> string" where
  "write_lines ls = join '','' (map show_nat ls)"

fun config_error_display :: "(string \<Rightarrow> string) \<Rightarrow> config_error \<Rightarrow> string" where
  "config_error_display debug (ParseError path line message) = path @ '':'' @ show_nat line @ '': '' @ message"
| "config_error_display debug (ValidateError path lines flow field val message suggestion) =
     path @ (if lines \<noteq> [] then '':'' @ write_lines lines else []) @ '': '' @
     (case flow of Some f \<Rightarrow> ''flow '' @ squoted f @ '': '' | None \<Rightarrow> []) @
     field @ '' = '' @ debug val @ '' -- '' @ message @ '' (fix: '' @ suggestion @ '')''"
| "config_error_display debug (CredentialNotFound path lines cid searched consumers) =
     path @ (if lines \<noteq> [] then '':'' @ write_lines lines else []) @
     '': credential '' @ squoted cid @ '' not found'' @
     (if searched \<noteq> [] then ''; searched: ['' @ join '', '' searched @ '']'' else []) @
     (if consumers \<noteq> [] then ''; required by flows: ['' @ join '', '' consumers @ '']'' else []) @
     '' (fix: create file at <config_dir>/credentials/'' @ cid @ '' with chmod 0600, OR set '' @ id_to_env cid @
     '' env var, OR add LoadCredential='' @ cid @ '':<source> to systemd unit)''"
| "config_error_display debug (CredentialInvariant path reason consumers) =
     path @ '': '' @ reason @
     (if consumers \<noteq> [] then '' (required by flows: ['' @ join '', '' consumers @ ''])'' else [])"
| "config_error_display debug (TemplateCompile path line flow field source) =
     path @ '':'' @ show_nat line @ '': flow '' @ squoted flow @ '': template '' @ squoted field @ '' failed to compile: '' @ source"

section \<open>The validators' shared state\<close>

text \<open>
  The parts of a \<open>handlebars\<close> template the code looks at: the expressions and helper blocks with
  their names (\<open>None\<close> for a name that is no plain name) and inner templates.
\<close>

datatype template = Template "template_element list"
  and template_element = Expression helper | HtmlExpression helper | HelperBlock helper | OtherElement
  and helper = Helper "string option" "template option" "template option"

record validate_env =
  ve_source :: string
  ve_path :: string
  ve_parse_duration :: "string \<Rightarrow> string + duration"
  ve_url_parse :: "string \<Rightarrow> string + parsed_url"
  ve_compile :: "string \<Rightarrow> string + template"
  ve_render :: renderer
  ve_debug :: "string \<Rightarrow> string"
  ve_debug_char :: "string \<Rightarrow> string"
  ve_show_f64 :: "f64 \<Rightarrow> string"

record validate_state =
  v_errors :: "config_error list"
  v_env_var_index :: "(string \<times> (string \<times> nat \<times> string) list) list"
  v_credential_lines :: "(string \<times> nat list) list"

type_synonym 'a validation = "(validate_state, 'a) State_Monad.state"

definition push_error :: "config_error \<Rightarrow> unit validation" where
  "push_error e = State (\<lambda>s. ((), s\<lparr>v_errors := v_errors s @ [e]\<rparr>))"

text \<open>\<open>entry(k).or_default().push(v)\<close>.\<close>

definition push_entry :: "'k \<Rightarrow> 'v \<Rightarrow> ('k \<times> 'v list) list \<Rightarrow> ('k \<times> 'v list) list" where
  "push_entry k v m = AList.update k ((case map_of m k of Some vs \<Rightarrow> vs | None \<Rightarrow> []) @ [v]) m"

definition byte_offset_to_line :: "string \<Rightarrow> nat \<Rightarrow> nat" where
  "byte_offset_to_line source offset =
     foldl (\<lambda>line b. if b = CHR 0x0A then line + 1 else line) 1 (take (min offset (length source)) source)"

definition span_line :: "validate_env \<Rightarrow> 'a spanned \<Rightarrow> nat" where
  "span_line env s = byte_offset_to_line (ve_source env) (span_start s)"

definition validate_err ::
  "validate_env \<Rightarrow> nat list \<Rightarrow> string option \<Rightarrow> string \<Rightarrow> string \<Rightarrow> string \<Rightarrow> string \<Rightarrow> unit validation" where
  "validate_err env lines flow field val message suggestion =
     push_error (ValidateError (ve_path env) (if lines = [] then [1] else lines) flow field val message suggestion)"

text \<open>\<open>Option::and_then\<close> with a validator.\<close>

fun and_then :: "'a option \<Rightarrow> ('a \<Rightarrow> 'b option validation) \<Rightarrow> 'b option validation" where
  "and_then None f = State_Monad.return None"
| "and_then (Some x) f = f x"

section \<open>Cadence\<close>

definition MAX_INTERVAL :: duration where [model_defs]: "MAX_INTERVAL = from_secs (24 * 60 * 60)"
definition MIN_JITTER :: f64 where [model_defs]: "MIN_JITTER = Finite 0"
definition MAX_JITTER :: f64 where [model_defs]: "MAX_JITTER = Finite (1 / 2)"
definition MAX_LOCAL_MAIL_USER_LEN :: nat where [model_defs]: "MAX_LOCAL_MAIL_USER_LEN = 32"
definition MAX_FLOW_NAME_LEN :: nat where [model_defs]: "MAX_FLOW_NAME_LEN = 64"
definition MIN_HTTP_TIMEOUT :: duration where [model_defs]: "MIN_HTTP_TIMEOUT = from_secs 1"
definition MAX_HTTP_TIMEOUT :: duration where [model_defs]: "MAX_HTTP_TIMEOUT = from_secs 300"

definition as_secs :: "duration \<Rightarrow> nat" where "as_secs d = d div 1000000000"

text \<open>The decimal \<open>0.1\<close> of the source is the nearest \<open>f64\<close>.\<close>

definition default_poll :: "f64 poll_config" where
  "default_poll = \<lparr>pc_source_interval = None, pc_job_interval = from_secs 30,
     pc_jitter = Finite (3602879701896397 / 36028797018963968), pc_cooldown = from_secs (5 * 60)\<rparr>"

definition default_request_timeout :: duration where "default_request_timeout = from_secs 30"

definition case_confusable_hint :: "string \<Rightarrow> string" where
  "case_confusable_hint raw =
     (if CHR ''M'' \<in> set raw
      then '' (note: '' @ squoted ''M'' @ '' means months in humantime; use lowercase '' @ squoted ''m'' @ '' for minutes)''
      else if CHR ''W'' \<in> set raw
      then '' (note: '' @ squoted ''W'' @ '' is not a valid humantime unit; use lowercase '' @ squoted ''w'' @ '' for weeks)''
      else [])"

definition parse_bounded_duration ::
  "validate_env \<Rightarrow> string \<Rightarrow> string option \<Rightarrow> duration \<Rightarrow> duration \<Rightarrow> string spanned \<Rightarrow> duration option validation"
where
  "parse_bounded_duration env field flow lo hi spanned =
     (let raw = get_ref spanned; line = span_line env spanned; hint = case_confusable_hint raw
      in case ve_parse_duration env raw of
           Inl e \<Rightarrow> do {
             push_error (ParseError (ve_path env) line
               (field @ '' = '' @ ve_debug env raw @ '': invalid duration: '' @ e @ hint));
             State_Monad.return None }
         | Inr d \<Rightarrow>
             if d < lo \<or> d > hi then do {
               validate_err env [line] flow field raw
                 (field @ '' must be between '' @ show_nat (as_secs lo) @ ''s and '' @ show_nat (as_secs hi) @ ''s; got '' @
                  show_nat (as_secs d) @ ''s'' @ hint)
                 (''use a value in the range ['' @ show_nat (as_secs lo) @ ''s, '' @ show_nat (as_secs hi) @ ''s]'');
               State_Monad.return None }
             else State_Monad.return (Some d))"

definition parse_interval :: "validate_env \<Rightarrow> string \<Rightarrow> string option \<Rightarrow> string spanned \<Rightarrow> duration option validation" where
  "parse_interval env field flow spanned = parse_bounded_duration env field flow MIN_INTERVAL MAX_INTERVAL spanned"

definition parse_cooldown :: "validate_env \<Rightarrow> string \<Rightarrow> string option \<Rightarrow> string spanned \<Rightarrow> duration option validation" where
  "parse_cooldown env field flow spanned =
     (let raw = get_ref spanned; line = span_line env spanned; hint = case_confusable_hint raw
      in case ve_parse_duration env raw of
           Inl e \<Rightarrow> do {
             push_error (ParseError (ve_path env) line
               (field @ '' = '' @ ve_debug env raw @ '': invalid duration: '' @ e @ hint));
             State_Monad.return None }
         | Inr d \<Rightarrow>
             if d = 0 then State_Monad.return (Some 0)
             else if d < MIN_INTERVAL \<or> d > MAX_INTERVAL then do {
               validate_err env [line] flow field raw
                 (field @ '' must be 0s (disables throttling) or between '' @ show_nat (as_secs MIN_INTERVAL) @ ''s and '' @
                  show_nat (as_secs MAX_INTERVAL) @ ''s; got '' @ show_nat (as_secs d) @ ''s'' @ hint)
                 (''use 0s to disable, or a value in the range ['' @ show_nat (as_secs MIN_INTERVAL) @ ''s, '' @
                  show_nat (as_secs MAX_INTERVAL) @ ''s]'');
               State_Monad.return None }
             else State_Monad.return (Some d))"

text \<open>The two bounds print as \<open>0\<close> and \<open>0.5\<close>.\<close>

definition parse_jitter :: "validate_env \<Rightarrow> string \<Rightarrow> string option \<Rightarrow> f64 spanned \<Rightarrow> f64 option validation" where
  "parse_jitter env field flow spanned =
     (let val = get_ref spanned; line = span_line env spanned
      in if \<not> (f64_le MIN_JITTER val \<and> f64_le val MAX_JITTER) then do {
           validate_err env [line] flow field (ve_show_f64 env val)
             (field @ '' must be in the range [0, 0.5]; got '' @ ve_show_f64 env val)
             ''use a value in [0, 0.5], for example 0.1'';
           State_Monad.return None }
         else State_Monad.return (Some val))"

definition validate_poll_defaults :: "validate_env \<Rightarrow> raw_poll \<Rightarrow> f64 poll_config validation" where
  "validate_poll_defaults env raw = do {
     source_interval \<leftarrow> and_then (rp_source_interval raw) (parse_interval env ''poll.source_interval'' None);
     job_interval \<leftarrow> and_then (rp_job_interval raw) (parse_interval env ''poll.job_interval'' None);
     jitter \<leftarrow> and_then (rp_jitter raw) (parse_jitter env ''poll.jitter'' None);
     cooldown \<leftarrow> and_then (rp_cooldown raw) (parse_cooldown env ''poll.cooldown'' None);
     State_Monad.return \<lparr>pc_source_interval = source_interval,
       pc_job_interval = unwrap_or job_interval (pc_job_interval default_poll),
       pc_jitter = unwrap_or jitter (pc_jitter default_poll),
       pc_cooldown = unwrap_or cooldown (pc_cooldown default_poll)\<rparr> }"

text \<open>\<open>max_concurrent\<close> is only warned about.\<close>

definition validate_http :: "validate_env \<Rightarrow> raw_http \<Rightarrow> duration validation" where
  "validate_http env raw = do {
     request_timeout \<leftarrow> and_then (rh_request_timeout raw)
       (parse_bounded_duration env ''http.request_timeout'' None MIN_HTTP_TIMEOUT MAX_HTTP_TIMEOUT);
     State_Monad.return (unwrap_or request_timeout default_request_timeout) }"

definition validate_poll_override :: "validate_env \<Rightarrow> string \<Rightarrow> raw_poll \<Rightarrow> f64 poll_override validation" where
  "validate_poll_override env flow_name raw = do {
     source_interval \<leftarrow> and_then (rp_source_interval raw) (parse_interval env ''flow.poll.source_interval'' (Some flow_name));
     job_interval \<leftarrow> and_then (rp_job_interval raw) (parse_interval env ''flow.poll.job_interval'' (Some flow_name));
     jitter \<leftarrow> and_then (rp_jitter raw) (parse_jitter env ''flow.poll.jitter'' (Some flow_name));
     cooldown \<leftarrow> and_then (rp_cooldown raw) (parse_cooldown env ''flow.poll.cooldown'' (Some flow_name));
     State_Monad.return \<lparr>po_source_interval = source_interval, po_job_interval = job_interval, po_jitter = jitter,
       po_cooldown = cooldown\<rparr> }"

section \<open>Templates\<close>

definition TEMPLATE_NAMESPACES :: "string list" where
  "TEMPLATE_NAMESPACES = [''flow'', ''source'', ''action'', ''run'', ''job'', ''gcit'']"

fun find_bare_name :: "template \<Rightarrow> string option"
  and find_bare_in :: "template_element list \<Rightarrow> string option"
  and find_bare_helper :: "helper \<Rightarrow> string option"
  and find_bare_inner :: "template option \<Rightarrow> string option"
where
  "find_bare_name (Template elements) = find_bare_in elements"
| "find_bare_in [] = None"
| "find_bare_in (Expression h # es) = (case find_bare_helper h of Some b \<Rightarrow> Some b | None \<Rightarrow> find_bare_in es)"
| "find_bare_in (HtmlExpression h # es) = (case find_bare_helper h of Some b \<Rightarrow> Some b | None \<Rightarrow> find_bare_in es)"
| "find_bare_in (HelperBlock h # es) = (case find_bare_helper h of Some b \<Rightarrow> Some b | None \<Rightarrow> find_bare_in es)"
| "find_bare_in (OtherElement # es) = find_bare_in es"
| "find_bare_helper (Helper None tpl otherwise) = None"
| "find_bare_helper (Helper (Some name) tpl otherwise) =
     (if CHR ''.'' \<notin> set name \<and> CHR ''/'' \<notin> set name then Some name
      else case find_bare_inner tpl of Some b \<Rightarrow> Some b | None \<Rightarrow> find_bare_inner otherwise)"
| "find_bare_inner None = None"
| "find_bare_inner (Some tpl) = find_bare_name tpl"

definition namespace_form_examples :: string where
  "namespace_form_examples = join '', '' (map (\<lambda>n. n @ ''.<field>'') TEMPLATE_NAMESPACES)"

definition braced :: "string \<Rightarrow> string" where
  "braced s = ''{{'' @ s @ ''}}''"

definition probe_context :: render_data where
  "probe_context =
     [(''flow'', [(''name'', JString ''linux-mainline-ci''),
                  (''description'', JString ''Watch torvalds/linux master and dispatch our CI builder.'')]),
      (''source'', [(''url'', JString ''https://git.kernel.org/pub/scm/linux/kernel/git/torvalds/linux.git''),
                    (''ref_name'', JString ''refs/heads/master''),
                    (''sha'', JString (replicate 40 (CHR ''a''))), (''sha_short'', JString (replicate 12 (CHR ''a'')))]),
      (''action'', [(''repo'', JString ''myorg/linux-builder''), (''workflow'', JString ''ci.yml''), (''run_id'', JNumber 1234567890),
                    (''run_url'', JString ''https://github.com/myorg/linux-builder/actions/runs/1234567890''),
                    (''dispatched_at'', JString ''2026-04-26T12:34:56Z'')]),
      (''run'', [(''status'', JString ''completed''), (''conclusion'', JString ''success'')]),
      (''job'', [(''id'', JNumber 9876543210), (''name'', JString ''build-and-test''),
                 (''url'', JString ''https://github.com/myorg/linux-builder/actions/runs/1234567890/job/9876543210''),
                 (''conclusion'', JString ''success''), (''attempt'', JNumber 1)]),
      (''gcit'', [(''run_id'', JString ''00000000-0000-0000-0000-000000000000'')])]"

definition compile_template_field ::
  "validate_env \<Rightarrow> string \<Rightarrow> string \<Rightarrow> string spanned option \<Rightarrow> string option validation" where
  "compile_template_field env flow_name field tmpl =
     and_then tmpl (\<lambda>spanned.
       let raw = get_ref spanned; line = span_line env spanned
       in case ve_compile env raw of
            Inl e \<Rightarrow> do {
              push_error (TemplateCompile (ve_path env) line flow_name field e);
              State_Monad.return None }
          | Inr tpl \<Rightarrow>
             (case find_bare_name tpl of
                Some bare \<Rightarrow> do {
                  validate_err env [line] (Some flow_name) field raw
                    (''template references bare name '' @ squoted (braced bare) @ ''; only namespaced variables ('' @
                     namespace_form_examples @ '') are accepted'')
                    (''use a namespaced reference like '' @ squoted (braced ''flow.name'') @ '', '' @
                     squoted (braced ''source.sha_short'') @ '' (got '' @ braced bare @ '')'');
                  State_Monad.return None }
              | None \<Rightarrow>
                 (case ve_render env raw probe_context of
                    Inl e \<Rightarrow> do {
                      validate_err env [line] (Some flow_name) field raw
                        (''template fails to render against the probe context: '' @ e)
                        ''use only documented variables (flow.name, source.sha, source.sha_short, action.repo, action.workflow, action.run_id, action.run_url, action.dispatched_at, run.status, run.conclusion, gcit.run_id, flow.description)'';
                      State_Monad.return None }
                  | Inr _ \<Rightarrow> State_Monad.return (Some raw))))"

section \<open>Credential ids and events\<close>

text \<open>A valid id is recorded in both indexes.\<close>

definition validate_credential_id ::
  "validate_env \<Rightarrow> string \<Rightarrow> string \<Rightarrow> string spanned \<Rightarrow> string option validation" where
  "validate_credential_id env field flow_name spanned =
     (let cid = get_ref spanned; line = span_line env spanned
      in case validate_id_str cid of
           Inr _ \<Rightarrow> State (\<lambda>s. (Some cid,
             s\<lparr>v_env_var_index := push_entry (id_to_env cid) (cid, line, flow_name) (v_env_var_index s),
               v_credential_lines := push_entry cid line (v_credential_lines s)\<rparr>))
         | Inl e \<Rightarrow> do {
             validate_err env [line] (Some flow_name) field cid (id_error_message (ve_debug_char env) e) (id_error_suggestion e);
             State_Monad.return None })"

fun fire_event_label :: "fire_event \<Rightarrow> string" where
  "fire_event_label RunStartEvent = ''run_start''"
| "fire_event_label JobCompleteEvent = ''job_complete''"
| "fire_event_label RunCompleteEvent = ''run_complete''"

fun collect_fire_on_from ::
  "validate_env \<Rightarrow> string \<Rightarrow> string \<Rightarrow> fire_event list \<Rightarrow> fire_event spanned list \<Rightarrow> fire_event list validation" where
  "collect_fire_on_from env field flow_name out [] = State_Monad.return out"
| "collect_fire_on_from env field flow_name out (s # events) =
     (let ev = get_ref s; label = fire_event_label ev
      in if ev \<in> set out then do {
           validate_err env [span_line env s] (Some flow_name) field label
             (''fire_on contains duplicate event '' @ squoted label)
             (''remove the duplicate '' @ squoted label @ ''; events fire once per occurrence'');
           collect_fire_on_from env field flow_name out events }
         else collect_fire_on_from env field flow_name (out @ [ev]) events)"

definition collect_fire_on ::
  "validate_env \<Rightarrow> string \<Rightarrow> string \<Rightarrow> fire_event spanned list option \<Rightarrow> fire_event list validation" where
  "collect_fire_on env field flow_name fire_on =
     (case fire_on of
        Some events \<Rightarrow> collect_fire_on_from env field flow_name [] events
      | None \<Rightarrow> State_Monad.return [RunCompleteEvent])"

section \<open>Destinations\<close>

fun reject_cross_kind_template_fields ::
  "validate_env \<Rightarrow> string \<Rightarrow> string \<Rightarrow> string \<Rightarrow> (string \<times> string spanned option) list \<Rightarrow> unit validation" where
  "reject_cross_kind_template_fields env flow_name owning_kind current_kind [] = State_Monad.return ()"
| "reject_cross_kind_template_fields env flow_name owning_kind current_kind ((field, val) # rest) = do {
     (case val of
        None \<Rightarrow> State_Monad.return ()
      | Some spanned \<Rightarrow>
          validate_err env [span_line env spanned] (Some flow_name) (''destination.template.'' @ field) (get_ref spanned)
            (''destination.template.'' @ field @ '' belongs to '' @ owning_kind @ ''; not valid on '' @ current_kind)
            (''remove '' @ backquoted field @ '' or change kind to '' @ owning_kind));
     reject_cross_kind_template_fields env flow_name owning_kind current_kind rest }"

definition validate_discord_template :: "validate_env \<Rightarrow> string \<Rightarrow> raw_template \<Rightarrow> discord_template validation" where
  "validate_discord_template env flow_name raw = do {
     reject_cross_kind_template_fields env flow_name ''local_mail'' ''discord_webhook''
       [(''subject'', rt_subject raw), (''body'', rt_body raw)];
     title \<leftarrow> compile_template_field env flow_name ''destination.template.title'' (rt_title raw);
     description \<leftarrow> compile_template_field env flow_name ''destination.template.description'' (rt_description raw);
     field_name \<leftarrow> compile_template_field env flow_name ''destination.template.field_name'' (rt_field_name raw);
     field_value \<leftarrow> compile_template_field env flow_name ''destination.template.field_value'' (rt_field_value raw);
     collapsed_summary \<leftarrow> compile_template_field env flow_name ''destination.template.collapsed_summary'' (rt_collapsed_summary raw);
     State_Monad.return \<lparr>dt_title = title, dt_description = description, dt_field_name = field_name,
       dt_field_value = field_value, dt_collapsed_summary = collapsed_summary\<rparr> }"

definition validate_local_mail_template :: "validate_env \<Rightarrow> string \<Rightarrow> raw_template \<Rightarrow> mail_template validation" where
  "validate_local_mail_template env flow_name raw = do {
     reject_cross_kind_template_fields env flow_name ''discord_webhook'' ''local_mail''
       [(''title'', rt_title raw), (''description'', rt_description raw), (''field_name'', rt_field_name raw),
        (''field_value'', rt_field_value raw), (''collapsed_summary'', rt_collapsed_summary raw)];
     subject \<leftarrow> compile_template_field env flow_name ''destination.template.subject'' (rt_subject raw);
     body \<leftarrow> compile_template_field env flow_name ''destination.template.body'' (rt_body raw);
     State_Monad.return \<lparr>mt_subject = subject, mt_body = body\<rparr> }"

definition validate_discord :: "validate_env \<Rightarrow> string \<Rightarrow> nat \<Rightarrow> raw_destination \<Rightarrow> destination validation" where
  "validate_discord env flow_name kind_line raw = do {
     (case rd_user raw of
        None \<Rightarrow> State_Monad.return ()
      | Some user \<Rightarrow>
          validate_err env [span_line env user] (Some flow_name) ''destination.user'' (get_ref user)
            ''destination.user belongs to local_mail; not valid on discord_webhook''
            (''remove '' @ backquoted ''user'' @ '' or change kind to local_mail''));
     credential_id \<leftarrow> (case rd_credential_id raw of
        Some spanned \<Rightarrow> validate_credential_id env ''destination.discord_webhook.credential_id'' flow_name spanned
      | None \<Rightarrow> do {
          validate_err env [kind_line] (Some flow_name) ''destination.credential_id'' []
            ''destination.credential_id is required for discord_webhook''
            (''add credential_id = '' @ dquoted ''<id>'' @ '' under [[flow.destination]]'');
          State_Monad.return None });
     fire_on \<leftarrow> collect_fire_on env ''destination.discord_webhook.fire_on'' flow_name (rd_fire_on raw);
     tmpl \<leftarrow> validate_discord_template env flow_name (rd_template raw);
     State_Monad.return (DiscordWebhook (unwrap_or credential_id ''placeholder'') fire_on tmpl) }"

definition validate_local_mail_user :: "validate_env \<Rightarrow> string \<Rightarrow> nat \<Rightarrow> string \<Rightarrow> unit validation" where
  "validate_local_mail_user env flow_name user_line user_str =
     (if user_str = [] then
        validate_err env [user_line] (Some flow_name) ''destination.local_mail.user'' user_str
          ''local_mail.user must be non-empty'' (''use a Unix username like '' @ squoted ''ops'')
      else if length user_str > MAX_LOCAL_MAIL_USER_LEN then
        validate_err env [user_line] (Some flow_name) ''destination.local_mail.user'' user_str
          (''local_mail.user is '' @ show_nat (length user_str) @ '' chars; max is '' @ show_nat MAX_LOCAL_MAIL_USER_LEN)
          (''shorten to '' @ show_nat MAX_LOCAL_MAIL_USER_LEN @ '' chars or fewer'')
      else case first_other_char id_char user_str of
        None \<Rightarrow> State_Monad.return ()
      | Some ch \<Rightarrow>
          validate_err env [user_line] (Some flow_name) ''destination.local_mail.user'' user_str
            (''local_mail.user contains invalid character '' @ ve_debug_char env ch @ ''; allowed: A-Z a-z 0-9 _ -'')
            (''use only A-Z, a-z, 0-9, '' @ squoted ''_'' @ '', and '' @ squoted ''-''))"

definition validate_local_mail :: "validate_env \<Rightarrow> string \<Rightarrow> nat \<Rightarrow> raw_destination \<Rightarrow> destination validation" where
  "validate_local_mail env flow_name kind_line raw = do {
     (case rd_credential_id raw of
        None \<Rightarrow> State_Monad.return ()
      | Some cid \<Rightarrow>
          validate_err env [span_line env cid] (Some flow_name) ''destination.credential_id'' (get_ref cid)
            ''destination.credential_id belongs to discord_webhook; not valid on local_mail''
            (''remove '' @ backquoted ''credential_id'' @ '' or change kind to discord_webhook''));
     (user_str, user_line) \<leftarrow> (case rd_user raw of
        Some spanned \<Rightarrow> State_Monad.return (get_ref spanned, span_line env spanned)
      | None \<Rightarrow> do {
          validate_err env [kind_line] (Some flow_name) ''destination.user'' []
            ''destination.user is required for local_mail''
            (''add user = '' @ dquoted ''<unix_user>'' @ '' under [[flow.destination]]'');
          State_Monad.return ([], kind_line) });
     validate_local_mail_user env flow_name user_line user_str;
     fire_on \<leftarrow> collect_fire_on env ''destination.local_mail.fire_on'' flow_name (rd_fire_on raw);
     tmpl \<leftarrow> validate_local_mail_template env flow_name (rd_template raw);
     State_Monad.return (LocalMail user_str fire_on tmpl) }"

fun validate_destinations :: "validate_env \<Rightarrow> string \<Rightarrow> raw_destination list \<Rightarrow> destination list validation" where
  "validate_destinations env flow_name [] = State_Monad.return []"
| "validate_destinations env flow_name (dest # raw) =
     (let kind_str = get_ref (rd_kind dest); kind_line = span_line env (rd_kind dest)
      in if kind_str = ''discord_webhook'' then do {
           d \<leftarrow> validate_discord env flow_name kind_line dest;
           out \<leftarrow> validate_destinations env flow_name raw;
           State_Monad.return (d # out) }
         else if kind_str = ''local_mail'' then do {
           d \<leftarrow> validate_local_mail env flow_name kind_line dest;
           out \<leftarrow> validate_destinations env flow_name raw;
           State_Monad.return (d # out) }
         else do {
           validate_err env [kind_line] (Some flow_name) ''destination.kind'' kind_str
             (''unknown destination kind '' @ ve_debug env kind_str @ ''; valid kinds: discord_webhook, local_mail'')
             (''set kind = '' @ dquoted ''discord_webhook'' @ '' or '' @ dquoted ''local_mail'');
           validate_destinations env flow_name raw })"

section \<open>Flows\<close>

definition validate_flow_name :: "validate_env \<Rightarrow> string spanned \<Rightarrow> bool validation" where
  "validate_flow_name env spanned =
     (let name = get_ref spanned; line = span_line env spanned
      in if name = [] then do {
           validate_err env [line] None ''flow.name'' name ''flow.name must be non-empty''
             (''use a descriptive name like '' @ squoted ''linux-mainline-ci'');
           State_Monad.return False }
         else if length name > MAX_FLOW_NAME_LEN then do {
           validate_err env [line] (Some name) ''flow.name'' name
             (''flow.name is '' @ show_nat (length name) @ '' chars; max is '' @ show_nat MAX_FLOW_NAME_LEN)
             (''shorten to '' @ show_nat MAX_FLOW_NAME_LEN @ '' chars or fewer'');
           State_Monad.return False }
         else case first_other_char id_char name of
           Some ch \<Rightarrow> do {
             validate_err env [line] (Some name) ''flow.name'' name
               (''flow.name contains invalid character '' @ ve_debug_char env ch @ ''; allowed: A-Z a-z 0-9 _ -'')
               (''use only A-Z, a-z, 0-9, '' @ squoted ''_'' @ '', and '' @ squoted ''-'');
             State_Monad.return False }
         | None \<Rightarrow> State_Monad.return True)"

definition ALLOWED_SCHEMES :: "string list" where
  "ALLOWED_SCHEMES = [''http'', ''https'', ''ssh'', ''git'', ''file'']"

definition validate_source :: "validate_env \<Rightarrow> string \<Rightarrow> raw_source \<Rightarrow> source_config validation" where
  "validate_source env flow_name raw =
     (let url = get_ref (rs_url raw); url_line = span_line env (rs_url raw);
          ref_name = get_ref (rs_ref raw); ref_line = span_line env (rs_ref raw)
      in do {
        (case ve_url_parse env url of
           Inl e \<Rightarrow>
             validate_err env [url_line] (Some flow_name) ''source.url'' url (''source.url is not a valid URL: '' @ e)
               (''use a full URL like '' @ squoted ''https://github.com/owner/repo.git'')
         | Inr parsed \<Rightarrow>
             if url_scheme parsed \<notin> set ALLOWED_SCHEMES then
               validate_err env [url_line] (Some flow_name) ''source.url'' url
                 (''source.url has unsupported scheme '' @ squoted (url_scheme parsed) @ ''; allowed: '' @ join '', '' ALLOWED_SCHEMES)
                 (''use one of: '' @ join '', '' (map (\<lambda>s. s @ ''://'') ALLOWED_SCHEMES))
             else State_Monad.return ());
        (if \<not> starts_with ref_name ''refs/'' then
           validate_err env [ref_line] (Some flow_name) ''source.ref'' ref_name
             (''source.ref must start with '' @ squoted ''refs/'') (''use '' @ squoted (''refs/heads/'' @ ref_name) @ '' for a branch'')
         else State_Monad.return ());
        credential_id \<leftarrow> and_then (rs_credential_id raw) (validate_credential_id env ''source.credential_id'' flow_name);
        State_Monad.return \<lparr>src_url = url, src_ref = ref_name, src_credential = credential_id\<rparr> })"

definition require_field ::
  "validate_env \<Rightarrow> string \<Rightarrow> nat \<Rightarrow> string \<Rightarrow> string spanned option \<Rightarrow> string validation" where
  "require_field env flow_name fallback_line field spanned =
     (case spanned of
        Some s \<Rightarrow> State_Monad.return (get_ref s)
      | None \<Rightarrow> do {
          validate_err env [fallback_line] (Some flow_name) field ''<missing>'' (field @ '' is required'')
            (''add '' @ field @ '' = '' @ dquoted ''...'' @ '' to the relevant table'');
          State_Monad.return [] })"

text \<open>\<open>split('/')\<close>.\<close>

fun split_slash :: "string \<Rightarrow> string list" where
  "split_slash [] = [[]]"
| "split_slash (c # cs) = (if c = CHR ''/'' then [] # split_slash cs else (c # hd (split_slash cs)) # tl (split_slash cs))"

definition check_repo :: "validate_env \<Rightarrow> string \<Rightarrow> string spanned option \<Rightarrow> unit validation" where
  "check_repo env flow_name repo =
     (case repo of
        None \<Rightarrow> State_Monad.return ()
      | Some spanned \<Rightarrow>
         (let s = get_ref spanned; parts = split_slash s
          in if length parts = 2 \<and> parts ! 0 \<noteq> [] \<and> parts ! 1 \<noteq> [] then State_Monad.return ()
             else validate_err env [span_line env spanned] (Some flow_name) ''action.repo'' s
               (''action.repo must match owner/repo (exactly one '' @ squoted ''/'' @ '', both sides non-empty)'')
               (''use the form '' @ squoted ''owner/repo'' @ '' (for example, '' @ squoted ''octocat/hello-world'' @ '')'')))"

definition check_workflow :: "validate_env \<Rightarrow> string \<Rightarrow> string spanned option \<Rightarrow> unit validation" where
  "check_workflow env flow_name workflow =
     (case workflow of
        None \<Rightarrow> State_Monad.return ()
      | Some spanned \<Rightarrow>
         (let s = get_ref spanned; line = span_line env spanned
          in if s = [] then
               validate_err env [line] (Some flow_name) ''action.workflow'' s ''action.workflow must be non-empty''
                 (''use the workflow file name like '' @ squoted ''ci.yml'')
             else if CHR ''/'' \<in> set s \<or> CHR 0x5C \<in> set s \<or> contains s ''..'' then
               validate_err env [line] (Some flow_name) ''action.workflow'' s
                 (''action.workflow must not contain '' @ squoted ''/'' @ '', '' @ squoted [CHR 0x5C] @ '', or '' @ squoted ''..'')
                 (''use a bare file name like '' @ squoted ''ci.yml'' @ '' (no directory components)'')
             else State_Monad.return ()))"

definition check_action_ref :: "validate_env \<Rightarrow> string \<Rightarrow> string spanned option \<Rightarrow> unit validation" where
  "check_action_ref env flow_name ref_name =
     (case ref_name of
        None \<Rightarrow> State_Monad.return ()
      | Some spanned \<Rightarrow>
         (let s = get_ref spanned
          in if \<not> starts_with s ''refs/'' then
               validate_err env [span_line env spanned] (Some flow_name) ''action.ref'' s
                 (''action.ref must start with '' @ squoted ''refs/'') (''use '' @ squoted (''refs/heads/'' @ s) @ '' for a branch'')
             else State_Monad.return ()))"

definition check_inputs :: "validate_env \<Rightarrow> string \<Rightarrow> nat \<Rightarrow> (string \<times> string) list \<Rightarrow> unit validation" where
  "check_inputs env flow_name kind_line inputs =
     (case map_of inputs GCIT_RUN_ID_INPUT of
        None \<Rightarrow> State_Monad.return ()
      | Some operator_value \<Rightarrow>
          validate_err env [kind_line] (Some flow_name) (''action.inputs.'' @ GCIT_RUN_ID_INPUT) operator_value
            (''action.inputs may not contain '' @ backquoted GCIT_RUN_ID_INPUT @
             ''; gcit injects this key automatically at dispatch time (the value you supplied would be silently overwritten)'')
            (''remove the '' @ backquoted GCIT_RUN_ID_INPUT @
             '' entry from action.inputs (gcit supplies the value automatically)''))"

definition validate_action :: "validate_env \<Rightarrow> string \<Rightarrow> raw_action \<Rightarrow> action_config validation" where
  "validate_action env flow_name raw =
     (let kind_str = get_ref (ra_kind raw); kind_line = span_line env (ra_kind raw)
      in if kind_str = ''github_workflow_dispatch'' then do {
           repo_str \<leftarrow> require_field env flow_name kind_line ''action.repo'' (ra_repo raw);
           workflow_str \<leftarrow> require_field env flow_name kind_line ''action.workflow'' (ra_workflow raw);
           ref_str \<leftarrow> require_field env flow_name kind_line ''action.ref'' (ra_ref raw);
           check_repo env flow_name (ra_repo raw);
           check_workflow env flow_name (ra_workflow raw);
           check_action_ref env flow_name (ra_ref raw);
           cid \<leftarrow> (case ra_credential_id raw of
              Some spanned \<Rightarrow> validate_credential_id env ''action.credential_id'' flow_name spanned
            | None \<Rightarrow> do {
                validate_err env [kind_line] (Some flow_name) ''action.credential_id'' ''<missing>''
                  ''action.credential_id is required for github_workflow_dispatch''
                  (''add credential_id = '' @ dquoted ''<id>'' @ '' under [flow.action]'');
                State_Monad.return None });
           check_inputs env flow_name kind_line (ra_inputs raw);
           State_Monad.return (GithubWorkflowDispatch repo_str workflow_str ref_str (ra_inputs raw) (unwrap_or cid ''placeholder'')) }
         else do {
           validate_err env [kind_line] (Some flow_name) ''action.kind'' kind_str
             (''unknown action kind '' @ ve_debug env kind_str @ ''; valid kinds: github_workflow_dispatch'')
             (''set kind = '' @ dquoted ''github_workflow_dispatch'');
           State_Monad.return (GithubWorkflowDispatch [] [] [] [] ''placeholder'') })"

definition validate_flow :: "validate_env \<Rightarrow> string \<Rightarrow> raw_flow \<Rightarrow> f64 flow_config validation" where
  "validate_flow env flow_name raw = do {
     source_cfg \<leftarrow> validate_source env flow_name (rf_source raw);
     action_cfg \<leftarrow> validate_action env flow_name (rf_action raw);
     destinations \<leftarrow> validate_destinations env flow_name (rf_destination raw);
     poll_override \<leftarrow> validate_poll_override env flow_name (rf_poll raw);
     State_Monad.return \<lparr>fc_name = flow_name, fc_enabled = rf_enabled raw, fc_description = rf_description raw,
       fc_source = source_cfg, fc_action = action_cfg, fc_destination = destinations, fc_poll = poll_override\<rparr> }"

section \<open>The whole configuration\<close>

fun validate_flows ::
  "validate_env \<Rightarrow> (string \<times> nat list) list \<Rightarrow> raw_flow list \<Rightarrow> ((string \<times> nat list) list \<times> f64 flow_config list) validation"
where
  "validate_flows env name_index [] = State_Monad.return (name_index, [])"
| "validate_flows env name_index (raw_flow # raw) =
     (let flow_line = span_line env (rf_name raw_flow); flow_name = get_ref (rf_name raw_flow)
      in do {
        name_ok \<leftarrow> validate_flow_name env (rf_name raw_flow);
        flow \<leftarrow> validate_flow env flow_name raw_flow;
        (name_index', flow_cfgs) \<leftarrow> validate_flows env
          (if name_ok then push_entry flow_name flow_line name_index else name_index) raw;
        State_Monad.return (name_index', flow # flow_cfgs) })"

text \<open>A \<open>BTreeMap\<close> is visited in the order of its keys.\<close>

definition sorted_entries :: "(string \<times> 'v) list \<Rightarrow> (string \<times> 'v) list" where
  "sorted_entries m = map (\<lambda>k. (k, the (map_of m k))) (sort (remdups (map fst m)))"

fun report_duplicate_names :: "validate_env \<Rightarrow> (string \<times> nat list) list \<Rightarrow> unit validation" where
  "report_duplicate_names env [] = State_Monad.return ()"
| "report_duplicate_names env ((name, lines) # rest) = do {
     (if length lines > 1 then
        validate_err env lines (Some name) ''flow.name'' name
          (''duplicate flow name; '' @ show_nat (length lines) @ '' occurrences'')
          ''rename each occurrence so flow names are unique''
      else State_Monad.return ());
     report_duplicate_names env rest }"

fun report_env_collisions :: "validate_env \<Rightarrow> (string \<times> (string \<times> nat \<times> string) list) list \<Rightarrow> unit validation" where
  "report_env_collisions env [] = State_Monad.return ()"
| "report_env_collisions env ((var, occurrences) # rest) =
     (let distinct_ids = sort (remdups (map fst occurrences))
      in do {
        (if length distinct_ids > 1 then
           validate_err env (sort (remdups (map (fst \<circ> snd) occurrences))) None ''credential_id'' (join '', '' distinct_ids)
             (''credential_id collision: ids map to the same env var '' @ var @ '' (rule: uppercase + s/-/_/)'')
             (''rename so each id maps to a unique env var (current rule: id.uppercase().replace('' @
              squoted ''-'' @ '','' @ squoted ''_'' @ ''))'')
         else State_Monad.return ());
        report_env_collisions env rest })"

definition validate_tables :: "validate_env \<Rightarrow> raw_config \<Rightarrow> (f64 poll_config \<times> duration \<times> f64 flow_config list) validation" where
  "validate_tables env raw = do {
     poll \<leftarrow> validate_poll_defaults env (rwc_poll raw);
     http \<leftarrow> validate_http env (rwc_http raw);
     (if rwc_flow raw = [] then
        validate_err env [] None ''flow'' ''[]'' ''at least one flow is required''
          ''add a [[flow]] block with name, source, and action''
      else State_Monad.return ());
     (name_index, flow_cfgs) \<leftarrow> validate_flows env [] (rwc_flow raw);
     report_duplicate_names env (sorted_entries name_index);
     s \<leftarrow> State_Monad.get;
     report_env_collisions env (sorted_entries (v_env_var_index s));
     State_Monad.return (poll, http, flow_cfgs) }"

definition validate :: "validate_env \<Rightarrow> raw_config \<Rightarrow> config_error list + loaded_config" where
  "validate env raw =
     (let ((poll, http, flow_cfgs), s) = run_state (validate_tables env raw)
            \<lparr>v_errors = [], v_env_var_index = [], v_credential_lines = []\<rparr>;
          credential_lines = map (\<lambda>(cid, ls). (cid, sort (remdups ls))) (v_credential_lines s)
      in if v_errors s = []
         then Inr \<lparr>cf_poll = poll, cf_request_timeout = http, cf_flow = flow_cfgs, lc_source_path = ve_path env,
                lc_log_filter = rwc_log_filter raw, lc_credential_lines = credential_lines\<rparr>
         else Inl (v_errors s))"

text \<open>
  \<open>toml::from_str\<close> is the argument \<open>decode\<close>: the tables, or the message with the offset it is about.
\<close>

definition map_toml_error :: "validate_env \<Rightarrow> nat option \<times> string \<Rightarrow> config_error" where
  "map_toml_error env err = ParseError (ve_path env)
     (case fst err of Some start \<Rightarrow> byte_offset_to_line (ve_source env) start | None \<Rightarrow> 1) (snd err)"

definition load_str ::
  "(string \<Rightarrow> (nat option \<times> string) + raw_config) \<Rightarrow> validate_env \<Rightarrow> config_error list + loaded_config" where
  "load_str decode env =
     (case decode (ve_source env) of
        Inl e \<Rightarrow> Inl [map_toml_error env e]
      | Inr raw \<Rightarrow> validate env raw)"

definition load ::
  "(string \<Rightarrow> (nat option \<times> string) + raw_config) \<Rightarrow> string + string \<Rightarrow> validate_env \<Rightarrow> config_error list + loaded_config"
where
  "load decode contents env =
     (case contents of
        Inl e \<Rightarrow> Inl [ParseError (ve_path env) 0 (''could not read config file: '' @ e)]
      | Inr source \<Rightarrow> load_str decode (env\<lparr>ve_source := source\<rparr>))"

section \<open>Credentials of a configuration\<close>

datatype credential_kind = SourceFetch | GithubPat string | DiscordWebhookKind

record credential_ref =
  cr_id :: string
  cr_flow :: string
  cr_kind :: credential_kind

definition flow_credentials :: "'j flow_config \<Rightarrow> credential_ref list" where
  "flow_credentials flow =
     (case src_credential (fc_source flow) of
        Some cid \<Rightarrow> [\<lparr>cr_id = cid, cr_flow = fc_name flow, cr_kind = SourceFetch\<rparr>] | None \<Rightarrow> []) @
     (case fc_action flow of GithubWorkflowDispatch repo _ _ _ cid \<Rightarrow>
        [\<lparr>cr_id = cid, cr_flow = fc_name flow, cr_kind = GithubPat repo\<rparr>]) @
     concat (map (\<lambda>d. case d of
        DiscordWebhook cid _ _ \<Rightarrow> [\<lparr>cr_id = cid, cr_flow = fc_name flow, cr_kind = DiscordWebhookKind\<rparr>]
      | LocalMail _ _ _ \<Rightarrow> []) (fc_destination flow))"

definition walk_credentials :: "'j flow_config list \<Rightarrow> credential_ref list" where
  "walk_credentials flow_cfgs = concat (map flow_credentials flow_cfgs)"

end
