(* ===== verification/Config_Checks.thy ===== *)
theory Config_Checks
  imports Config_Validate "HOL-Library.Sublist"
begin

text \<open>
  What the validator accepts. A validator is a run of the state monad that only appends errors;
  \<open>checks m A r ids\<close> says that \<open>m\<close> appends none exactly if \<open>A\<close> holds, and that it then returns \<open>r\<close>
  and records the credential ids \<open>ids\<close>. The rules for sequencing give the conditions under which a
  whole configuration is accepted, and the configuration that results.
\<close>

section \<open>Relations along a run\<close>

locale run_relation =
  fixes R :: "'s \<Rightarrow> 's \<Rightarrow> bool"
  assumes refl: "R s s"
    and trans: "R s t \<Longrightarrow> R t u \<Longrightarrow> R s u"
begin

lemma rel_return: "state_io_rel R (State_Monad.return x)"
  by (simp add: state_io_rel_def refl)

lemma rel_bind:
  "state_io_rel R m \<Longrightarrow> (\<And>x. state_io_rel R (f x)) \<Longrightarrow> state_io_rel R (State_Monad.bind m f)"
  unfolding state_io_rel_def run_state_bind by (auto split: prod.splits intro: trans)

lemma rel_bind_pred:
  "state_io_rel R m \<Longrightarrow> pred_state P m \<Longrightarrow> (\<And>x. P x \<Longrightarrow> state_io_rel R (f x)) \<Longrightarrow> state_io_rel R (State_Monad.bind m f)"
proof (rule state_io_relI)
  fix a s s'
  assume m: "state_io_rel R m" and p: "pred_state P m" and f: "\<And>x. P x \<Longrightarrow> state_io_rel R (f x)"
    and run: "run_state (State_Monad.bind m f) s = (a, s')"
  obtain x t where x: "run_state m s = (x, t)" by (cases "run_state m s")
  with run have "run_state (f x) t = (a, s')" by simp
  with f [OF pred_stateD [OF p x]] have "R t s'" by (rule state_io_relD)
  with state_io_relD [OF m x] show "R s s'" by (rule trans)
qed

lemma rel_if: "(c \<Longrightarrow> state_io_rel R m) \<Longrightarrow> (\<not> c \<Longrightarrow> state_io_rel R n) \<Longrightarrow> state_io_rel R (if c then m else n)"
  by simp

lemma rel_option:
  "(o' = None \<Longrightarrow> state_io_rel R m) \<Longrightarrow> (\<And>x. o' = Some x \<Longrightarrow> state_io_rel R (f x))
    \<Longrightarrow> state_io_rel R (case o' of None \<Rightarrow> m | Some x \<Rightarrow> f x)"
  by (cases o') simp_all

lemma rel_sum:
  "(\<And>e. v = Inl e \<Longrightarrow> state_io_rel R (f e)) \<Longrightarrow> (\<And>x. v = Inr x \<Longrightarrow> state_io_rel R (g x))
    \<Longrightarrow> state_io_rel R (case v of Inl e \<Rightarrow> f e | Inr x \<Rightarrow> g x)"
  by (cases v) simp_all

lemma rel_prod: "(\<And>a b. state_io_rel R (f a b)) \<Longrightarrow> state_io_rel R (case p of (a, b) \<Rightarrow> f a b)"
  by (cases p) simp

lemmas rel_intros = rel_return rel_bind rel_if rel_option rel_sum rel_prod

end

lemma and_then_case: "and_then x f = (case x of None \<Rightarrow> State_Monad.return None | Some y \<Rightarrow> f y)"
  by (cases x) simp_all

abbreviation appends :: "'a validation \<Rightarrow> bool" where
  "appends \<equiv> state_io_rel (\<lambda>s s'. prefix (v_errors s) (v_errors s'))"

interpretation ap: run_relation "\<lambda>s s'. prefix (v_errors s) (v_errors s')"
  by unfold_locales auto

named_theorems appends_intros \<open>validators that only append errors\<close>

declare ap.rel_intros [appends_intros]

lemma appends_and_then [appends_intros]: "(\<And>x. appends (f x)) \<Longrightarrow> appends (and_then y f)"
  by (auto simp: and_then_case intro!: appends_intros)

lemma appends_push_error [appends_intros]: "appends (push_error e)"
  by (simp add: state_io_rel_def push_error_def)

lemma appends_validate_err [appends_intros]: "appends (validate_err env ls flow field val msg sug)"
  by (simp add: validate_err_def appends_push_error)

lemma appends_cadence [appends_intros]:
  "appends (parse_bounded_duration env field flow lo hi s)"
  "appends (parse_interval env field flow s)"
  "appends (parse_cooldown env field flow s)"
  "appends (parse_jitter env field flow j)"
  "appends (validate_poll_defaults env raw)"
  "appends (validate_http env http)"
  "appends (validate_poll_override env name raw)"
  by (auto simp: parse_bounded_duration_def parse_interval_def parse_cooldown_def parse_jitter_def and_then_case
      validate_poll_defaults_def validate_http_def validate_poll_override_def Let_def intro!: appends_intros)

lemma appends_template [appends_intros]: "appends (compile_template_field env name field t)"
  by (auto simp: compile_template_field_def and_then_case Let_def intro!: appends_intros)

lemma appends_credential_id [appends_intros]: "appends (validate_credential_id env field name s)"
  by (auto simp: validate_credential_id_def Let_def state_io_rel_def intro!: appends_intros
      split: sum.splits) (simp add: validate_err_def push_error_def)

lemma appends_fire_on_from [appends_intros]: "appends (collect_fire_on_from env field name out es)"
  by (induction es arbitrary: out) (auto simp: Let_def intro!: appends_intros)

lemma appends_fire_on [appends_intros]: "appends (collect_fire_on env field name es)"
  by (auto simp: collect_fire_on_def split: option.splits intro!: appends_intros)

lemma appends_reject [appends_intros]: "appends (reject_cross_kind_template_fields env name owning current fs)"
  by (induction fs) (auto intro!: appends_intros)

lemma appends_destination [appends_intros]:
  "appends (validate_discord_template env name t)"
  "appends (validate_local_mail_template env name t)"
  "appends (validate_local_mail_user env name l u)"
  "appends (validate_discord env name l d)"
  "appends (validate_local_mail env name l d)"
  by (auto simp: validate_discord_template_def validate_local_mail_template_def validate_local_mail_user_def
      validate_discord_def validate_local_mail_def intro!: appends_intros)

lemma appends_destinations [appends_intros]: "appends (validate_destinations env name ds)"
  by (induction ds) (auto simp: Let_def intro!: appends_intros)

lemma appends_flow_parts [appends_intros]:
  "appends (validate_flow_name env n)"
  "appends (validate_source env name src)"
  "appends (require_field env name l field f)"
  "appends (check_repo env name f)"
  "appends (check_workflow env name f)"
  "appends (check_action_ref env name f)"
  "appends (check_inputs env name l inputs)"
  by (auto simp: validate_flow_name_def validate_source_def require_field_def check_repo_def check_workflow_def
      check_action_ref_def check_inputs_def and_then_case Let_def intro!: appends_intros)

lemma appends_flow [appends_intros]:
  "appends (validate_action env name a)"
  "appends (validate_flow env name f)"
  by (auto simp: validate_action_def validate_flow_def Let_def intro!: appends_intros)

lemma appends_flows [appends_intros]: "appends (validate_flows env idx fs)"
  by (induction fs arbitrary: idx) (auto simp: Let_def intro!: appends_intros)

lemma appends_reports [appends_intros]:
  "appends (report_duplicate_names env ns)"
  "appends (report_env_collisions env vs)"
  by (induction ns) (auto intro!: appends_intros, induction vs, auto simp: Let_def intro!: appends_intros)

section \<open>Lines of errors\<close>

lemma byte_offset_to_line_eq:
  "byte_offset_to_line source offset = 1 + count_list (take offset source) (CHR 0x0A)"
proof -
  have "foldl (\<lambda>line b. if b = CHR 0x0A then line + 1 else line) n bs = n + count_list bs (CHR 0x0A)" for n bs
    by (induction bs arbitrary: n) auto
  then show ?thesis unfolding byte_offset_to_line_def by (simp add: min_def)
qed

definition valid_line :: "validate_env \<Rightarrow> nat \<Rightarrow> bool" where
  "valid_line env l \<longleftrightarrow> 1 \<le> l \<and> l \<le> 1 + count_list (ve_source env) (CHR 0x0A)"

lemma valid_line_offset: "valid_line env (byte_offset_to_line (ve_source env) offset)"
proof -
  have "count_list (take offset xs) x \<le> count_list xs x" for xs :: string and x
    by (metis append_take_drop_id count_list_append le_add1)
  then show ?thesis by (simp add: valid_line_def byte_offset_to_line_eq)
qed

lemma valid_line_span [simp]: "valid_line env (span_line env s)"
  by (simp add: span_line_def valid_line_offset)

lemma valid_line_one [simp]: "valid_line env 1" "valid_line env (Suc 0)"
  by (simp_all add: valid_line_def)

fun error_lines :: "config_error \<Rightarrow> nat list" where
  "error_lines (ParseError _ l _) = [l]"
| "error_lines (ValidateError _ ls _ _ _ _ _) = ls"
| "error_lines (CredentialNotFound _ ls _ _ _) = ls"
| "error_lines (CredentialInvariant _ _ _) = []"
| "error_lines (TemplateCompile _ l _ _ _) = [l]"

definition lines_of_index :: "(string \<times> (string \<times> nat \<times> string) list) list \<Rightarrow> nat set" where
  "lines_of_index m = (\<Union>occ \<in> ran (map_of m). (fst \<circ> snd) ` set occ)"

definition lines_ok :: "validate_env \<Rightarrow> validate_state \<Rightarrow> bool" where
  "lines_ok env s \<longleftrightarrow> (\<forall>e \<in> set (v_errors s). \<forall>l \<in> set (error_lines e). valid_line env l) \<and>
     (\<forall>l \<in> lines_of_index (v_env_var_index s). valid_line env l)"

abbreviation located :: "validate_env \<Rightarrow> 'a validation \<Rightarrow> bool" where
  "located env \<equiv> state_io_rel (\<lambda>s s'. lines_ok env s \<longrightarrow> lines_ok env s')"

interpretation lo: run_relation "\<lambda>s s'. lines_ok env s \<longrightarrow> lines_ok env s'" for env
  by unfold_locales auto

named_theorems located_intros \<open>validators whose errors name lines of the file\<close>

declare lo.rel_intros [located_intros]

lemma located_push_error [located_intros]:
  "(\<And>l. l \<in> set (error_lines e) \<Longrightarrow> valid_line env l) \<Longrightarrow> located env (push_error e)"
  by (auto simp: state_io_rel_def push_error_def lines_ok_def)

lemma located_validate_err [located_intros]:
  "(\<And>l. l \<in> set ls \<Longrightarrow> valid_line env l) \<Longrightarrow> located env (validate_err env ls flow field val msg sug)"
  unfolding validate_err_def by (rule located_push_error) (auto split: if_splits)

lemma located_cadence [located_intros]:
  "located env (parse_bounded_duration env field flow lo hi s)"
  "located env (parse_interval env field flow s)"
  "located env (parse_cooldown env field flow s)"
  "located env (parse_jitter env field flow j)"
  "located env (validate_poll_defaults env raw)"
  "located env (validate_http env http)"
  "located env (validate_poll_override env name raw)"
  by (auto simp: parse_bounded_duration_def parse_interval_def parse_cooldown_def parse_jitter_def and_then_case
      validate_poll_defaults_def validate_http_def validate_poll_override_def Let_def intro!: located_intros)

lemma located_template [located_intros]: "located env (compile_template_field env name field t)"
  by (auto simp: compile_template_field_def and_then_case Let_def intro!: located_intros)

lemma map_of_push_entry:
  "map_of (push_entry k v m) = (map_of m)(k \<mapsto> (case map_of m k of Some vs \<Rightarrow> vs | None \<Rightarrow> []) @ [v])"
  by (simp add: push_entry_def update_conv')

lemma lines_of_index_push: "lines_of_index (push_entry k (cid, l, f) m) \<subseteq> insert l (lines_of_index m)"
  by (auto simp: lines_of_index_def map_of_push_entry ran_def split: if_splits option.splits) force+

lemma located_credential_id [located_intros]: "located env (validate_credential_id env field name s)"
proof (cases "validate_id_str (get_ref s)")
  case (Inl e)
  then show ?thesis by (auto simp: validate_credential_id_def Let_def intro!: located_intros)
next
  case (Inr u)
  then show ?thesis
    using lines_of_index_push [of "id_to_env (get_ref s)" "get_ref s" "span_line env s" name]
    by (fastforce simp: validate_credential_id_def Let_def state_io_rel_def lines_ok_def)
qed

lemma located_fire_on_from [located_intros]: "located env (collect_fire_on_from env field name out es)"
  by (induction es arbitrary: out) (auto simp: Let_def intro!: located_intros)

lemma located_fire_on [located_intros]: "located env (collect_fire_on env field name es)"
  by (auto simp: collect_fire_on_def split: option.splits intro!: located_intros)

lemma located_reject [located_intros]: "located env (reject_cross_kind_template_fields env name owning current fs)"
  by (induction fs) (auto intro!: located_intros)

lemma located_destination [located_intros]:
  "located env (validate_discord_template env name t)"
  "located env (validate_local_mail_template env name t)"
  "valid_line env l \<Longrightarrow> located env (validate_local_mail_user env name l u)"
  "valid_line env l \<Longrightarrow> located env (validate_discord env name l d)"
  by (auto simp: validate_discord_template_def validate_local_mail_template_def validate_local_mail_user_def
      validate_discord_def intro!: located_intros)

lemma located_local_mail [located_intros]: "valid_line env l \<Longrightarrow> located env (validate_local_mail env name l d)"
  by (cases "rd_user d") (auto simp: validate_local_mail_def intro!: located_intros)

lemma located_destinations [located_intros]: "located env (validate_destinations env name ds)"
  by (induction ds) (auto simp: Let_def intro!: located_intros)

lemma located_flow_parts [located_intros]:
  "located env (validate_flow_name env n)"
  "located env (validate_source env name src)"
  "valid_line env l \<Longrightarrow> located env (require_field env name l field f)"
  "located env (check_repo env name f)"
  "located env (check_workflow env name f)"
  "located env (check_action_ref env name f)"
  "valid_line env l \<Longrightarrow> located env (check_inputs env name l inputs)"
  by (auto simp: validate_flow_name_def validate_source_def require_field_def check_repo_def check_workflow_def
      check_action_ref_def check_inputs_def and_then_case Let_def intro!: located_intros)

lemma located_flow [located_intros]:
  "located env (validate_action env name a)"
  "located env (validate_flow env name f)"
  by (auto simp: validate_action_def validate_flow_def Let_def intro!: located_intros)

text \<open>The index of names holds lines of the file.\<close>

definition name_index_ok :: "validate_env \<Rightarrow> (string \<times> nat list) list \<Rightarrow> bool" where
  "name_index_ok env idx \<longleftrightarrow> (\<forall>n ls. map_of idx n = Some ls \<longrightarrow> (\<forall>l \<in> set ls. valid_line env l))"

lemma name_index_ok_push: "name_index_ok env idx \<Longrightarrow> valid_line env l \<Longrightarrow> name_index_ok env (push_entry n l idx)"
  unfolding name_index_ok_def map_of_push_entry by (cases "map_of idx n") auto

lemma pred_bind: "(\<And>x. pred_state P (f x)) \<Longrightarrow> pred_state P (State_Monad.bind m f)"
  by (blast intro: bind_predI)

lemma pred_return: "pred_state P (State_Monad.return x) \<longleftrightarrow> P x"
  by (metis pred_stateD pred_stateI prod.inject run_state_return)

lemma flows_name_index: "name_index_ok env idx \<Longrightarrow> pred_state (\<lambda>r. name_index_ok env (fst r)) (validate_flows env idx fs)"
proof (induction fs arbitrary: idx)
  case Nil
  then show ?case by auto
next
  case (Cons f fs)
  have "pred_state (\<lambda>r. name_index_ok env (fst r)) (validate_flows env
      (if ok then push_entry (get_ref (rf_name f)) (span_line env (rf_name f)) idx else idx) fs)" for ok
    using Cons name_index_ok_push [OF Cons.prems] by (cases ok) simp_all
  note tail = this
  show ?case unfolding validate_flows.simps Let_def
    by (intro pred_bind bind_predI, rule state.pred_mono_strong [OF tail]) (auto simp: pred_return)
qed

lemma located_flows [located_intros]: "located env (validate_flows env idx fs)"
  by (induction fs arbitrary: idx) (auto simp: Let_def intro!: located_intros)

lemma located_duplicates:
  "(\<And>n ls l. (n, ls) \<in> set ns \<Longrightarrow> l \<in> set ls \<Longrightarrow> valid_line env l) \<Longrightarrow> located env (report_duplicate_names env ns)"
proof (induction ns)
  case (Cons p ns)
  obtain n ls where p: "p = (n, ls)" by (cases p)
  have "located env (report_duplicate_names env ns)" using Cons by (meson list.set_intros(2))
  moreover have "valid_line env l" if "l \<in> set ls" for l using that Cons.prems p by auto
  ultimately show ?case by (auto simp: p intro!: located_intros)
qed (simp add: located_intros)

lemma located_collisions:
  "(\<And>v occ oc. (v, occ) \<in> set vs \<Longrightarrow> oc \<in> set occ \<Longrightarrow> valid_line env (fst (snd oc))) \<Longrightarrow> located env (report_env_collisions env vs)"
proof (induction vs)
  case (Cons p vs)
  obtain v occ where p: "p = (v, occ)" by (cases p)
  have "located env (report_env_collisions env vs)" using Cons by (meson list.set_intros(2))
  moreover have "valid_line env (fst (snd oc))" if "oc \<in> set occ" for oc
    using Cons.prems [of v occ oc] that p by simp
  ultimately show ?case by (auto simp: p Let_def intro!: located_intros)
qed (simp add: located_intros)

section \<open>Acceptance conditions\<close>

text \<open>The ids recorded with the variable they map to.\<close>

definition recorded :: "validate_state \<Rightarrow> (string \<times> string) set" where
  "recorded s = {(v, cid). \<exists>occ. map_of (v_env_var_index s) v = Some occ \<and> cid \<in> fst ` set occ}"

definition checks :: "'a validation \<Rightarrow> bool \<Rightarrow> 'a \<Rightarrow> string list \<Rightarrow> bool" where
  "checks m A r ids \<longleftrightarrow> (\<forall>s x s'. run_state m s = (x, s') \<longrightarrow>
     (\<exists>es. v_errors s' = v_errors s @ es \<and> (es = [] \<longleftrightarrow> A)) \<and>
     (A \<longrightarrow> x = r \<and> recorded s' = recorded s \<union> (\<lambda>cid. (id_to_env cid, cid)) ` set ids))"

lemma checksD:
  assumes "checks m A r ids" and "run_state m s = (x, s')"
  shows "\<exists>es. v_errors s' = v_errors s @ es \<and> (es = [] \<longleftrightarrow> A)"
    and "A \<Longrightarrow> x = r" and "A \<Longrightarrow> recorded s' = recorded s \<union> (\<lambda>cid. (id_to_env cid, cid)) ` set ids"
  using assms unfolding checks_def by blast+

lemma checks_return: "checks (State_Monad.return r) True r []"
  by (simp add: checks_def)

lemma checks_bind:
  assumes m: "checks m A r ids" and f: "\<And>x. appends (f x)" and n: "A \<Longrightarrow> checks (f r) B q jds"
  shows "checks (State_Monad.bind m f) (A \<and> B) q (ids @ jds)"
  unfolding checks_def
proof (intro allI impI)
  fix s y u
  assume "run_state (State_Monad.bind m f) s = (y, u)"
  then obtain x t where x: "run_state m s = (x, t)" and y: "run_state (f x) t = (y, u)"
    by (auto split: prod.splits)
  obtain es where es: "v_errors t = v_errors s @ es" "es = [] \<longleftrightarrow> A" using checksD(1) [OF m x] by blast
  show "(\<exists>es. v_errors u = v_errors s @ es \<and> (es = [] \<longleftrightarrow> A \<and> B)) \<and>
    (A \<and> B \<longrightarrow> y = q \<and> recorded u = recorded s \<union> (\<lambda>cid. (id_to_env cid, cid)) ` set (ids @ jds))"
  proof (cases A)
    case True
    with checksD(2,3) [OF m x] have "x = r" and rec: "recorded t = recorded s \<union> (\<lambda>cid. (id_to_env cid, cid)) ` set ids" by auto
    with y have y': "run_state (f r) t = (y, u)" by simp
    obtain fs where "v_errors u = v_errors t @ fs" "fs = [] \<longleftrightarrow> B" using checksD(1) [OF n [OF True] y'] by blast
    with True es checksD(2,3) [OF n [OF True] y'] rec show ?thesis by auto
  next
    case False
    from f y have "prefix (v_errors t) (v_errors u)" by (rule state_io_relD)
    with False es show ?thesis by (auto simp: prefix_def)
  qed
qed

lemma checks_cong:
  "checks m A r ids \<Longrightarrow> A \<longleftrightarrow> A' \<Longrightarrow> (A' \<Longrightarrow> r = r') \<Longrightarrow> (A' \<Longrightarrow> set ids = set ids') \<Longrightarrow> checks m A' r' ids'"
  by (simp add: checks_def)

lemma checks_push: "checks (push_error e) False r ids"
  by (simp add: checks_def push_error_def)

lemma checks_err: "checks (validate_err env ls flow field val msg sug) False r ids"
  by (simp add: validate_err_def checks_push)

lemma checks_fail: "checks m False r ids \<Longrightarrow> (\<And>x. appends (f x)) \<Longrightarrow> checks (State_Monad.bind m f) False r' ids'"
  using checks_bind [of m False r ids f False r' "[]"] by (simp add: checks_def)

lemmas checks_fails = checks_fail [OF checks_push] checks_fail [OF checks_err]

lemma checks_if:
  "(c \<Longrightarrow> checks m A r ids) \<Longrightarrow> (\<not> c \<Longrightarrow> checks n B r ids) \<Longrightarrow> checks (if c then m else n) (if c then A else B) r ids"
  by simp

lemma checks_and_then:
  assumes "\<And>x. o' = Some x \<Longrightarrow> checks (f x) (P x) (Some (g x)) (h x)"
  shows "checks (and_then o' f) (pred_option P o') (map_option g o') (case o' of None \<Rightarrow> [] | Some x \<Rightarrow> h x)"
  using assms by (cases o') (simp_all add: checks_return)

section \<open>Conditions per table\<close>

definition duration_ok :: "validate_env \<Rightarrow> duration \<Rightarrow> duration \<Rightarrow> string spanned \<Rightarrow> bool" where
  "duration_ok env lo hi s \<longleftrightarrow> (\<exists>d. ve_parse_duration env (get_ref s) = Inr d \<and> lo \<le> d \<and> d \<le> hi)"

definition cooldown_ok :: "validate_env \<Rightarrow> string spanned \<Rightarrow> bool" where
  "cooldown_ok env s \<longleftrightarrow> ve_parse_duration env (get_ref s) = Inr 0 \<or> duration_ok env MIN_INTERVAL MAX_INTERVAL s"

definition jitter_ok :: "f64 \<Rightarrow> bool" where
  "jitter_ok v \<longleftrightarrow> (\<exists>q. v = Finite q \<and> 0 \<le> q \<and> q \<le> 1 / 2)"

definition duration_of :: "validate_env \<Rightarrow> string spanned \<Rightarrow> duration" where
  "duration_of env s = projr (ve_parse_duration env (get_ref s))"

definition poll_ok :: "validate_env \<Rightarrow> raw_poll \<Rightarrow> bool" where
  "poll_ok env raw \<longleftrightarrow>
     pred_option (duration_ok env MIN_INTERVAL MAX_INTERVAL) (rp_source_interval raw) \<and>
     pred_option (duration_ok env MIN_INTERVAL MAX_INTERVAL) (rp_job_interval raw) \<and>
     pred_option (\<lambda>s. jitter_ok (get_ref s)) (rp_jitter raw) \<and> pred_option (cooldown_ok env) (rp_cooldown raw)"

definition override_of :: "validate_env \<Rightarrow> raw_poll \<Rightarrow> f64 poll_override" where
  "override_of env raw = \<lparr>po_source_interval = map_option (duration_of env) (rp_source_interval raw),
     po_job_interval = map_option (duration_of env) (rp_job_interval raw),
     po_jitter = map_option get_ref (rp_jitter raw), po_cooldown = map_option (duration_of env) (rp_cooldown raw)\<rparr>"

definition defaults_of :: "f64 poll_override \<Rightarrow> f64 poll_config" where
  "defaults_of ov = \<lparr>pc_source_interval = po_source_interval ov,
     pc_job_interval = unwrap_or (po_job_interval ov) (from_secs 30),
     pc_jitter = unwrap_or (po_jitter ov) (Finite (3602879701896397 / 36028797018963968)),
     pc_cooldown = unwrap_or (po_cooldown ov) (from_secs 300)\<rparr>"

lemma f64_le_bounds: "f64_le MIN_JITTER v \<and> f64_le v MAX_JITTER \<longleftrightarrow> jitter_ok v"
  by (cases v) (auto simp: jitter_ok_def MIN_JITTER_def MAX_JITTER_def)

lemma checks_duration:
  "checks (parse_bounded_duration env field flow lo hi s) (duration_ok env lo hi s) (Some (duration_of env s)) []"
proof (cases "ve_parse_duration env (get_ref s)")
  case (Inl e)
  then have "\<not> duration_ok env lo hi s" by (simp add: duration_ok_def)
  with Inl show ?thesis by (auto simp: parse_bounded_duration_def Let_def intro!: checks_fails appends_intros)
next
  case (Inr d)
  then have "duration_ok env lo hi s \<longleftrightarrow> \<not> (d < lo \<or> d > hi)" "duration_of env s = d" by (auto simp: duration_ok_def duration_of_def)
  with Inr show ?thesis
    by (auto simp: parse_bounded_duration_def Let_def intro!: checks_fails appends_intros checks_return [THEN checks_cong])
qed

lemma checks_cooldown: "checks (parse_cooldown env field flow s) (cooldown_ok env s) (Some (duration_of env s)) []"
proof (cases "ve_parse_duration env (get_ref s)")
  case (Inl e)
  then have "\<not> cooldown_ok env s" by (simp add: cooldown_ok_def duration_ok_def)
  with Inl show ?thesis by (auto simp: parse_cooldown_def Let_def intro!: checks_fails appends_intros)
next
  case (Inr d)
  then have "cooldown_ok env s \<longleftrightarrow> d = 0 \<or> \<not> (d < MIN_INTERVAL \<or> d > MAX_INTERVAL)" "duration_of env s = d"
    by (auto simp: cooldown_ok_def duration_ok_def duration_of_def)
  with Inr show ?thesis
    by (auto simp: parse_cooldown_def Let_def intro!: checks_fails appends_intros checks_return [THEN checks_cong])
qed

lemma checks_jitter: "checks (parse_jitter env field flow s) (jitter_ok (get_ref s)) (Some (get_ref s)) []"
  using f64_le_bounds [of "get_ref s"]
  by (auto simp: parse_jitter_def Let_def intro!: checks_fails appends_intros checks_return [THEN checks_cong])

lemmas checks_cadence = checks_and_then [OF checks_duration] checks_and_then [OF checks_cooldown] checks_and_then [OF checks_jitter]

lemma checks_poll_override:
  "checks (validate_poll_override env name raw) (poll_ok env raw) (override_of env raw) []"
  unfolding validate_poll_override_def parse_interval_def
  by (rule checks_cong, (rule checks_bind, rule checks_cadence, intro appends_intros)+, rule checks_return)
    (auto simp: poll_ok_def override_of_def split: option.splits)

lemma checks_poll_defaults:
  "checks (validate_poll_defaults env raw) (poll_ok env raw) (defaults_of (override_of env raw)) []"
  unfolding validate_poll_defaults_def parse_interval_def
  by (rule checks_cong, (rule checks_bind, rule checks_cadence, intro appends_intros)+, rule checks_return)
    (auto simp: poll_ok_def override_of_def defaults_of_def default_poll_def split: option.splits)

definition http_ok :: "validate_env \<Rightarrow> raw_http \<Rightarrow> bool" where
  "http_ok env raw \<longleftrightarrow> pred_option (duration_ok env MIN_HTTP_TIMEOUT MAX_HTTP_TIMEOUT) (rh_request_timeout raw)"

definition http_of :: "validate_env \<Rightarrow> raw_http \<Rightarrow> duration" where
  "http_of env raw = unwrap_or (map_option (duration_of env) (rh_request_timeout raw)) (from_secs 30)"

lemma checks_http: "checks (validate_http env raw) (http_ok env raw) (http_of env raw) []"
  unfolding validate_http_def
  by (rule checks_cong, (rule checks_bind, rule checks_cadence, intro appends_intros)+, rule checks_return)
    (auto simp: http_ok_def http_of_def default_request_timeout_def split: option.splits)

definition template_ok :: "validate_env \<Rightarrow> string spanned \<Rightarrow> bool" where
  "template_ok env s \<longleftrightarrow> (\<exists>tpl out. ve_compile env (get_ref s) = Inr tpl \<and> find_bare_name tpl = None \<and>
     ve_render env (get_ref s) probe_context = Inr out)"

lemma checks_template:
  "checks (compile_template_field env name field t) (pred_option (template_ok env) t) (map_option get_ref t) []"
proof -
  have "checks (let raw = get_ref s; line = span_line env s in case ve_compile env raw of
       Inl e \<Rightarrow> State_Monad.bind (push_error (TemplateCompile (ve_path env) line name field e)) (\<lambda>_. State_Monad.return None)
     | Inr tpl \<Rightarrow> (case find_bare_name tpl of
         Some bare \<Rightarrow> State_Monad.bind (validate_err env [line] (Some name) field raw (m1 bare) (m2 bare)) (\<lambda>_. State_Monad.return None)
       | None \<Rightarrow> (case ve_render env raw probe_context of
           Inl e \<Rightarrow> State_Monad.bind (validate_err env [line] (Some name) field raw (m3 e) m4) (\<lambda>_. State_Monad.return None)
         | Inr _ \<Rightarrow> State_Monad.return (Some raw)))) (template_ok env s) (Some (get_ref s)) []" for s m1 m2 m3 m4
    by (auto simp: template_ok_def Let_def split: sum.splits option.splits
        intro!: checks_fails appends_intros checks_return [THEN checks_cong])
  then have "checks (compile_template_field env name field t) (pred_option (template_ok env) t)
      (map_option get_ref t) (case t of None \<Rightarrow> [] | Some _ \<Rightarrow> [])"
    unfolding compile_template_field_def by (rule checks_and_then)
  then show ?thesis by (rule checks_cong) (auto split: option.splits)
qed

definition credential_ok :: "string spanned \<Rightarrow> bool" where
  "credential_ok s \<longleftrightarrow> validate_id_str (get_ref s) = Inr ()"

lemma recorded_push:
  "recorded (s\<lparr>v_env_var_index := push_entry (id_to_env cid) (cid, l, f) (v_env_var_index s), v_credential_lines := cl\<rparr>) =
     insert (id_to_env cid, cid) (recorded s)"
  by (auto simp: recorded_def map_of_push_entry split: option.splits if_splits) force+

lemma checks_credential:
  "checks (validate_credential_id env field name s) (credential_ok s) (Some (get_ref s)) [get_ref s]"
proof (cases "validate_id_str (get_ref s)")
  case (Inl e)
  then show ?thesis by (auto simp: validate_credential_id_def credential_ok_def Let_def intro!: checks_fails appends_intros)
next
  case (Inr u)
  then show ?thesis by (simp add: validate_credential_id_def credential_ok_def Let_def checks_def recorded_push)
qed

definition events_of :: "fire_event spanned list option \<Rightarrow> fire_event list" where
  "events_of fire_on = (case fire_on of Some es \<Rightarrow> map get_ref es | None \<Rightarrow> [RunCompleteEvent])"

lemma checks_fire_on_from:
  "distinct out \<Longrightarrow> checks (collect_fire_on_from env field name out es) (distinct (out @ map get_ref es)) (out @ map get_ref es) []"
proof (induction es arbitrary: out)
  case Nil
  then show ?case by (simp add: checks_return [THEN checks_cong])
next
  case (Cons e es)
  show ?case
  proof (cases "get_ref e \<in> set out")
    case True
    then show ?thesis by (auto simp: Let_def intro!: checks_fails appends_intros)
  next
    case False
    with Cons.IH [of "out @ [get_ref e]"] Cons.prems show ?thesis by (simp add: Let_def)
  qed
qed

lemma checks_fire_on: "checks (collect_fire_on env field name fire_on) (distinct (events_of fire_on)) (events_of fire_on) []"
  using checks_fire_on_from [of "[]" env field name]
  by (auto simp: collect_fire_on_def events_of_def split: option.splits intro!: checks_return [THEN checks_cong])

lemma checks_absent:
  "checks (case y of None \<Rightarrow> State_Monad.return () | Some s \<Rightarrow> validate_err env (ls s) flow (field s) (val s) (msg s) (sug s))
     (y = None) () []"
  by (cases y) (auto intro: checks_return [THEN checks_cong] checks_err)

lemma checks_reject:
  "checks (reject_cross_kind_template_fields env name owning current fs) (\<forall>x \<in> set fs. snd x = None) () []"
proof (induction fs)
  case Nil
  then show ?case by (simp add: checks_return)
next
  case (Cons p fs)
  obtain field y where p: "p = (field, y)" by (cases p)
  show ?case unfolding p reject_cross_kind_template_fields.simps
    by (rule checks_cong, rule checks_bind, rule checks_absent, intro appends_intros, rule Cons.IH) auto
qed

definition discord_template_ok :: "validate_env \<Rightarrow> raw_template \<Rightarrow> bool" where
  "discord_template_ok env t \<longleftrightarrow> rt_subject t = None \<and> rt_body t = None \<and>
     (\<forall>y \<in> {rt_title t, rt_description t, rt_field_name t, rt_field_value t, rt_collapsed_summary t}. pred_option (template_ok env) y)"

definition discord_template_of :: "raw_template \<Rightarrow> discord_template" where
  "discord_template_of t = \<lparr>dt_title = map_option get_ref (rt_title t), dt_description = map_option get_ref (rt_description t),
     dt_field_name = map_option get_ref (rt_field_name t), dt_field_value = map_option get_ref (rt_field_value t),
     dt_collapsed_summary = map_option get_ref (rt_collapsed_summary t)\<rparr>"

lemma checks_discord_template:
  "checks (validate_discord_template env name t) (discord_template_ok env t) (discord_template_of t) []"
  unfolding validate_discord_template_def
  by (rule checks_cong, rule checks_bind, rule checks_reject, intro appends_intros,
      (rule checks_bind, rule checks_template, intro appends_intros)+, rule checks_return)
    (auto simp: discord_template_ok_def discord_template_of_def)

definition mail_template_ok :: "validate_env \<Rightarrow> raw_template \<Rightarrow> bool" where
  "mail_template_ok env t \<longleftrightarrow> pred_option (template_ok env) (rt_subject t) \<and> pred_option (template_ok env) (rt_body t) \<and>
     (\<forall>y \<in> {rt_title t, rt_description t, rt_field_name t, rt_field_value t, rt_collapsed_summary t}. y = None)"

definition mail_template_of :: "raw_template \<Rightarrow> mail_template" where
  "mail_template_of t = \<lparr>mt_subject = map_option get_ref (rt_subject t), mt_body = map_option get_ref (rt_body t)\<rparr>"

lemma checks_mail_template:
  "checks (validate_local_mail_template env name t) (mail_template_ok env t) (mail_template_of t) []"
  unfolding validate_local_mail_template_def
  by (rule checks_cong, rule checks_bind, rule checks_reject, intro appends_intros,
      (rule checks_bind, rule checks_template, intro appends_intros)+, rule checks_return)
    (auto simp: mail_template_ok_def mail_template_of_def)

definition token_ok :: "nat \<Rightarrow> string \<Rightarrow> bool" where
  "token_ok limit n \<longleftrightarrow> n \<noteq> [] \<and> length n \<le> limit \<and> list_all id_char n"

lemma checks_mail_user:
  "checks (validate_local_mail_user env name l u) (token_ok 32 u) () []"
  using first_other_char_None [of id_char u]
  by (auto simp: validate_local_mail_user_def token_ok_def MAX_LOCAL_MAIL_USER_LEN_def split: option.splits
      intro!: checks_err checks_return [THEN checks_cong])

lemma checks_flow_name: "checks (validate_flow_name env n) (token_ok 64 (get_ref n)) True []"
  using first_other_char_None [of id_char "get_ref n"]
  by (auto simp: validate_flow_name_def token_ok_def MAX_FLOW_NAME_LEN_def Let_def split: option.splits
      intro!: checks_fails appends_intros checks_return [THEN checks_cong])

definition given :: "(string spanned \<Rightarrow> bool) \<Rightarrow> string spanned option \<Rightarrow> bool" where
  "given P y \<longleftrightarrow> (\<exists>s. y = Some s \<and> P s)"

definition text_of :: "string spanned option \<Rightarrow> string" where
  "text_of y = (case y of Some s \<Rightarrow> get_ref s | None \<Rightarrow> [])"

lemma checks_required_credential:
  "checks (case y of Some s \<Rightarrow> validate_credential_id env field name s
      | None \<Rightarrow> State_Monad.bind (validate_err env ls flow f val msg sug) (\<lambda>_. State_Monad.return None))
     (given credential_ok y) (Some (text_of y)) [text_of y]"
  by (cases y) (auto simp: given_def text_of_def intro!: checks_credential checks_fails appends_intros)

definition discord_ok :: "validate_env \<Rightarrow> raw_destination \<Rightarrow> bool" where
  "discord_ok env d \<longleftrightarrow> rd_user d = None \<and> given credential_ok (rd_credential_id d) \<and>
     distinct (events_of (rd_fire_on d)) \<and> discord_template_ok env (rd_template d)"

lemma checks_discord:
  "checks (validate_discord env name l d) (discord_ok env d)
     (DiscordWebhook (text_of (rd_credential_id d)) (events_of (rd_fire_on d)) (discord_template_of (rd_template d)))
     [text_of (rd_credential_id d)]"
  unfolding validate_discord_def
  by (rule checks_cong, rule checks_bind, rule checks_absent, intro appends_intros,
      rule checks_bind, rule checks_required_credential, intro appends_intros,
      rule checks_bind, rule checks_fire_on, intro appends_intros,
      rule checks_bind, rule checks_discord_template, intro appends_intros, rule checks_return)
    (auto simp: discord_ok_def unwrap_or_def)

definition mail_ok :: "validate_env \<Rightarrow> raw_destination \<Rightarrow> bool" where
  "mail_ok env d \<longleftrightarrow> rd_credential_id d = None \<and> given (\<lambda>s. token_ok 32 (get_ref s)) (rd_user d) \<and>
     distinct (events_of (rd_fire_on d)) \<and> mail_template_ok env (rd_template d)"

lemma checks_mail:
  "checks (validate_local_mail env name l d) (mail_ok env d)
     (LocalMail (text_of (rd_user d)) (events_of (rd_fire_on d)) (mail_template_of (rd_template d))) []"
proof (cases "rd_user d")
  case None
  then have "\<not> mail_ok env d" by (simp add: mail_ok_def given_def)
  moreover have "checks (validate_local_mail env name l d) False r ids" for r ids
    unfolding validate_local_mail_def None
    by (rule checks_cong, rule checks_bind, rule checks_absent, intro appends_intros, simp,
        rule checks_fails, intro appends_intros) auto
  ultimately show ?thesis by simp
next
  case (Some s)
  show ?thesis
    unfolding validate_local_mail_def Some option.case bind_left_identity prod.case
    by (rule checks_cong, rule checks_bind, rule checks_absent, intro appends_intros,
        rule checks_bind, rule checks_mail_user, intro appends_intros,
        rule checks_bind, rule checks_fire_on, intro appends_intros,
        rule checks_bind, rule checks_mail_template, intro appends_intros, rule checks_return)
      (auto simp: mail_ok_def given_def text_of_def Some)
qed

end
