(* ===== verification/Config_Correct.thy ===== *)
theory Config_Correct
  imports Config_Checks
begin

text \<open>
  The conditions under which a flow and a whole configuration are accepted
  (\<open>src/src/config/validate/flow.rs\<close> and \<open>mod.rs\<close>), the configuration that results, and what it
  guarantees the rest of the daemon.
\<close>

section \<open>Flows\<close>

abbreviation kind_of :: "raw_destination \<Rightarrow> string" where "kind_of d \<equiv> get_ref (rd_kind d)"

definition destination_ok :: "validate_env \<Rightarrow> raw_destination \<Rightarrow> bool" where
  "destination_ok env d \<longleftrightarrow>
     kind_of d = ''discord_webhook'' \<and> discord_ok env d \<or> kind_of d = ''local_mail'' \<and> mail_ok env d"

definition destination_of :: "raw_destination \<Rightarrow> destination" where
  "destination_of d =
     (if kind_of d = ''discord_webhook''
      then DiscordWebhook (text_of (rd_credential_id d)) (events_of (rd_fire_on d)) (discord_template_of (rd_template d))
      else LocalMail (text_of (rd_user d)) (events_of (rd_fire_on d)) (mail_template_of (rd_template d)))"

definition destination_ids :: "raw_destination \<Rightarrow> string list" where
  "destination_ids d = (if kind_of d = ''discord_webhook'' then [text_of (rd_credential_id d)] else [])"

lemma checks_destinations:
  "checks (validate_destinations env name ds) (list_all (destination_ok env) ds) (map destination_of ds)
     (concat (map destination_ids ds))"
proof (induction ds)
  case Nil
  then show ?case by (simp add: checks_return)
next
  case (Cons d ds)
  consider (discord) "kind_of d = ''discord_webhook''" | (mail) "kind_of d = ''local_mail''"
    | (other) "kind_of d \<noteq> ''discord_webhook''" "kind_of d \<noteq> ''local_mail''" by blast
  then show ?case
  proof cases
    case discord
    show ?thesis unfolding validate_destinations.simps Let_def if_P [OF discord]
      by (rule checks_cong, rule checks_bind, rule checks_discord, intro appends_intros,
          rule checks_bind, rule Cons.IH, intro appends_intros, rule checks_return)
        (auto simp: destination_ok_def destination_of_def destination_ids_def discord)
  next
    case mail
    then have neq: "kind_of d \<noteq> ''discord_webhook''" by simp
    show ?thesis unfolding validate_destinations.simps Let_def if_not_P [OF neq] if_P [OF mail]
      by (rule checks_cong, rule checks_bind, rule checks_mail, intro appends_intros,
          rule checks_bind, rule Cons.IH, intro appends_intros, rule checks_return)
        (auto simp: destination_ok_def destination_of_def destination_ids_def mail)
  next
    case other
    then have "\<not> list_all (destination_ok env) (d # ds)" by (simp add: destination_ok_def)
    with other show ?thesis by (auto simp: Let_def intro!: checks_fails appends_intros)
  qed
qed

definition source_ok :: "validate_env \<Rightarrow> raw_source \<Rightarrow> bool" where
  "source_ok env raw \<longleftrightarrow> (\<exists>u. ve_url_parse env (get_ref (rs_url raw)) = Inr u \<and> url_scheme u \<in> set ALLOWED_SCHEMES) \<and>
     starts_with (get_ref (rs_ref raw)) ''refs/'' \<and> pred_option credential_ok (rs_credential_id raw)"

definition source_of :: "raw_source \<Rightarrow> source_config" where
  "source_of raw = \<lparr>src_url = get_ref (rs_url raw), src_ref = get_ref (rs_ref raw),
     src_credential = map_option get_ref (rs_credential_id raw)\<rparr>"

definition source_ids :: "raw_source \<Rightarrow> string list" where
  "source_ids raw = (case rs_credential_id raw of None \<Rightarrow> [] | Some s \<Rightarrow> [get_ref s])"

lemma checks_when:
  "checks (if c then validate_err env ls flow f v m sg else State_Monad.return ()) (\<not> c) () []"
  by (auto intro: checks_err checks_return [THEN checks_cong])

lemma checks_url:
  "checks (case v of Inl e \<Rightarrow> validate_err env ls flow f val (m1 e) s1
      | Inr u \<Rightarrow> if url_scheme u \<notin> set ALLOWED_SCHEMES then validate_err env ls flow f val (m2 u) s2 else State_Monad.return ())
     (\<exists>u. v = Inr u \<and> url_scheme u \<in> set ALLOWED_SCHEMES) () []"
  by (cases v) (auto intro: checks_err checks_return [THEN checks_cong])

lemma checks_source: "checks (validate_source env name raw) (source_ok env raw) (source_of raw) (source_ids raw)"
  unfolding validate_source_def Let_def
  by (rule checks_cong, rule checks_bind, rule checks_url, intro appends_intros,
      rule checks_bind, rule checks_when, intro appends_intros,
      rule checks_bind, rule checks_and_then [OF checks_credential], intro appends_intros, rule checks_return)
    (auto simp: source_ok_def source_of_def source_ids_def split: option.splits)

lemma checks_require: "checks (require_field env name l field y) (y \<noteq> None) (text_of y) []"
  by (cases y) (auto simp: require_field_def text_of_def intro!: checks_fails appends_intros checks_return [THEN checks_cong])

definition repo_ok :: "string \<Rightarrow> bool" where
  "repo_ok s \<longleftrightarrow> (\<exists>owner repo. s = owner @ ''/'' @ repo \<and> owner \<noteq> [] \<and> repo \<noteq> [] \<and>
     CHR ''/'' \<notin> set owner \<and> CHR ''/'' \<notin> set repo)"

lemma split_slash_none: "CHR ''/'' \<notin> set s \<Longrightarrow> split_slash s = [s]"
  by (induction s) auto

lemma split_slash_append: "CHR ''/'' \<notin> set a \<Longrightarrow> split_slash (a @ CHR ''/'' # b) = a # split_slash b"
  by (induction a) auto

lemma split_slash_nonempty [simp]: "split_slash s \<noteq> []"
  by (induction s) auto

lemma split_slash_one: "split_slash s = [a] \<Longrightarrow> s = a \<and> CHR ''/'' \<notin> set a"
proof (cases "CHR ''/'' \<in> set s")
  case True
  then obtain x y where "s = x @ CHR ''/'' # y" "CHR ''/'' \<notin> set x" by (meson split_list_first)
  moreover assume "split_slash s = [a]"
  ultimately show ?thesis by (simp add: split_slash_append)
qed (simp add: split_slash_none)

lemma repo_split: "length (split_slash s) = 2 \<and> split_slash s ! 0 \<noteq> [] \<and> split_slash s ! 1 \<noteq> [] \<longleftrightarrow> repo_ok s"
proof
  assume l: "length (split_slash s) = 2 \<and> split_slash s ! 0 \<noteq> [] \<and> split_slash s ! 1 \<noteq> []"
  then have "CHR ''/'' \<in> set s" using split_slash_none [of s] by fastforce
  then obtain x y where s: "s = x @ CHR ''/'' # y" "CHR ''/'' \<notin> set x" by (meson split_list_first)
  with l obtain z where "split_slash y = [z]" by (auto simp: split_slash_append length_Suc_conv)
  with split_slash_one [OF this] s l show "repo_ok s" by (auto simp: repo_ok_def split_slash_append)
qed (auto simp: repo_ok_def split_slash_append split_slash_none)

lemma checks_repo: "checks (check_repo env name y) (pred_option (\<lambda>s. repo_ok (get_ref s)) y) () []"
  using repo_split by (cases y) (auto simp: check_repo_def Let_def intro: checks_err checks_return [THEN checks_cong])

definition workflow_ok :: "string \<Rightarrow> bool" where
  "workflow_ok s \<longleftrightarrow> s \<noteq> [] \<and> CHR ''/'' \<notin> set s \<and> CHR 0x5C \<notin> set s \<and> \<not> contains s ''..''"

lemma checks_workflow: "checks (check_workflow env name y) (pred_option (\<lambda>s. workflow_ok (get_ref s)) y) () []"
  by (cases y) (auto simp: check_workflow_def workflow_ok_def Let_def intro: checks_err checks_return [THEN checks_cong])

lemma checks_action_ref:
  "checks (check_action_ref env name y) (pred_option (\<lambda>s. starts_with (get_ref s) ''refs/'') y) () []"
  by (cases y) (auto simp: check_action_ref_def Let_def intro: checks_err checks_return [THEN checks_cong])

lemma checks_inputs: "checks (check_inputs env name l inputs) (GCIT_RUN_ID_INPUT \<notin> fst ` set inputs) () []"
proof -
  have "GCIT_RUN_ID_INPUT \<notin> fst ` set inputs \<longleftrightarrow> map_of inputs GCIT_RUN_ID_INPUT = None"
    by (simp add: map_of_eq_None_iff)
  then show ?thesis unfolding check_inputs_def by (simp only: checks_absent)
qed

definition action_ok :: "raw_action \<Rightarrow> bool" where
  "action_ok raw \<longleftrightarrow> get_ref (ra_kind raw) = ''github_workflow_dispatch'' \<and>
     given (\<lambda>s. repo_ok (get_ref s)) (ra_repo raw) \<and> given (\<lambda>s. workflow_ok (get_ref s)) (ra_workflow raw) \<and>
     given (\<lambda>s. starts_with (get_ref s) ''refs/'') (ra_ref raw) \<and> given credential_ok (ra_credential_id raw) \<and>
     GCIT_RUN_ID_INPUT \<notin> fst ` set (ra_inputs raw)"

definition action_of :: "raw_action \<Rightarrow> action_config" where
  "action_of raw = GithubWorkflowDispatch (text_of (ra_repo raw)) (text_of (ra_workflow raw)) (text_of (ra_ref raw))
     (ra_inputs raw) (text_of (ra_credential_id raw))"

lemma checks_action: "checks (validate_action env name raw) (action_ok raw) (action_of raw) [text_of (ra_credential_id raw)]"
proof (cases "get_ref (ra_kind raw) = ''github_workflow_dispatch''")
  case True
  show ?thesis unfolding validate_action_def Let_def if_P [OF True]
    by (rule checks_cong, rule checks_bind, rule checks_require, intro appends_intros,
        rule checks_bind, rule checks_require, intro appends_intros,
        rule checks_bind, rule checks_require, intro appends_intros,
        rule checks_bind, rule checks_repo, intro appends_intros,
        rule checks_bind, rule checks_workflow, intro appends_intros,
        rule checks_bind, rule checks_action_ref, intro appends_intros,
        rule checks_bind, rule checks_required_credential, intro appends_intros,
        rule checks_bind, rule checks_inputs, intro appends_intros, rule checks_return)
      (auto simp: action_ok_def action_of_def given_def True unwrap_or_def split: option.splits)
next
  case False
  then show ?thesis by (auto simp: validate_action_def action_ok_def Let_def intro!: checks_fails appends_intros)
qed

definition flow_ok :: "validate_env \<Rightarrow> raw_flow \<Rightarrow> bool" where
  "flow_ok env raw \<longleftrightarrow> source_ok env (rf_source raw) \<and> action_ok (rf_action raw) \<and>
     list_all (destination_ok env) (rf_destination raw) \<and> poll_ok env (rf_poll raw)"

abbreviation name_of :: "raw_flow \<Rightarrow> string" where "name_of raw \<equiv> get_ref (rf_name raw)"

definition flow_of :: "validate_env \<Rightarrow> raw_flow \<Rightarrow> f64 flow_config" where
  "flow_of env raw = \<lparr>fc_name = name_of raw, fc_enabled = rf_enabled raw, fc_description = rf_description raw,
     fc_source = source_of (rf_source raw), fc_action = action_of (rf_action raw),
     fc_destination = map destination_of (rf_destination raw), fc_poll = override_of env (rf_poll raw)\<rparr>"

definition flow_ids :: "raw_flow \<Rightarrow> string list" where
  "flow_ids raw = source_ids (rf_source raw) @ text_of (ra_credential_id (rf_action raw)) #
     concat (map destination_ids (rf_destination raw))"

lemma checks_flow: "checks (validate_flow env (name_of raw) raw) (flow_ok env raw) (flow_of env raw) (flow_ids raw)"
  unfolding validate_flow_def
  by (rule checks_cong, rule checks_bind, rule checks_source, intro appends_intros,
      rule checks_bind, rule checks_action, intro appends_intros,
      rule checks_bind, rule checks_destinations, intro appends_intros,
      rule checks_bind, rule checks_poll_override, intro appends_intros, rule checks_return)
    (auto simp: flow_ok_def flow_of_def flow_ids_def)

section \<open>The whole configuration\<close>

definition name_index_of :: "validate_env \<Rightarrow> (string \<times> nat list) list \<Rightarrow> raw_flow list \<Rightarrow> (string \<times> nat list) list" where
  "name_index_of env idx raw = foldl (\<lambda>m f. push_entry (name_of f) (span_line env (rf_name f)) m) idx raw"

lemma checks_flows:
  "checks (validate_flows env idx raw) (list_all (\<lambda>f. token_ok 64 (name_of f) \<and> flow_ok env f) raw)
     (name_index_of env idx raw, map (flow_of env) raw) (concat (map flow_ids raw))"
proof (induction raw arbitrary: idx)
  case Nil
  then show ?case by (simp add: checks_return name_index_of_def)
next
  case (Cons f raw)
  show ?case unfolding validate_flows.simps Let_def
    by (rule checks_cong, rule checks_bind, rule checks_flow_name, intro appends_intros,
        rule checks_bind, rule checks_flow, intro appends_intros,
        rule checks_bind, unfold if_True, rule Cons.IH, intro appends_intros, unfold prod.case, rule checks_return)
      (auto simp: name_index_of_def)
qed

lemma entry_length:
  "(case map_of (name_index_of env idx raw) n of None \<Rightarrow> 0 | Some ls \<Rightarrow> length ls) =
     (case map_of idx n of None \<Rightarrow> 0 | Some ls \<Rightarrow> length ls) + count_list (map name_of raw) n"
proof (induction raw arbitrary: idx)
  case (Cons f raw)
  have "name_index_of env idx (f # raw) = name_index_of env (push_entry (name_of f) (span_line env (rf_name f)) idx) raw"
    by (simp add: name_index_of_def)
  then show ?case by (simp add: Cons.IH map_of_push_entry split: option.splits)
qed (simp add: name_index_of_def)

lemma distinct_iff_count: "distinct xs \<longleftrightarrow> (\<forall>x. count_list xs x \<le> 1)"
proof (induction xs)
  case (Cons a xs)
  have "count_list (a # xs) x \<le> 1 \<longleftrightarrow> (if x = a then count_list xs a = 0 else count_list xs x \<le> 1)" for x by auto
  then have "(\<forall>x. count_list (a # xs) x \<le> 1) \<longleftrightarrow> count_list xs a = 0 \<and> (\<forall>x. count_list xs x \<le> 1)"
    by (metis zero_le_one)
  with Cons show ?case by (simp add: count_list_0_iff)
qed simp

lemma set_sorted_entries: "(k, v) \<in> set (sorted_entries m) \<longleftrightarrow> map_of m k = Some v"
proof -
  have "(k, v) \<in> set (sorted_entries m) \<longleftrightarrow> k \<in> dom (map_of m) \<and> v = the (map_of m k)"
    by (auto simp: sorted_entries_def dom_map_of_conv_image_fst)
  then show ?thesis by auto
qed

lemma index_lengths:
  "(\<forall>(n, ls) \<in> set (sorted_entries (name_index_of env [] raw)). length ls \<le> 1) \<longleftrightarrow> distinct (map name_of raw)"
proof -
  let ?m = "map_of (name_index_of env [] raw)"
  have len: "count_list (map name_of raw) n = (case ?m n of None \<Rightarrow> 0 | Some ls \<Rightarrow> length ls)" for n
    using entry_length [of env "[]" raw n] by simp
  have "(\<forall>(n, ls) \<in> set (sorted_entries (name_index_of env [] raw)). length ls \<le> 1) \<longleftrightarrow>
      (\<forall>n ls. ?m n = Some ls \<longrightarrow> length ls \<le> 1)"
    by (auto simp: set_sorted_entries)
  also have "\<dots> \<longleftrightarrow> (\<forall>n. count_list (map name_of raw) n \<le> 1)"
    unfolding len by (auto split: option.splits)
  finally show ?thesis by (simp only: distinct_iff_count)
qed

lemma checks_duplicates: "checks (report_duplicate_names env ns) (\<forall>(n, ls) \<in> set ns. length ls \<le> 1) () []"
proof (induction ns)
  case (Cons p ns)
  obtain n ls where p: "p = (n, ls)" by (cases p)
  show ?case unfolding p report_duplicate_names.simps
    by (rule checks_cong, rule checks_bind, rule checks_when, intro appends_intros, rule Cons.IH) auto
qed (simp add: checks_return)

lemma more_than_one: "1 < length (sort (remdups xs)) \<longleftrightarrow> \<not> (\<forall>a \<in> set xs. \<forall>b \<in> set xs. a = b)"
  using card_le_Suc0_iff_eq [of "set xs"] by (auto simp: length_remdups_card_conv not_less)

lemma checks_collisions:
  "checks (report_env_collisions env vs) (\<forall>(v, occ) \<in> set vs. \<forall>a \<in> fst ` set occ. \<forall>b \<in> fst ` set occ. a = b) () []"
proof (induction vs)
  case (Cons p vs)
  obtain v occ where p: "p = (v, occ)" by (cases p)
  have one: "(\<not> 1 < length (sort (remdups (map fst occ)))) = (\<forall>a \<in> fst ` set occ. \<forall>b \<in> fst ` set occ. a = b)"
    using more_than_one [of "map fst occ"] by (simp only: not_not set_map)
  show ?case unfolding p report_env_collisions.simps Let_def
    by (rule checks_cong, rule checks_bind, rule checks_when, intro appends_intros, rule Cons.IH, unfold one) simp_all
qed (simp add: checks_return)

text \<open>All but the collision check, which reads the index.\<close>

definition validate_body :: "validate_env \<Rightarrow> raw_config \<Rightarrow> (f64 poll_config \<times> duration \<times> f64 flow_config list) validation" where
  "validate_body env raw = do {
     poll \<leftarrow> validate_poll_defaults env (rwc_poll raw);
     http \<leftarrow> validate_http env (rwc_http raw);
     (if rwc_flow raw = [] then
        validate_err env [] None ''flow'' ''[]'' ''at least one flow is required''
          ''add a [[flow]] block with name, source, and action''
      else State_Monad.return ());
     (name_index, cfgs) \<leftarrow> validate_flows env [] (rwc_flow raw);
     report_duplicate_names env (sorted_entries name_index);
     State_Monad.return (poll, http, cfgs) }"

lemma validate_tables_body:
  "validate_tables env raw = State_Monad.bind (validate_body env raw) (\<lambda>r. State_Monad.bind State_Monad.get
     (\<lambda>s. State_Monad.bind (report_env_collisions env (sorted_entries (v_env_var_index s))) (\<lambda>_. State_Monad.return r)))"
  unfolding validate_tables_def validate_body_def
  by (rule state_ext) (simp split: prod.splits)

definition raw_ok :: "validate_env \<Rightarrow> raw_config \<Rightarrow> bool" where
  "raw_ok env raw \<longleftrightarrow> poll_ok env (rwc_poll raw) \<and> http_ok env (rwc_http raw) \<and> rwc_flow raw \<noteq> [] \<and>
     list_all (\<lambda>f. token_ok 64 (name_of f) \<and> flow_ok env f) (rwc_flow raw) \<and> distinct (map name_of (rwc_flow raw)) \<and>
     inj_on id_to_env (set (concat (map flow_ids (rwc_flow raw))))"

definition config_of :: "validate_env \<Rightarrow> raw_config \<Rightarrow> f64 config" where
  "config_of env raw = \<lparr>cf_poll = defaults_of (override_of env (rwc_poll raw)), cf_request_timeout = http_of env (rwc_http raw),
     cf_flow = map (flow_of env) (rwc_flow raw)\<rparr>"

lemma checks_body:
  "checks (validate_body env raw)
     (poll_ok env (rwc_poll raw) \<and> http_ok env (rwc_http raw) \<and> rwc_flow raw \<noteq> [] \<and>
      list_all (\<lambda>f. token_ok 64 (name_of f) \<and> flow_ok env f) (rwc_flow raw) \<and> distinct (map name_of (rwc_flow raw)))
     (defaults_of (override_of env (rwc_poll raw)), http_of env (rwc_http raw), map (flow_of env) (rwc_flow raw))
     (concat (map flow_ids (rwc_flow raw)))"
  unfolding validate_body_def
  by (rule checks_cong, rule checks_bind, rule checks_poll_defaults, intro appends_intros,
      rule checks_bind, rule checks_http, intro appends_intros,
      rule checks_bind, rule checks_when, intro appends_intros,
      rule checks_bind, rule checks_flows, intro appends_intros, unfold prod.case,
      rule checks_bind, rule checks_duplicates, intro appends_intros, rule checks_return)
    (auto simp: index_lengths [of env "rwc_flow raw", symmetric])

lemma same_entry:
  fixes m :: "'v \<rightharpoonup> 'o" and f :: "'o \<Rightarrow> 'a set"
  shows "(\<forall>v occ. m v = Some occ \<longrightarrow> (\<forall>a \<in> f occ. \<forall>b \<in> f occ. a = b)) \<longleftrightarrow>
    (\<forall>v a b. (\<exists>occ. m v = Some occ \<and> a \<in> f occ) \<longrightarrow> (\<exists>occ. m v = Some occ \<and> b \<in> f occ) \<longrightarrow> a = b)"
  by fastforce

lemma collision_free:
  assumes "recorded s = (\<lambda>cid. (id_to_env cid, cid)) ` ids"
  shows "(\<forall>(v, occ) \<in> set (sorted_entries (v_env_var_index s)). \<forall>a \<in> fst ` set occ. \<forall>b \<in> fst ` set occ. a = b) \<longleftrightarrow> inj_on id_to_env ids"
proof -
  have "(\<forall>(v, occ) \<in> set (sorted_entries (v_env_var_index s)). \<forall>a \<in> fst ` set occ. \<forall>b \<in> fst ` set occ. a = b) \<longleftrightarrow>
      (\<forall>v occ. map_of (v_env_var_index s) v = Some occ \<longrightarrow> (\<forall>a \<in> fst ` set occ. \<forall>b \<in> fst ` set occ. a = b))"
    unfolding set_sorted_entries [symmetric] by blast
  also have "\<dots> \<longleftrightarrow> (\<forall>v a b. (v, a) \<in> recorded s \<longrightarrow> (v, b) \<in> recorded s \<longrightarrow> a = b)"
    unfolding recorded_def mem_Collect_eq prod.case by (rule same_entry)
  also have "\<dots> \<longleftrightarrow> inj_on id_to_env ids" unfolding assms inj_on_def by blast
  finally show ?thesis .
qed

lemma located_body: "located env (validate_body env raw)"
proof -
  have *: "located env (case p of (name_index, cfgs) \<Rightarrow> State_Monad.bind
      (report_duplicate_names env (sorted_entries name_index)) (\<lambda>_. State_Monad.return (poll, http, cfgs)))"
    if "name_index_ok env (fst p)" for p :: "(string \<times> nat list) list \<times> f64 flow_config list" and poll :: "f64 poll_config" and http :: duration
    using that by (cases p) (auto simp: name_index_ok_def set_sorted_entries intro!: located_intros located_duplicates)
  have "name_index_ok env []" by (simp add: name_index_ok_def)
  note flows = lo.rel_bind_pred [OF located_flows flows_name_index [OF this] *]
  show ?thesis unfolding validate_body_def by (intro located_intros flows) auto
qed

lemma validate_run:
  assumes run: "run_state (validate_tables env raw) \<lparr>v_errors = [], v_env_var_index = [], v_credential_lines = []\<rparr> = (r, s)"
  shows "v_errors s = [] \<longleftrightarrow> raw_ok env raw"
    and "raw_ok env raw \<Longrightarrow> r = (cf_poll (config_of env raw), cf_request_timeout (config_of env raw), cf_flow (config_of env raw))"
    and "lines_ok env s"
proof -
  let ?s0 = "\<lparr>v_errors = [], v_env_var_index = [], v_credential_lines = []\<rparr>"
  let ?body = "poll_ok env (rwc_poll raw) \<and> http_ok env (rwc_http raw) \<and> rwc_flow raw \<noteq> [] \<and>
      list_all (\<lambda>f. token_ok 64 (name_of f) \<and> flow_ok env f) (rwc_flow raw) \<and> distinct (map name_of (rwc_flow raw))"
  obtain x t where b: "run_state (validate_body env raw) ?s0 = (x, t)" by (cases "run_state (validate_body env raw) ?s0")
  from run have c: "run_state (report_env_collisions env (sorted_entries (v_env_var_index t))) t = ((), s)" "r = x"
    by (auto simp: validate_tables_body b split: prod.splits)
  note body = checksD [OF checks_body b] and coll = checksD [OF checks_collisions c(1)]
  have empty: "recorded ?s0 = {}" by (simp add: recorded_def)
  have ok: "raw_ok env raw \<longleftrightarrow> ?body \<and> inj_on id_to_env (set (concat (map flow_ids (rwc_flow raw))))"
    unfolding raw_ok_def by blast
  show "v_errors s = [] \<longleftrightarrow> raw_ok env raw"
  proof (cases ?body)
    case True
    with body(3) empty have "recorded t = (\<lambda>cid. (id_to_env cid, cid)) ` set (concat (map flow_ids (rwc_flow raw)))" by simp
    from collision_free [OF this] True body(1) coll(1) show ?thesis unfolding ok by auto
  next
    case False
    with body(1) coll(1) show ?thesis unfolding ok by auto
  qed
  show "r = (cf_poll (config_of env raw), cf_request_timeout (config_of env raw), cf_flow (config_of env raw))" if "raw_ok env raw"
    using body(2) that ok c(2) by (simp add: config_of_def)
  have "lines_ok env ?s0" by (simp add: lines_ok_def lines_of_index_def)
  with located_body b have t: "lines_ok env t" by (metis (mono_tags, lifting) state_io_relD)
  then have "located env (report_env_collisions env (sorted_entries (v_env_var_index t)))"
    by (intro located_collisions) (force simp: set_sorted_entries lines_ok_def lines_of_index_def ran_def)
  with t c(1) show "lines_ok env s" by (metis (mono_tags, lifting) state_io_relD)
qed

lemma validate_cases:
  "(\<exists>c. validate env raw = Inr c \<and> raw_ok env raw \<and> config.truncate c = config_of env raw \<and> lc_source_path c = ve_path env) \<or>
   (\<exists>es. validate env raw = Inl es \<and> \<not> raw_ok env raw \<and> es \<noteq> [] \<and>
      (\<forall>e \<in> set es. \<forall>l \<in> set (error_lines e). valid_line env l))"
proof -
  obtain poll http cfgs s where run: "run_state (validate_tables env raw)
      \<lparr>v_errors = [], v_env_var_index = [], v_credential_lines = []\<rparr> = ((poll, http, cfgs), s)"
    by (cases "run_state (validate_tables env raw) \<lparr>v_errors = [], v_env_var_index = [], v_credential_lines = []\<rparr>") auto
  note v = validate_run [OF run]
  show ?thesis
  proof (cases "raw_ok env raw")
    case True
    with v show ?thesis by (intro disjI1) (simp add: validate_def run config.truncate_def)
  next
    case False
    with v show ?thesis by (intro disjI2) (simp add: validate_def run lines_ok_def)
  qed
qed

section \<open>Well-formed configurations\<close>

definition interval_wf :: "duration \<Rightarrow> bool" where
  "interval_wf d \<longleftrightarrow> MIN_INTERVAL \<le> d \<and> d \<le> MAX_INTERVAL"

definition cooldown_wf :: "duration \<Rightarrow> bool" where
  "cooldown_wf d \<longleftrightarrow> d = 0 \<or> interval_wf d"

definition override_wf :: "f64 poll_override \<Rightarrow> bool" where
  "override_wf p \<longleftrightarrow> pred_option interval_wf (po_source_interval p) \<and> pred_option interval_wf (po_job_interval p) \<and>
     pred_option jitter_ok (po_jitter p) \<and> pred_option cooldown_wf (po_cooldown p)"

definition defaults_wf :: "f64 poll_config \<Rightarrow> bool" where
  "defaults_wf p \<longleftrightarrow> pred_option interval_wf (pc_source_interval p) \<and> interval_wf (pc_job_interval p) \<and>
     jitter_ok (pc_jitter p) \<and> cooldown_wf (pc_cooldown p)"

fun destination_wf :: "destination \<Rightarrow> bool" where
  "destination_wf (DiscordWebhook cid events t) \<longleftrightarrow> distinct events"
| "destination_wf (LocalMail user events t) \<longleftrightarrow> token_ok 32 user \<and> distinct events"

fun action_wf :: "action_config \<Rightarrow> bool" where
  "action_wf (GithubWorkflowDispatch repo workflow ref_name inputs cid) \<longleftrightarrow>
     repo_ok repo \<and> workflow_ok workflow \<and> starts_with ref_name ''refs/'' \<and> GCIT_RUN_ID_INPUT \<notin> fst ` set inputs"

definition flow_wf :: "f64 flow_config \<Rightarrow> bool" where
  "flow_wf f \<longleftrightarrow> token_ok 64 (fc_name f) \<and> starts_with (src_ref (fc_source f)) ''refs/'' \<and> action_wf (fc_action f) \<and>
     list_all destination_wf (fc_destination f) \<and> override_wf (fc_poll f) \<and>
     list_all (\<lambda>r. validate_id_str (cr_id r) = Inr ()) (flow_credentials f)"

definition config_wf :: "f64 config \<Rightarrow> bool" where
  "config_wf c \<longleftrightarrow> defaults_wf (cf_poll c) \<and> MIN_HTTP_TIMEOUT \<le> cf_request_timeout c \<and> cf_request_timeout c \<le> MAX_HTTP_TIMEOUT \<and>
     cf_flow c \<noteq> [] \<and> distinct (map fc_name (cf_flow c)) \<and> list_all flow_wf (cf_flow c) \<and>
     inj_on id_to_env (cr_id ` set (walk_credentials (cf_flow c)))"

lemma poll_ok_wf: "poll_ok env raw \<Longrightarrow> override_wf (override_of env raw)"
  by (auto simp: poll_ok_def override_wf_def override_of_def duration_ok_def cooldown_ok_def cooldown_wf_def interval_wf_def
      duration_of_def option.pred_set)

lemma default_bounds: "interval_wf (from_secs 30)" "interval_wf (from_secs 300)"
  by (simp_all add: interval_wf_def MIN_INTERVAL_def MAX_INTERVAL_def from_secs_def)

lemma default_jitter: "jitter_ok (Finite (3602879701896397 / 36028797018963968))"
  unfolding jitter_ok_def by (rule exI [of _ "3602879701896397 / 36028797018963968"]) simp

lemma defaults_of_wf: "override_wf ov \<Longrightarrow> defaults_wf (defaults_of ov)"
  using default_bounds default_jitter
  by (auto simp: defaults_wf_def defaults_of_def override_wf_def cooldown_wf_def unwrap_or_def split: option.splits)

lemma flow_credential_ids: "map cr_id (flow_credentials (flow_of env raw)) = flow_ids raw"
proof -
  have "map cr_id (concat (map (\<lambda>d. case d of DiscordWebhook cid _ _ \<Rightarrow> [\<lparr>cr_id = cid, cr_flow = n, cr_kind = DiscordWebhookKind\<rparr>]
      | LocalMail _ _ _ \<Rightarrow> []) (map destination_of ds))) = concat (map destination_ids ds)" for n ds
    by (induction ds) (simp_all add: destination_of_def destination_ids_def)
  then show ?thesis
    by (simp add: flow_credentials_def flow_of_def flow_ids_def source_of_def source_ids_def action_of_def split: option.splits)
qed

lemma given_credential: "given credential_ok y \<Longrightarrow> validate_id_str (text_of y) = Inr ()"
  by (auto simp: given_def credential_ok_def text_of_def)

lemma flow_ids_ok:
  assumes ok: "flow_ok env raw" and "cid \<in> set (flow_ids raw)"
  shows "validate_id_str cid = Inr ()"
proof -
  consider "cid \<in> set (source_ids (rf_source raw))" | "cid = text_of (ra_credential_id (rf_action raw))"
    | d where "d \<in> set (rf_destination raw)" "cid \<in> set (destination_ids d)"
    using assms(2) by (auto simp: flow_ids_def)
  then show ?thesis
  proof cases
    case 1
    with ok show ?thesis
      by (cases "rs_credential_id (rf_source raw)") (auto simp: flow_ok_def source_ok_def source_ids_def credential_ok_def)
  next
    case 2
    with ok show ?thesis by (simp add: flow_ok_def action_ok_def given_credential)
  next
    case 3
    with ok have "destination_ok env d" by (auto simp: flow_ok_def list_all_iff)
    with 3(2) show ?thesis by (auto simp: destination_ok_def destination_ids_def discord_ok_def given_credential split: if_splits)
  qed
qed

lemma flow_ok_wf:
  assumes "token_ok 64 (name_of raw)" and "flow_ok env raw"
  shows "flow_wf (flow_of env raw)"
proof -
  have "action_wf (action_of (rf_action raw))"
    using assms(2) by (auto simp: flow_ok_def action_ok_def action_of_def given_def text_of_def)
  moreover have "list_all destination_wf (map destination_of (rf_destination raw))"
    using assms(2)
    by (auto simp: flow_ok_def list_all_iff destination_ok_def destination_of_def discord_ok_def mail_ok_def given_def text_of_def)
  moreover have "list_all (\<lambda>r. validate_id_str (cr_id r) = Inr ()) (flow_credentials (flow_of env raw))"
    using flow_ids_ok [OF assms(2)] unfolding list_all_iff flow_credential_ids [of env raw, symmetric] by simp
  ultimately show ?thesis
    using assms poll_ok_wf [of env "rf_poll raw"] by (simp add: flow_wf_def flow_ok_def flow_of_def source_ok_def source_of_def)
qed

lemma config_of_wf:
  assumes "raw_ok env raw"
  shows "config_wf (config_of env raw)"
proof -
  note ok = assms [unfolded raw_ok_def]
  have "MIN_HTTP_TIMEOUT \<le> http_of env (rwc_http raw) \<and> http_of env (rwc_http raw) \<le> MAX_HTTP_TIMEOUT"
    using ok by (cases "rh_request_timeout (rwc_http raw)")
      (auto simp: http_ok_def http_of_def duration_ok_def duration_of_def unwrap_or_def MIN_HTTP_TIMEOUT_def MAX_HTTP_TIMEOUT_def from_secs_def)
  moreover have "map (fc_name \<circ> flow_of env) (rwc_flow raw) = map name_of (rwc_flow raw)" by (simp add: flow_of_def)
  moreover have "list_all flow_wf (map (flow_of env) (rwc_flow raw))"
    using ok flow_ok_wf by (auto simp: list_all_iff)
  moreover have "map cr_id (walk_credentials (map (flow_of env) (rwc_flow raw))) = concat (map flow_ids (rwc_flow raw))"
    by (simp add: walk_credentials_def map_concat comp_def flow_credential_ids)
  then have "cr_id ` set (walk_credentials (map (flow_of env) (rwc_flow raw))) = set (concat (map flow_ids (rwc_flow raw)))"
    by (metis set_map)
  ultimately show ?thesis
    using ok poll_ok_wf defaults_of_wf by (simp add: config_wf_def config_of_def del: map_eq_conv)
qed

section \<open>Template references\<close>

text \<open>The names a template refers to: those of its expressions and blocks, and of the templates inside named blocks.\<close>

fun helper_of :: "template_element \<Rightarrow> helper option" where
  "helper_of (Expression h) = Some h"
| "helper_of (HtmlExpression h) = Some h"
| "helper_of (HelperBlock h) = Some h"
| "helper_of OtherElement = None"

inductive references :: "template \<Rightarrow> string \<Rightarrow> bool" and helper_references :: "helper \<Rightarrow> string \<Rightarrow> bool" where
  element: "e \<in> set es \<Longrightarrow> helper_of e = Some h \<Longrightarrow> helper_references h n \<Longrightarrow> references (Template es) n"
| named: "helper_references (Helper (Some n) tpl otherwise) n"
| inner: "references t m \<Longrightarrow> helper_references (Helper (Some n) (Some t) otherwise) m"
| inverted: "references t m \<Longrightarrow> helper_references (Helper (Some n) tpl (Some t)) m"

inductive_simps references_simps: "references (Template es) n"
inductive_simps helper_references_simps: "helper_references (Helper name tpl otherwise) n"

definition bare :: "string \<Rightarrow> bool" where
  "bare n \<longleftrightarrow> CHR ''.'' \<notin> set n \<and> CHR ''/'' \<notin> set n"

lemma references_Cons:
  "references (Template (e # es)) n \<longleftrightarrow> (\<exists>h. helper_of e = Some h \<and> helper_references h n) \<or> references (Template es) n"
  by (auto simp: references_simps)

lemma find_bare:
  "find_bare_name tpl \<noteq> None \<longleftrightarrow> (\<exists>n. references tpl n \<and> bare n)"
  "find_bare_in es \<noteq> None \<longleftrightarrow> (\<exists>n. references (Template es) n \<and> bare n)"
  "find_bare_helper h \<noteq> None \<longleftrightarrow> (\<exists>n. helper_references h n \<and> bare n)"
  "find_bare_inner y \<noteq> None \<longleftrightarrow> (\<exists>t n. y = Some t \<and> references t n \<and> bare n)"
proof (induction tpl and es and h and y rule: find_bare_name_find_bare_in_find_bare_helper_find_bare_inner.induct)
  case 2
  then show ?case by (simp add: references_simps)
next
  case (8 name tpl otherwise)
  then show ?case by (auto simp: helper_references_simps bare_def split: option.splits)
qed (auto simp: references_Cons helper_references_simps split: option.splits)

definition variables :: "render_data \<Rightarrow> (string \<times> string) list" where
  "variables d = concat (map (\<lambda>(ns, fs). map (\<lambda>(k, _). (ns, k)) fs) d)"

section \<open>Properties\<close>

text \<open>
  C9. The validator accepts exactly the configurations that satisfy the declarative conditions
  (bounded durations and jitter, valid names, URLs, refs, identifiers, templates and events, at least
  one flow, no two flows of one name, no two credential ids with the same environment variable) and
  returns the configuration those tables describe; otherwise it reports at least one error, and
  every error names lines that exist in the file.
\<close>

theorem validate_accepts_exactly:
  "case validate env raw of
     Inr c \<Rightarrow> raw_ok env raw \<and> config.truncate c = config_of env raw
   | Inl es \<Rightarrow> \<not> raw_ok env raw \<and> es \<noteq> [] \<and> list_all (\<lambda>e. list_all (valid_line env) (error_lines e)) es"
  using validate_cases [of env raw] by (auto simp: list_all_iff)

definition example_validate_env :: validate_env where
  "example_validate_env = \<lparr>ve_source = [], ve_path = ''gcit.toml'',
     ve_parse_duration = \<lambda>s. if s = ''1m'' then Inr (from_secs 60) else Inl ''unknown unit'',
     ve_url_parse = \<lambda>u. Inr \<lparr>url_scheme = ''https'', url_username = [], url_password = None, url_host = Some ''example.org'',
       url_path_segments = Some [''r'']\<rparr>,
     ve_compile = \<lambda>t. Inr (Template [Expression (Helper (Some ''flow.name'') None None)]), ve_render = \<lambda>t d. Inr ''out'',
     ve_debug = dquoted, ve_debug_char = squoted, ve_show_f64 = \<lambda>_. ''?''\<rparr>"

definition example_spanned :: "'a \<Rightarrow> 'a spanned" where
  "example_spanned x = \<lparr>get_ref = x, span_start = 0\<rparr>"

definition example_raw :: raw_config where
  "example_raw = \<lparr>rwc_poll = \<lparr>rp_source_interval = Some (example_spanned ''1m''), rp_job_interval = None,
       rp_jitter = Some (example_spanned (Finite (1 / 4))), rp_cooldown = None\<rparr>, rwc_log_filter = None,
     rwc_http = \<lparr>rh_request_timeout = None, rh_max_concurrent = None\<rparr>,
     rwc_flow = [\<lparr>rf_name = example_spanned ''a'', rf_enabled = True, rf_description = None,
       rf_source = \<lparr>rs_url = example_spanned ''https://example.org/r'', rs_ref = example_spanned ''refs/heads/main'', rs_credential_id = None\<rparr>,
       rf_action = \<lparr>ra_kind = example_spanned ''github_workflow_dispatch'', ra_repo = Some (example_spanned ''o/r''),
         ra_workflow = Some (example_spanned ''ci.yml''), ra_ref = Some (example_spanned ''refs/heads/main''),
         ra_credential_id = Some (example_spanned ''pat''), ra_inputs = []\<rparr>,
       rf_destination = [\<lparr>rd_kind = example_spanned ''local_mail'', rd_credential_id = None, rd_user = Some (example_spanned ''ops''),
         rd_fire_on = None, rd_template = \<lparr>rt_title = None, rt_description = None, rt_field_name = None, rt_field_value = None,
           rt_collapsed_summary = None, rt_subject = Some (example_spanned ''{{flow.name}}''), rt_body = None\<rparr>\<rparr>],
       rf_poll = \<lparr>rp_source_interval = None, rp_job_interval = None, rp_jitter = None, rp_cooldown = None\<rparr>\<rparr>]\<rparr>"

lemma example_raw_ok: "raw_ok example_validate_env example_raw"
proof -
  have "repo_ok ''o/r''" by (simp add: repo_split [symmetric])
  moreover have "jitter_ok (Finite (1 / 4))" unfolding jitter_ok_def by (rule exI [of _ "1 / 4"]) simp
  ultimately show ?thesis
    by (simp add: raw_ok_def example_raw_def example_validate_env_def example_spanned_def poll_ok_def http_ok_def duration_ok_def
        flow_ok_def source_ok_def ALLOWED_SCHEMES_def action_ok_def given_def workflow_ok_def credential_ok_def
        validate_id_str_iff MAX_LEN_def id_char_def is_ascii_alphanumeric_def destination_ok_def mail_ok_def token_ok_def
        events_of_def mail_template_ok_def template_ok_def MIN_INTERVAL_def MAX_INTERVAL_def from_secs_def flow_ids_def
        source_ids_def destination_ids_def)
qed

lemma split_repo_example: "split_repo ''o/r'' = Inr (''o'', ''r'')"
  by (simp add: split_repo_def Let_def)

lemma example_accepted: "\<exists>c. validate example_validate_env example_raw = Inr c \<and> config.truncate c = config_of example_validate_env example_raw"
  using validate_cases [of example_validate_env example_raw] example_raw_ok by blast

text \<open>
  C12. An accepted configuration is well-formed: poll intervals, cooldowns, jitter and timeout
  within their bounds, at least one flow, no two flows of the same name, names, mail users and
  credential ids safe as file names, \<open>owner/repo\<close> with exactly one slash, a workflow file name without
  a path, no input that the dispatcher would overwrite, no event twice, and no two credential ids that
  read the same environment variable.
\<close>

theorem validated_config_wf:
  assumes "validate env raw = Inr c"
  shows "config_wf (config.truncate c)"
proof -
  from assms validate_cases [of env raw] have "raw_ok env raw" "config.truncate c = config_of env raw" by auto
  then show ?thesis using config_of_wf by metis
qed

theorem validated_config_wf_witness:
  "\<exists>c. validate example_validate_env example_raw = Inr c \<and> config_wf (config.truncate c)"
  using example_accepted validated_config_wf by blast

lemma effective_wf:
  assumes "defaults_wf dp" and "override_wf ov"
  shows "interval_wf (source_interval (effective_poll_compute dp ov strategy))"
    "interval_wf (job_interval (effective_poll_compute dp ov strategy))"
    "cooldown_wf (cooldown (effective_poll_compute dp ov strategy))"
    "jitter_ok (jitter (effective_poll_compute dp ov strategy))"
proof -
  have "interval_wf (default_interval strategy)"
    by (cases strategy) (simp_all add: interval_wf_def MIN_INTERVAL_def MAX_INTERVAL_def from_secs_def)
  then show "interval_wf (source_interval (effective_poll_compute dp ov strategy))"
    using assms by (auto simp: effective_poll_compute_def unwrap_or_def option_or_def defaults_wf_def override_wf_def split: option.splits)
qed (use assms in \<open>auto simp: effective_poll_compute_def unwrap_or_def defaults_wf_def override_wf_def split: option.splits\<close>)

lemma split_repo_ok:
  assumes "repo_ok s"
  shows "\<exists>owner repo. split_repo s = Inr (owner, repo) \<and> s = owner @ ''/'' @ repo \<and> CHR ''/'' \<notin> set owner \<and> CHR ''/'' \<notin> set repo"
proof -
  obtain owner repo where s: "s = owner @ ''/'' @ repo" "owner \<noteq> []" "repo \<noteq> []" "CHR ''/'' \<notin> set owner" "CHR ''/'' \<notin> set repo"
    using assms by (auto simp: repo_ok_def)
  then have "takeWhile (\<lambda>c. c \<noteq> CHR ''/'') s = owner" by (auto simp: takeWhile_append)
  with s show ?thesis by (simp add: split_repo_def Let_def)
qed

text \<open>
  What the daemon computes from an accepted configuration stays in range: for every flow
  and strategy the effective poll and job intervals are between 15 seconds and 24 hours, the cooldown
  is zero or in the same range, the jitter is at most one half, and the dispatcher's split of the
  repository succeeds with the owner and the name.
\<close>

theorem validated_config_in_range:
  assumes "validate env raw = Inr c" and "flow \<in> set (cf_flow c)"
    and "fc_action flow = GithubWorkflowDispatch repo workflow ref_name inputs cid"
    and "e = effective_poll_compute (cf_poll c) (fc_poll flow) strategy"
  shows "from_secs 15 \<le> source_interval e \<and> source_interval e \<le> from_secs 86400 \<and>
    from_secs 15 \<le> job_interval e \<and> job_interval e \<le> from_secs 86400 \<and>
    (cooldown e = 0 \<or> from_secs 15 \<le> cooldown e \<and> cooldown e \<le> from_secs 86400) \<and>
    (\<exists>q. jitter e = Finite q \<and> 0 \<le> q \<and> q \<le> 1 / 2) \<and>
    (\<exists>owner name. split_repo repo = Inr (owner, name) \<and> repo = owner @ ''/'' @ name \<and> CHR ''/'' \<notin> set owner \<and> CHR ''/'' \<notin> set name)"
proof -
  from assms(1) validate_cases [of env raw] have "raw_ok env raw" "config.truncate c = config_of env raw" by auto
  then have "config_wf (config.truncate c)" using config_of_wf by metis
  then have wf: "defaults_wf (cf_poll c)" "flow_wf flow"
    using assms(2) by (auto simp: config_wf_def config.truncate_def list_all_iff)
  then have "override_wf (fc_poll flow)" "repo_ok repo" using assms(3) by (auto simp: flow_wf_def)
  note e = effective_wf [OF wf(1) this(1), of strategy, folded assms(4)] and r = split_repo_ok [OF this(2)]
  show ?thesis
    using e r by (auto simp: interval_wf_def cooldown_wf_def jitter_ok_def MIN_INTERVAL_def MAX_INTERVAL_def)
qed

theorem validated_config_in_range_witness:
  "\<exists>c flow cid. validate example_validate_env example_raw = Inr c \<and> flow \<in> set (cf_flow c) \<and>
     fc_action flow = GithubWorkflowDispatch ''o/r'' ''ci.yml'' ''refs/heads/main'' [] cid \<and>
     from_secs 15 \<le> source_interval (effective_poll_compute (cf_poll c) (fc_poll flow) LsRemote) \<and> split_repo ''o/r'' = Inr (''o'', ''r'')"
proof -
  obtain c where c: "validate example_validate_env example_raw = Inr c" "config.truncate c = config_of example_validate_env example_raw"
    using example_accepted by blast
  then have f: "cf_flow c = map (flow_of example_validate_env) (rwc_flow example_raw)"
    by (simp add: config.truncate_def config_of_def)
  then obtain flow where flow: "flow \<in> set (cf_flow c)"
      "fc_action flow = GithubWorkflowDispatch ''o/r'' ''ci.yml'' ''refs/heads/main'' [] ''pat''"
    by (simp add: example_raw_def flow_of_def action_of_def text_of_def example_spanned_def)
  from validated_config_in_range [OF c(1) flow refl, of LsRemote] c(1) flow show ?thesis
    by (metis split_repo_example)
qed

text \<open>
  A template is rejected for a bare name exactly if one of the names it refers to, in an
  expression, a block or a template inside a named block, has neither a dot nor a slash.
\<close>

theorem bare_name_found_iff:
  "find_bare_name tpl \<noteq> None \<longleftrightarrow> (\<exists>n. references tpl n \<and> CHR ''.'' \<notin> set n \<and> CHR ''/'' \<notin> set n)"
  using find_bare(1) by (simp add: bare_def)

text \<open>
  The probe context the validator renders against has exactly the variables of the
  notifications' per-job context; the context of all other templates lacks the five \<open>job\<close>
  variables, so a title or mail template that uses one is accepted and cannot be rendered.
\<close>

theorem probe_context_variables:
  "set (variables probe_context) = set (variables (render_context_with_job to_hex to_rfc3339 ctx summary job)) \<and>
   set (variables probe_context) - set (variables (render_context to_hex to_rfc3339 ctx summary)) =
     {(''job'', ''id''), (''job'', ''name''), (''job'', ''url''), (''job'', ''conclusion''), (''job'', ''attempt'')}"
  by (simp add: variables_def probe_context_def render_context_with_job_def render_context_def insert_commute) auto

end
