(* ===== verification/Mail.thy ===== *)
theory Mail
  imports Notify Config_Types
begin

text \<open>
  The local mail notifier (\<open>src/src/mail\<close>): the mbox format with its quoting and header
  sanitising, and delivery to the spool with its error classification. A string is its UTF-8
  bytes. The local-time formats of \<open>chrono\<close> and the template renderer are parameters, and what
  the file system answers is a record. A reader of mbox files, as mail programs have, says what
  the format means.
\<close>

section \<open>The mbox format\<close>

definition BODY_BYTE_CAP :: nat where [model_defs]: "BODY_BYTE_CAP = 64 * 1024"

text \<open>
  \<open>sanitize_header\<close>: the outer loop takes a control byte, or a byte with the continuation bytes
  that follow it.
\<close>

function sanitize_header :: "string \<Rightarrow> string" where
  "sanitize_header [] = []"
| "sanitize_header (b # bs) =
     (if (of_char b :: nat) < 0x20 \<and> b \<noteq> CHR '' '' then CHR '' '' # sanitize_header bs
      else b # takeWhile is_continuation bs @ sanitize_header (dropWhile is_continuation bs))"
  by pat_completeness auto
termination
  by (relation "measure length") (auto simp: le_imp_less_Suc length_dropWhile_le)

text \<open>\<open>str::split\<close> at line feeds: one more piece than line feeds.\<close>

fun split_nl :: "string \<Rightarrow> string list" where
  "split_nl [] = [[]]"
| "split_nl (c # cs) = (if c = CHR 0x0A then [] # split_nl cs else (c # hd (split_nl cs)) # tl (split_nl cs))"

definition needs_mboxrd_quote :: "string \<Rightarrow> bool" where
  "needs_mboxrd_quote line = starts_with (dropWhile (\<lambda>c. c = CHR ''>'') line) ''From ''"

definition escape_mboxrd :: "string \<Rightarrow> string" where
  "escape_mboxrd body =
     concat (map (\<lambda>(i, line). (if i > 0 then [CHR 0x0A] else []) @ (if needs_mboxrd_quote line then ''>'' else []) @ line)
       (enumerate 0 (split_nl body)))"

text \<open>The texts of a local date in the two formats (\<open>format_from_line_date\<close>, \<open>format_rfc5322_date\<close>).\<close>

record date_formats =
  df_asctime :: "instant \<Rightarrow> string"
  df_rfc2822 :: "instant \<Rightarrow> string"

definition format_message :: "date_formats \<Rightarrow> instant \<Rightarrow> string \<Rightarrow> string \<Rightarrow> string \<Rightarrow> string \<Rightarrow> string" where
  "format_message df now user hostname subject body =
     (let out = ''From gcit '' @ df_asctime df now @ [CHR 0x0A] @
            ''Date: '' @ sanitize_header (df_rfc2822 df now) @ [CHR 0x0A] @
            ''From: gcit@'' @ sanitize_header hostname @ [CHR 0x0A] @
            ''To: '' @ sanitize_header user @ ''@'' @ sanitize_header hostname @ [CHR 0x0A] @
            ''Subject: '' @ sanitize_header subject @ [CHR 0x0A] @
            ''Content-Type: text/plain; charset=utf-8'' @ [CHR 0x0A] @
            ''MIME-Version: 1.0'' @ [CHR 0x0A] @
            [CHR 0x0A] @
            escape_mboxrd body;
          out = (if last out \<noteq> CHR 0x0A then out @ [CHR 0x0A] else out)
      in out @ [CHR 0x0A])"

definition trim_ascii :: "string \<Rightarrow> string" where
  "trim_ascii s =
     (let ws = (\<lambda>c. (of_char c :: nat) \<in> {9, 10, 11, 12, 13, 32})
      in rev (dropWhile ws (rev (dropWhile ws s))))"

text \<open>The white space of a host name file is ASCII; \<open>None\<close> is a file that cannot be read.\<close>

definition read_hostname_or_default :: "string option \<Rightarrow> string" where
  "read_hostname_or_default etc_hostname =
     (case etc_hostname of
        Some s \<Rightarrow> if trim_ascii s = [] then ''localhost'' else trim_ascii s
      | None \<Rightarrow> ''localhost'')"

section \<open>The notifier\<close>

definition LOCK_WAIT_DEADLINE :: duration where [model_defs]: "LOCK_WAIT_DEADLINE = from_secs 5"

definition DEFAULT_SPOOL_DIR :: string where [model_defs]: "DEFAULT_SPOOL_DIR = ''/var/mail''"

datatype user_error = ContainsSlash | ContainsParentDirectory | ContainsNul

fun user_error_message :: "user_error \<Rightarrow> string" where
  "user_error_message ContainsSlash =
     ''local_mail.user contains '' @ [CHR 0x27] @ ''/'' @ [CHR 0x27] @ '' (path traversal); use only A-Z, a-z, 0-9, '' @
     [CHR 0x27] @ ''_'' @ [CHR 0x27] @ '', and '' @ [CHR 0x27] @ ''-'' @ [CHR 0x27]"
| "user_error_message ContainsParentDirectory =
     ''local_mail.user contains '' @ [CHR 0x27] @ ''..'' @ [CHR 0x27] @ '' (path traversal); use only A-Z, a-z, 0-9, '' @
     [CHR 0x27] @ ''_'' @ [CHR 0x27] @ '', and '' @ [CHR 0x27] @ ''-'' @ [CHR 0x27]"
| "user_error_message ContainsNul =
     ''local_mail.user contains a NUL byte; use only A-Z, a-z, 0-9, '' @
     [CHR 0x27] @ ''_'' @ [CHR 0x27] @ '', and '' @ [CHR 0x27] @ ''-'' @ [CHR 0x27]"

definition validate_user :: "string \<Rightarrow> user_error + unit" where
  "validate_user user =
     (if CHR 0x00 \<in> set user then Inl ContainsNul
      else if contains user ''..'' then Inl ContainsParentDirectory
      else if CHR ''/'' \<in> set user then Inl ContainsSlash
      else Inr ())"

record mail_notifier =
  mn_id :: string
  mn_user :: string
  mn_hostname :: string
  mn_fire_on :: "fire_event list"
  mn_template :: mail_template
  mn_spool_dir :: string

definition local_mail_notifier_new ::
  "string \<Rightarrow> string \<Rightarrow> string \<Rightarrow> fire_event list \<Rightarrow> mail_template \<Rightarrow> user_error + mail_notifier" where
  "local_mail_notifier_new nid user hostname fire_on template =
     (case validate_user user of
        Inl e \<Rightarrow> Inl e
      | Inr _ \<Rightarrow> Inr \<lparr>mn_id = nid, mn_user = user, mn_hostname = hostname, mn_fire_on = fire_on, mn_template = template,
                      mn_spool_dir = DEFAULT_SPOOL_DIR\<rparr>)"

definition spool_path :: "mail_notifier \<Rightarrow> string" where
  "spool_path n = mn_spool_dir n @ ''/'' @ mn_user n"

definition default_body :: "'oid run_context \<Rightarrow> run_summary \<Rightarrow> string" where
  "default_body ctx summary =
     ''flow:       '' @ rc_flow_name ctx @ [CHR 0x0A] @
     ''source:     '' @ rc_url ctx @ [CHR 0x0A] @
     ''ref:        '' @ rc_ref_name ctx @ [CHR 0x0A] @
     ''sha:        '' @ rc_sha_short ctx @ [CHR 0x0A] @
     ''repo:       '' @ rc_repo ctx @ [CHR 0x0A] @
     ''workflow:   '' @ rc_workflow ctx @ [CHR 0x0A] @
     ''run id:     '' @ show_nat (unat (run_id summary)) @ [CHR 0x0A] @
     ''run url:    '' @ run_url summary @ [CHR 0x0A] @
     ''attempt:    '' @ show_nat (unat (run_attempt summary)) @ [CHR 0x0A] @
     ''conclusion: '' @ label_or ''(in progress)'' (run_conclusion summary) @ [CHR 0x0A] @
     [CHR 0x0A] @
     ''jobs ('' @ show_nat (length (run_jobs summary)) @ ''):'' @ [CHR 0x0A] @
     concat (map (\<lambda>j. ''  - '' @ job_name j @ '' ['' @ label_or ''(in progress)'' (job_conclusion j) @ ''] '' @
       job_html_url j @ [CHR 0x0A]) (run_jobs summary))"

subsection \<open>Writing to the spool\<close>

text \<open>\<open>std::io::Error\<close>: its kind where the code asks for it, the errno and its text.\<close>

datatype io_kind = IoNotFound | IoPermissionDenied | IoOtherKind

record spool_io_error =
  ioe_kind :: io_kind
  ioe_raw_os_error :: "int option"
  ioe_text :: string

definition ELOOP :: int where [model_defs]: "ELOOP = 40"
definition EISDIR :: int where [model_defs]: "EISDIR = 21"
definition EINVAL :: int where [model_defs]: "EINVAL = 22"

text \<open>
  What is at the spool path. Opening for append without \<open>O_CREAT\<close> and with \<open>O_NOFOLLOW\<close> succeeds
  on a regular file only; \<open>io_open\<close> is any other reason for it to fail.
\<close>

datatype spool_node = NoSpool | SpoolSymlink | SpoolDirectory | Spool string

record spool_io =
  io_open :: "spool_io_error option"
  io_lock :: "spool_io_error option"
  io_write :: "(nat \<times> spool_io_error) option"
  io_sync :: "spool_io_error option"

datatype write_error = LockTimeout | WriteIo spool_io_error

definition open_spool :: "spool_io \<Rightarrow> spool_node \<Rightarrow> spool_io_error + string" where
  "open_spool io node =
     (case node of
        NoSpool \<Rightarrow> Inl \<lparr>ioe_kind = IoNotFound, ioe_raw_os_error = Some 2, ioe_text = ''No such file or directory (os error 2)''\<rparr>
      | SpoolSymlink \<Rightarrow> Inl \<lparr>ioe_kind = IoOtherKind, ioe_raw_os_error = Some ELOOP,
          ioe_text = ''Too many levels of symbolic links (os error 40)''\<rparr>
      | SpoolDirectory \<Rightarrow> Inl \<lparr>ioe_kind = IoOtherKind, ioe_raw_os_error = Some EISDIR, ioe_text = ''Is a directory (os error 21)''\<rparr>
      | Spool text \<Rightarrow> (case io_open io of Some e \<Rightarrow> Inl e | None \<Rightarrow> Inr text))"

text \<open>The node afterwards, whether the lock was signalled, and the result.\<close>

definition write_with_lock :: "spool_io \<Rightarrow> string \<Rightarrow> spool_node \<Rightarrow> spool_node \<times> bool \<times> (write_error + unit)" where
  "write_with_lock io bytes node =
     (case open_spool io node of
        Inl e \<Rightarrow> (node, False, Inl (WriteIo e))
      | Inr text \<Rightarrow>
         (case io_lock io of
            Some e \<Rightarrow> (node, False, Inl (WriteIo e))
          | None \<Rightarrow>
             (case io_write io of
                Some (n, e) \<Rightarrow> (Spool (text @ take n bytes), True, Inl (WriteIo e))
              | None \<Rightarrow>
                 (case io_sync io of
                    Some e \<Rightarrow> (Spool (text @ bytes), True, Inl (WriteIo e))
                  | None \<Rightarrow> (Spool (text @ bytes), True, Inr ())))))"

definition map_io_error :: "spool_io_error \<Rightarrow> string \<Rightarrow> notify_error" where
  "map_io_error err path =
     (if ioe_kind err = IoNotFound then
        NotifyPermanent (''spool file '' @ path @ '' does not exist; create it via '' @ [CHR 0x60] @ ''useradd'' @ [CHR 0x60] @ ''/'' @
          [CHR 0x60] @ ''mailx'' @ [CHR 0x60] @ ''/'' @ [CHR 0x60] @ ''touch '' @ path @ [CHR 0x60])
      else if ioe_kind err = IoPermissionDenied then
        NotifyPermanent (''permission denied writing to '' @ path @
          ''; ensure BindPaths=/var/mail in the gcit unit and the daemon'' @ [CHR 0x27] @ ''s user is in the mail group'')
      else if ioe_raw_os_error err = Some ELOOP then
        NotifyPermanent (path @ '' is a symlink; refused via O_NOFOLLOW. Resolve and retry.'')
      else if ioe_raw_os_error err = Some EISDIR then
        NotifyPermanent (path @
          '' is a directory; spool path must be a regular file. Verify the destination user and the /var/mail layout.'')
      else if ioe_raw_os_error err = Some EINVAL then
        NotifyPermanent (''open('' @ path @ '') returned EINVAL; the underlying filesystem rejected the open flags. Verify /var/mail'' @
          [CHR 0x27] @ ''s filesystem supports O_APPEND + O_NOFOLLOW.'')
      else NotifyTransient (''io error on '' @ path @ '': '' @ ioe_text err) None)"

text \<open>What the blocking task gave, or the error of joining it.\<close>

fun classify_blocking_failure :: "string \<Rightarrow> string + (write_error + unit) \<Rightarrow> notify_error" where
  "classify_blocking_failure path (Inr (Inl (WriteIo e))) = map_io_error e path"
| "classify_blocking_failure path (Inr (Inl LockTimeout)) = NotifyTransient ''spool lock not acquired within 5s'' None"
| "classify_blocking_failure path (Inr (Inr _)) =
     NotifyTransient ''blocking task signaled phase-error but reported success'' None"
| "classify_blocking_failure path (Inl join_err) = NotifyTransient (''blocking task join failed: '' @ join_err) None"

text \<open>
  What ends the wait for the lock: the blocking task's signal (or its end), the deadline, or
  cancellation. With a join error the task did not run.
\<close>

datatype phase_event = PhaseReady | PhaseElapsed | PhaseCancelled

record mail_env =
  me_cancelled :: bool
  me_render :: "render_data \<Rightarrow> string \<Rightarrow> string + string"
  me_rfc3339 :: "instant \<Rightarrow> string"
  me_dates :: date_formats
  me_now :: instant
  me_io :: spool_io
  me_join_error :: "string option"
  me_phase :: phase_event

definition render_subject :: "mail_env \<Rightarrow> mail_notifier \<Rightarrow> render_data \<Rightarrow> 'oid run_context \<Rightarrow> run_summary \<Rightarrow> notify_error + string" where
  "render_subject env n data ctx summary =
     (case mt_subject (mn_template n) of
        Some t \<Rightarrow> (case me_render env data t of Inl e \<Rightarrow> Inl (NotifyPermanent (''subject render failed: '' @ e)) | Inr s \<Rightarrow> Inr s)
      | None \<Rightarrow> Inr (''[gcit] '' @ rc_flow_name ctx @ '' '' @ label_or ''complete'' (run_conclusion summary)))"

definition render_body :: "mail_env \<Rightarrow> mail_notifier \<Rightarrow> render_data \<Rightarrow> 'oid run_context \<Rightarrow> run_summary \<Rightarrow> notify_error + string" where
  "render_body env n data ctx summary =
     (case mt_body (mn_template n) of
        Some t \<Rightarrow> (case me_render env data t of Inl e \<Rightarrow> Inl (NotifyPermanent (''body render failed: '' @ e)) | Inr s \<Rightarrow> Inr s)
      | None \<Rightarrow> Inr (default_body ctx summary))"

text \<open>The wait for the lock and the classification of what came back, for a formatted message.\<close>

definition deliver_mail :: "mail_env \<Rightarrow> string \<Rightarrow> string \<Rightarrow> spool_node \<Rightarrow> spool_node \<times> (notify_error + notify_outcome)" where
  "deliver_mail env path bytes node =
     (let (node', signalled, result) =
            (case me_join_error env of
               Some e \<Rightarrow> (node, False, Inl e)
             | None \<Rightarrow> (case write_with_lock (me_io env) bytes node of (nd, sig, r) \<Rightarrow> (nd, sig, Inr r)))
      in (node',
          case me_phase env of
            PhaseCancelled \<Rightarrow>
              Inl (NotifyTransient (''cancelled before lock acquired on '' @ path @
                ''; the blocking task may still write if the lock becomes available before the deadline'') None)
          | PhaseElapsed \<Rightarrow> Inl (NotifyTransient ''spool lock not acquired within 5s'' None)
          | PhaseReady \<Rightarrow>
              if signalled \<and> result = Inr (Inr ()) then Inr (NotifySent (''file:'' @ path))
              else Inl (classify_blocking_failure path result)))"

definition mail_on_run_complete ::
  "('oid \<Rightarrow> string) \<Rightarrow> mail_env \<Rightarrow> mail_notifier \<Rightarrow> 'oid run_context \<Rightarrow> run_summary \<Rightarrow> spool_node
     \<Rightarrow> spool_node \<times> (notify_error + notify_outcome)"
where
  "mail_on_run_complete to_hex env n ctx summary node =
     (if RunCompleteEvent \<notin> set (mn_fire_on n) then (node, Inr (NotifySkipped FireOnMismatch))
      else if me_cancelled env then (node, Inl (NotifyTransient (''cancelled before lock acquired on '' @ spool_path n) None))
      else
        let data = render_context to_hex (me_rfc3339 env) ctx summary
        in case render_subject env n data ctx summary of
             Inl e \<Rightarrow> (node, Inl e)
           | Inr subject \<Rightarrow>
              (case render_body env n data ctx summary of
                 Inl e \<Rightarrow> (node, Inl e)
               | Inr body \<Rightarrow>
                   if length body > BODY_BYTE_CAP then
                     (node, Inl (NotifyPermanent (''rendered body is '' @ show_nat (length body) @ '' bytes; cap is '' @
                        show_nat BODY_BYTE_CAP @ '' bytes; reduce template inputs or split the flow into smaller flows'')))
                   else deliver_mail env (spool_path n)
                          (format_message (me_dates env) (me_now env) (mn_user n) (mn_hostname n) subject body) node))"

section \<open>Reading an mbox file\<close>

text \<open>
  The reference: a line that starts with \<open>From\<close> and a space starts a message, headers end at the
  first empty line, the blank line that ends a message is not part of it, and one \<open>>\<close> is taken off
  quoted lines.
\<close>

definition text_lines :: "string \<Rightarrow> string list" where
  "text_lines s = (let ls = split_nl s in if last ls = [] then butlast ls else ls)"

fun mbox_group :: "string list \<Rightarrow> string list \<times> string list list" where
  "mbox_group [] = ([], [])"
| "mbox_group (l # ls) =
     (case mbox_group ls of (pre, ms) \<Rightarrow> if starts_with l ''From '' then ([], (l # pre) # ms) else (l # pre, ms))"

record mbox_message =
  mm_from :: string
  mm_headers :: "string list"
  mm_body :: "string list"

definition unquote_mboxrd :: "string \<Rightarrow> string" where
  "unquote_mboxrd line = (if starts_with line ''>'' \<and> needs_mboxrd_quote line then tl line else line)"

definition parse_message :: "string list \<Rightarrow> mbox_message" where
  "parse_message ls =
     (let body = tl (dropWhile (\<lambda>l. l \<noteq> []) (tl ls))
      in \<lparr>mm_from = hd ls, mm_headers = takeWhile (\<lambda>l. l \<noteq> []) (tl ls),
          mm_body = map unquote_mboxrd (if body \<noteq> [] \<and> last body = [] then butlast body else body)\<rparr>)"

definition read_mbox :: "string \<Rightarrow> mbox_message list" where
  "read_mbox s = map parse_message (snd (mbox_group (text_lines s)))"

section \<open>Lemmas\<close>

abbreviation nl :: char where "nl \<equiv> CHR 0x0A"

text \<open>Lines.\<close>

lemma split_nl_nonempty [simp]: "split_nl s \<noteq> []"
  by (cases s) auto

lemma split_nl_append: "split_nl (a @ nl # b) = split_nl a @ split_nl b"
  by (induction a) auto

lemma split_nl_join: "split_nl (a @ b) = butlast (split_nl a) @ (last (split_nl a) @ hd (split_nl b)) # tl (split_nl b)"
proof (induction a)
  case (Cons c cs)
  obtain h t where "split_nl cs = h # t" by (cases "split_nl cs") auto
  with Cons show ?case by (cases t) simp_all
qed simp

lemma split_nl_single: "nl \<notin> set l \<Longrightarrow> split_nl l = [l]"
  by (induction l) auto

lemma split_nl_line: "nl \<notin> set l \<Longrightarrow> split_nl (l @ nl # s) = l # split_nl s"
  by (simp add: split_nl_append split_nl_single)

lemma split_nl_no_nl: "l \<in> set (split_nl s) \<Longrightarrow> nl \<notin> set l"
proof (induction s arbitrary: l)
  case (Cons c cs)
  obtain h t where "split_nl cs = h # t" by (cases "split_nl cs") auto
  with Cons show ?case by (auto split: if_splits)
qed simp

lemma last_split_nl: "last (split_nl s) = [] \<longleftrightarrow> s = [] \<or> last s = nl"
proof (induction s)
  case (Cons c cs)
  show ?case
  proof (cases "tl (split_nl cs) = []")
    case True
    then have one: "split_nl cs = [hd (split_nl cs)]" by (cases "split_nl cs") auto
    then have "last (split_nl cs) = hd (split_nl cs)" by (metis last.simps)
    with Cons one show ?thesis by (cases cs) (auto split: if_splits)
  next
    case False
    then have "last (tl (split_nl cs)) = last (split_nl cs)" by (simp add: last_tl)
    moreover have "cs \<noteq> []" using False by auto
    ultimately show ?thesis using Cons False by auto
  qed
qed simp

definition unlines :: "string list \<Rightarrow> string" where
  "unlines ls = concat (map (\<lambda>l. l @ [nl]) ls)"

lemma split_nl_unlines: "list_all (\<lambda>l. nl \<notin> set l) ls \<Longrightarrow> split_nl (unlines ls @ s) = ls @ split_nl s"
  by (induction ls) (auto simp: unlines_def split_nl_line)

lemma text_lines_append:
  assumes "a = [] \<or> last a = nl"
  shows "text_lines (a @ b) = text_lines a @ text_lines b"
proof (cases "a = []")
  case True
  then show ?thesis by (simp add: text_lines_def)
next
  case False
  with assms obtain a' where a: "a = a' @ [nl]" by (metis append_butlast_last_id)
  have "split_nl (a @ b) = split_nl a' @ split_nl b" by (simp add: a split_nl_append)
  moreover have "split_nl a = split_nl a' @ [[]]" by (simp add: a split_nl_append)
  ultimately show ?thesis by (auto simp: text_lines_def Let_def butlast_append)
qed

text \<open>Sanitising is the replacement of each control byte.\<close>

definition replace_control :: "char \<Rightarrow> char" where
  "replace_control b = (if (of_char b :: nat) < 0x20 then CHR '' '' else b)"

lemma takeWhile_continuation_map:
  "map replace_control (takeWhile is_continuation bs) = takeWhile is_continuation bs"
  by (rule map_idI) (auto simp: replace_control_def dest!: set_takeWhileD continuation_not_control)

lemma sanitize_header_map: "sanitize_header s = map replace_control s"
proof (induction s rule: sanitize_header.induct)
  case (2 b bs)
  have "map replace_control bs = takeWhile is_continuation bs @ map replace_control (dropWhile is_continuation bs)"
    by (metis map_append takeWhile_continuation_map takeWhile_dropWhile_id)
  moreover have "replace_control b = (if (of_char b :: nat) < 0x20 \<and> b \<noteq> CHR '' '' then CHR '' '' else b)"
    by (auto simp: replace_control_def)
  ultimately show ?case using 2 by simp
qed simp

lemma sanitize_no_nl [simp]: "nl \<notin> set (sanitize_header s)"
  by (auto simp: sanitize_header_map replace_control_def split: if_splits)

text \<open>Quoting, line by line.\<close>

definition quote_line :: "string \<Rightarrow> string" where
  "quote_line line = (if needs_mboxrd_quote line then ''>'' else []) @ line"

lemma escape_tail:
  "concat (map (\<lambda>(i, line). (if i > 0 then [nl] else []) @ (if needs_mboxrd_quote line then ''>'' else []) @ line) (enumerate (Suc n) ls)) =
   concat (map (\<lambda>l. nl # quote_line l) ls)"
  by (induction ls arbitrary: n) (auto simp: quote_line_def)

lemma quote_line_no_nl: "nl \<notin> set l \<Longrightarrow> nl \<notin> set (quote_line l)"
  by (auto simp: quote_line_def)

lemma split_nl_joined:
  "nl \<notin> set l \<Longrightarrow> list_all (\<lambda>l. nl \<notin> set l) ls \<Longrightarrow> split_nl (l @ concat (map ((#) nl) ls)) = l # ls"
  by (induction ls arbitrary: l) (auto simp: split_nl_single split_nl_line)

lemma split_nl_escape: "split_nl (escape_mboxrd body) = map quote_line (split_nl body)"
proof -
  obtain l ls where e: "split_nl body = l # ls" by (cases "split_nl body") auto
  have "escape_mboxrd body = quote_line l @ concat (map ((#) nl) (map quote_line ls))"
    by (simp add: escape_mboxrd_def e escape_tail comp_def) (simp add: quote_line_def)
  moreover have "nl \<notin> set l" "list_all (\<lambda>l. nl \<notin> set l) ls"
    using split_nl_no_nl [of _ body] by (auto simp: e list_all_iff)
  ultimately show ?thesis
    using split_nl_joined [of "quote_line l" "map quote_line ls"] by (simp add: e quote_line_no_nl list_all_iff)
qed

lemma quote_line_Nil [simp]: "quote_line l = [] \<longleftrightarrow> l = []"
  by (auto simp: quote_line_def needs_mboxrd_quote_def)

lemma text_lines_escape: "text_lines (escape_mboxrd body) = map quote_line (text_lines body)"
  by (auto simp: text_lines_def Let_def split_nl_escape last_map map_butlast)

lemma quote_line_not_From: "\<not> starts_with (quote_line l) ''From ''"
proof (cases "needs_mboxrd_quote l")
  case False
  then have "\<not> starts_with l ''From ''"
    by (cases l) (auto simp: needs_mboxrd_quote_def)
  with False show ?thesis by (simp add: quote_line_def)
qed (simp add: quote_line_def)

lemma unquote_quote: "unquote_mboxrd (quote_line l) = l"
  by (cases l) (auto simp: unquote_mboxrd_def quote_line_def needs_mboxrd_quote_def)

text \<open>Messages.\<close>

lemma mbox_group_append:
  assumes "ms = [] \<or> starts_with (hd ms) ''From ''"
  shows "snd (mbox_group (ls @ ms)) = snd (mbox_group ls) @ snd (mbox_group ms) \<and> fst (mbox_group (ls @ ms)) = fst (mbox_group ls)"
proof (induction ls)
  case Nil
  show ?case using assms by (cases ms) (auto split: prod.split)
next
  case (Cons l ls)
  then show ?case by (auto split: prod.splits)
qed

lemma mbox_group_body:
  "list_all (\<lambda>l. \<not> starts_with l ''From '') ls \<Longrightarrow> mbox_group ls = (ls, [])"
  by (induction ls) auto

definition message_headers :: "date_formats \<Rightarrow> instant \<Rightarrow> string \<Rightarrow> string \<Rightarrow> string \<Rightarrow> string list" where
  "message_headers df now user hostname subject =
     [''Date: '' @ sanitize_header (df_rfc2822 df now), ''From: gcit@'' @ sanitize_header hostname,
      ''To: '' @ sanitize_header user @ ''@'' @ sanitize_header hostname, ''Subject: '' @ sanitize_header subject,
      ''Content-Type: text/plain; charset=utf-8'', ''MIME-Version: 1.0'']"

lemma format_message_lines:
  assumes "nl \<notin> set (df_asctime df now)"
  shows "text_lines (format_message df now user hostname subject body) =
    (''From gcit '' @ df_asctime df now) # message_headers df now user hostname subject @ [[]] @ map quote_line (text_lines body) @ [[]]"
    (is "_ = ?from # ?hs @ _")
    and "last (format_message df now user hostname subject body) = nl"
proof -
  let ?head = "unlines (?from # ?hs @ [[]])"
  let ?out = "?head @ escape_mboxrd body"
  have shape: "format_message df now user hostname subject body = (if last ?out \<noteq> nl then ?out @ [nl] else ?out) @ [nl]"
    by (simp add: format_message_def message_headers_def unlines_def Let_def)
  have nonl: "list_all (\<lambda>l. nl \<notin> set l) (?from # ?hs @ [[]])"
    using assms by (simp add: message_headers_def)
  have headlast: "last ?head = nl" and "?head \<noteq> []" by (simp_all add: unlines_def)
  have head: "text_lines ?head = ?from # ?hs @ [[]]"
    using split_nl_unlines [OF nonl, of "[]"] by (simp add: text_lines_def butlast_append)
  have body: "text_lines ((if last ?out \<noteq> nl then ?out @ [nl] else ?out) @ [nl]) = text_lines ?head @ map quote_line (text_lines body) @ [[]]"
  proof (cases "last ?out = nl")
    case True
    then have "escape_mboxrd body = [] \<or> last (escape_mboxrd body) = nl" by (cases "escape_mboxrd body") (auto split: if_splits)
    then have "text_lines (escape_mboxrd body @ [nl]) = text_lines (escape_mboxrd body) @ [[]]"
      by (subst text_lines_append) (simp_all add: text_lines_def)
    with True headlast show ?thesis by (simp add: text_lines_append text_lines_escape)
  next
    case False
    let ?e = "escape_mboxrd body"
    have "?e \<noteq> []" using False headlast by auto
    moreover have "last ?e \<noteq> nl" using False calculation by (simp only: last_appendR not_False_eq_True)
    ultimately have e: "?e \<noteq> []" "last ?e \<noteq> nl" .
    have "split_nl (?e @ [nl, nl]) = split_nl ?e @ [[], []]" using split_nl_append [of ?e "[nl]"] by simp
    moreover have "last (split_nl ?e) \<noteq> []" using e by (simp add: last_split_nl)
    ultimately have "text_lines (?e @ [nl, nl]) = text_lines ?e @ [[]]"
      by (simp add: text_lines_def Let_def butlast_append del: split_nl.simps)
    with False headlast show ?thesis by (simp add: text_lines_append text_lines_escape)
  qed
  show "text_lines (format_message df now user hostname subject body) =
      ?from # ?hs @ [[]] @ map quote_line (text_lines body) @ [[]]"
    unfolding shape body head by simp
  show "last (format_message df now user hostname subject body) = nl" unfolding shape by simp
qed

lemma parse_formatted:
  "parse_message (l # message_headers df now user hostname subject @ [[]] @ map quote_line ls @ [[]]) =
     \<lparr>mm_from = l, mm_headers = message_headers df now user hostname subject, mm_body = ls\<rparr>"
  by (simp add: parse_message_def message_headers_def comp_def unquote_quote)

lemma formatted_lines_rest:
  "list_all (\<lambda>l. \<not> starts_with l ''From '') (message_headers df now user hostname subject @ [[]] @ map quote_line ls @ [[]])"
  using quote_line_not_From by (auto simp: message_headers_def list_all_iff simp del: starts_with.simps(3))
    (simp_all add: starts_with_iff)

lemma read_mbox_append_message:
  assumes "nl \<notin> set (df_asctime df now)" and "text = [] \<or> last text = nl"
  shows "read_mbox (text @ format_message df now user hostname subject body) = read_mbox text @
    [\<lparr>mm_from = ''From gcit '' @ df_asctime df now, mm_headers = message_headers df now user hostname subject,
      mm_body = text_lines body\<rparr>]"
proof -
  let ?from = "''From gcit '' @ df_asctime df now"
  let ?rest = "message_headers df now user hostname subject @ [[]] @ map quote_line (text_lines body) @ [[]]"
  have lines: "text_lines (text @ format_message df now user hostname subject body) = text_lines text @ ?from # ?rest"
    using format_message_lines(1) [of df now user hostname subject body] assms by (simp add: text_lines_append)
  have "mbox_group (?from # ?rest) = ([], [?from # ?rest])"
    unfolding mbox_group.simps mbox_group_body [OF formatted_lines_rest] by simp
  then have "snd (mbox_group (text_lines text @ ?from # ?rest)) = snd (mbox_group (text_lines text)) @ [?from # ?rest]"
    using mbox_group_append [of "?from # ?rest" "text_lines text"] by simp
  then show ?thesis
    unfolding read_mbox_def lines using parse_formatted [of ?from df now user hostname subject "text_lines body"] by simp
qed

lemma starts_with_joined:
  assumes "l \<noteq> []"
  shows "starts_with (l @ ''From '' @ s) ''From '' \<longleftrightarrow> starts_with l ''From ''"
proof -
  obtain c cs where "l = c # cs" using assms by (cases l) auto
  then show ?thesis by (cases cs; cases "tl cs"; cases "tl (tl cs)"; cases "tl (tl (tl cs))"; auto)
qed

lemma mbox_group_count: "length (snd (mbox_group ls)) = length (filter (\<lambda>l. starts_with l ''From '') ls)"
  by (induction ls) (auto split: prod.split)

text \<open>Delivery, by what reached the spool.\<close>

lemma write_with_lock_node:
  assumes "write_with_lock io bytes node = (node', sig, r)"
  shows "node' = node \<or> (\<exists>text k. node = Spool text \<and> node' = Spool (text @ take k bytes))"
    and "r = Inr () \<Longrightarrow> \<exists>text. node = Spool text \<and> node' = Spool (text @ bytes)"
proof -
  have "\<exists>k. t @ bytes = t @ take k bytes" for t by (rule exI [of _ "length bytes"]) simp
  then show "node' = node \<or> (\<exists>text k. node = Spool text \<and> node' = Spool (text @ take k bytes))"
    using assms by (auto simp: write_with_lock_def open_spool_def split: spool_node.splits option.splits sum.splits)
  show "\<exists>text. node = Spool text \<and> node' = Spool (text @ bytes)" if "r = Inr ()"
    using assms that by (auto simp: write_with_lock_def open_spool_def split: spool_node.splits option.splits sum.splits)
qed

lemma deliver_mail_node:
  assumes "deliver_mail env path bytes node = (node', r)"
  shows "node' = node \<or> (\<exists>text k. node = Spool text \<and> node' = Spool (text @ take k bytes))"
    and "r = Inr (NotifySent receipt) \<Longrightarrow> \<exists>text. node = Spool text \<and> node' = Spool (text @ bytes)"
proof -
  obtain nd sg wr where w: "write_with_lock (me_io env) bytes node = (nd, sg, wr)" by (metis prod_cases3)
  show "node' = node \<or> (\<exists>text k. node = Spool text \<and> node' = Spool (text @ take k bytes))"
    using assms w write_with_lock_node(1) [OF w] by (auto simp: deliver_mail_def split: option.splits)
  show "\<exists>text. node = Spool text \<and> node' = Spool (text @ bytes)" if "r = Inr (NotifySent receipt)"
    using assms that w write_with_lock_node(2) [OF w]
    by (auto simp: deliver_mail_def split: option.splits phase_event.splits if_splits)
qed

lemma deliver_mail_not_skipped: "deliver_mail env path bytes node \<noteq> (node', Inr (NotifySkipped reason))"
  by (auto simp: deliver_mail_def split: option.splits phase_event.splits prod.splits if_splits)

text \<open>The stages of the handler: nothing is written, or the rendered message goes to the spool.\<close>

lemma mail_on_run_complete_cases:
  assumes "mail_on_run_complete to_hex env n ctx summary node = (node', r)"
  obtains (early) "node' = node" "\<And>receipt. r \<noteq> Inr (NotifySent receipt)"
  | (deliver) subject body where
      "RunCompleteEvent \<in> set (mn_fire_on n)" "\<not> me_cancelled env"
      "render_subject env n (render_context to_hex (me_rfc3339 env) ctx summary) ctx summary = Inr subject"
      "render_body env n (render_context to_hex (me_rfc3339 env) ctx summary) ctx summary = Inr body"
      "length body \<le> BODY_BYTE_CAP"
      "deliver_mail env (spool_path n) (format_message (me_dates env) (me_now env) (mn_user n) (mn_hostname n) subject body) node = (node', r)"
  using assms unfolding mail_on_run_complete_def Let_def
  by (auto split: if_splits sum.splits)

section \<open>Properties\<close>

text \<open>
  The byte loop that sanitises a header, which copies a character with its continuation
  bytes at a time, is the replacement of every byte below \<open>0x20\<close> by a space.
\<close>

theorem sanitize_header_bytewise:
  "sanitize_header s = map (\<lambda>b. if (of_char b :: nat) < 0x20 then CHR '' '' else b) s"
  using sanitize_header_map [of s] by (simp add: replace_control_def [abs_def])

text \<open>
  C23. A delivered mail can be read back: when the notifier reports the message as sent, a
  reader of the spool finds all earlier messages unchanged and one more, whose headers are exactly
  those the notifier writes (no value adds a header or a message) and whose body is the rendered
  body, line by line. The date format contains no line feed.
\<close>

theorem mail_delivery_roundtrip:
  assumes "mail_on_run_complete to_hex env n ctx summary (Spool text) = (node', Inr (NotifySent receipt))"
    and "\<forall>t. CHR 0x0A \<notin> set (df_asctime (me_dates env) t)" and "text = [] \<or> last text = CHR 0x0A"
  shows "\<exists>subject body text'. node' = Spool text' \<and> last text' = CHR 0x0A \<and>
    render_subject env n (render_context to_hex (me_rfc3339 env) ctx summary) ctx summary = Inr subject \<and>
    render_body env n (render_context to_hex (me_rfc3339 env) ctx summary) ctx summary = Inr body \<and>
    read_mbox text' = read_mbox text @
      [\<lparr>mm_from = ''From gcit '' @ df_asctime (me_dates env) (me_now env),
        mm_headers = message_headers (me_dates env) (me_now env) (mn_user n) (mn_hostname n) subject,
        mm_body = text_lines body\<rparr>]"
  using assms(1)
proof (cases rule: mail_on_run_complete_cases)
  case (deliver subject body)
  let ?m = "format_message (me_dates env) (me_now env) (mn_user n) (mn_hostname n) subject body"
  have nonl: "nl \<notin> set (df_asctime (me_dates env) (me_now env))" using assms(2) by simp
  note m = format_message_lines(2) [OF nonl, of "mn_user n" "mn_hostname n" subject body]
  have "?m \<noteq> []" by (simp add: format_message_def Let_def)
  then have "last (text @ ?m) = nl" using m by simp
  moreover have "node' = Spool (text @ ?m)" using deliver_mail_node(2) [OF deliver(6)] by simp
  ultimately show ?thesis using deliver(3,4) read_mbox_append_message [OF nonl assms(3)] by blast
qed blast

definition example_mail_env :: mail_env where
  "example_mail_env = \<lparr>me_cancelled = False, me_render = \<lambda>_ t. Inr t, me_rfc3339 = \<lambda>_. [], me_dates = \<lparr>df_asctime = \<lambda>_. ''D'', df_rfc2822 = \<lambda>_. ''D''\<rparr>,
     me_now = 0, me_io = \<lparr>io_open = None, io_lock = None, io_write = None, io_sync = None\<rparr>, me_join_error = None, me_phase = PhaseReady\<rparr>"

definition example_mailer :: mail_notifier where
  "example_mailer = \<lparr>mn_id = ''ci.dest0'', mn_user = ''ops'', mn_hostname = ''h'', mn_fire_on = [RunCompleteEvent],
     mn_template = \<lparr>mt_subject = Some ''s'', mt_body = Some ''From a''\<rparr>, mn_spool_dir = DEFAULT_SPOOL_DIR\<rparr>"

definition example_mail :: "spool_node \<times> (notify_error + notify_outcome)" where
  "example_mail = mail_on_run_complete (\<lambda>_ :: nat. []) example_mail_env example_mailer
     (build_run_context (\<lambda>_. []) example_flow \<lparr>ts_observed_sha = 0, ts_observed_at = 0\<rparr> [] [] [] 0 0 []) (empty_run_summary 0) (Spool [])"

lemma example_mail_sent: "example_mail = (fst example_mail, Inr (NotifySent ''file:/var/mail/ops''))"
  by (simp add: example_mail_def mail_on_run_complete_def example_mailer_def example_mail_env_def render_subject_def render_body_def
      deliver_mail_def write_with_lock_def open_spool_def spool_path_def model_defs prod_eq_iff)

theorem mail_delivery_roundtrip_witness:
  "\<exists>text'. fst example_mail = Spool text' \<and> length (read_mbox text') = 1"
proof -
  have "read_mbox [] = []" by (simp add: read_mbox_def text_lines_def)
  moreover have "\<forall>t. CHR 0x0A \<notin> set (df_asctime (me_dates example_mail_env) t)" by (simp add: example_mail_env_def)
  ultimately show ?thesis
    using mail_delivery_roundtrip [OF example_mail_sent [unfolded example_mail_def]] unfolding example_mail_def [symmetric] by fastforce
qed

text \<open>
  The notifier never creates a spool, follows a link or touches earlier mail: whatever
  fails, what is at the spool path stays as it was or, for a regular file, gains a prefix of the one
  message the notifier formatted, whose body is within the cap.
\<close>

theorem mail_spool_only_grows:
  assumes "mail_on_run_complete to_hex env n ctx summary node = (node', r)"
  shows "node' = node \<or>
    (\<exists>text k subject body. node = Spool text \<and> length body \<le> 65536 \<and> RunCompleteEvent \<in> set (mn_fire_on n) \<and>
       node' = Spool (text @ take k (format_message (me_dates env) (me_now env) (mn_user n) (mn_hostname n) subject body)))"
  using assms
proof (cases rule: mail_on_run_complete_cases)
  case (deliver subject body)
  then show ?thesis using deliver_mail_node(1) [OF deliver(6)] by (auto simp: BODY_BYTE_CAP_def)
qed simp

theorem mail_spool_only_grows_witness:
  "fst example_mail = Spool [] \<or> (\<exists>text k m. Spool [] = Spool text \<and> fst example_mail = Spool (text @ take k m))"
proof -
  have "example_mail = (fst example_mail, snd example_mail)" by simp
  from mail_spool_only_grows [OF this [unfolded example_mail_def]] show ?thesis
    unfolding example_mail_def [symmetric] by blast
qed

text \<open>
  A torn write loses the next mail: after a write that failed in the middle of a line the
  notifier appends the next message to that line, so a reader finds no more messages than before.
\<close>

theorem torn_spool_swallows_next:
  assumes "torn \<noteq> []" and "last torn \<noteq> CHR 0x0A" and "CHR 0x0A \<notin> set (df_asctime df now)"
  shows "length (read_mbox (torn @ format_message df now user hostname subject body)) = length (read_mbox torn)"
proof -
  let ?from = "''From gcit '' @ df_asctime df now"
  let ?rest = "message_headers df now user hostname subject @ [[]] @ map quote_line (text_lines body) @ [[]]"
  let ?m = "format_message df now user hostname subject body"
  obtain init l where ls: "split_nl torn = init @ [l]" by (metis append_butlast_last_id split_nl_nonempty)
  have l: "l \<noteq> []" using assms(1,2) last_split_nl [of torn] ls by simp
  have m: "split_nl ?m = (?from # ?rest) @ [[]]"
  proof -
    have "last (split_nl ?m) = []" using format_message_lines(2) [OF assms(3)] by (simp add: last_split_nl)
    moreover from this have "butlast (split_nl ?m) = ?from # ?rest"
      using format_message_lines(1) [OF assms(3), of user hostname subject body] by (simp add: text_lines_def)
    ultimately show ?thesis by (metis append_butlast_last_id split_nl_nonempty)
  qed
  have "split_nl (torn @ ?m) = init @ (l @ ?from) # ?rest @ [[]]" unfolding split_nl_join ls m by simp
  then have lines: "text_lines (torn @ ?m) = init @ (l @ ?from) # ?rest" by (simp add: text_lines_def butlast_append)
  have "text_lines torn = init @ [l]" using ls l by (simp add: text_lines_def)
  moreover have "starts_with (l @ ?from) ''From '' \<longleftrightarrow> starts_with l ''From ''"
    using starts_with_joined [OF l, of "''gcit '' @ df_asctime df now"] by simp
  moreover have "filter (\<lambda>l. starts_with l ''From '') ?rest = []"
    using formatted_lines_rest [of df now user hostname subject "text_lines body"] by (auto simp: filter_empty_conv list_all_iff)
  ultimately show ?thesis unfolding read_mbox_def by (simp add: mbox_group_count lines)
qed

theorem torn_spool_swallows_next_witness:
  "length (read_mbox (''From gcit D'' @ format_message \<lparr>df_asctime = \<lambda>_. ''D'', df_rfc2822 = \<lambda>_. ''D''\<rparr> 0 ''ops'' ''h'' ''s'' ''b'')) =
     length (read_mbox ''From gcit D'')"
  by (rule torn_spool_swallows_next) simp_all

end
