(* ===== verification/Config_Check.thy ===== *)
theory Config_Check
  imports Config_Correct Mail
begin

text \<open>
  \<open>gcit check\<close> (\<open>src/src/cli/check.rs\<close>) with the spool probe (\<open>src/src/config/validate/spool.rs\<close>): the
  host state a configuration needs. The theorems relate its verdict to what the daemon's credential
  pool does at start-up.
\<close>

section \<open>Spool files\<close>

text \<open>\<open>access(2)\<close>: the error number for write access, and whether a path exists.\<close>

record access_env =
  ac_write :: "string \<Rightarrow> nat option"
  ac_exists :: "string \<Rightarrow> bool"
  ac_strerror :: "nat \<Rightarrow> string"

definition ENOENT :: nat where [model_defs]: "ENOENT = 2"
definition EACCES :: nat where [model_defs]: "EACCES = 13"
definition EINVAL :: nat where [model_defs]: "EINVAL = 22"

datatype spool_probe = Writable | ParentMissing | SpoolMissing | NotWritable | OtherError nat

text \<open>\<open>Path::parent\<close> of a path without \<open>.\<close> components; no parent is the root here, as in the code.\<close>

definition parent_or_root :: "string \<Rightarrow> string" where
  "parent_or_root p =
     (let q = dropWhile (\<lambda>c. c = CHR ''/'') (rev p);
          r = dropWhile (\<lambda>c. c = CHR ''/'') (dropWhile (\<lambda>c. c \<noteq> CHR ''/'') q)
      in if q = [] then ''/'' else if r = [] \<and> starts_with p ''/'' then ''/'' else rev r)"

definition probe_spool_writability :: "access_env \<Rightarrow> string \<Rightarrow> spool_probe" where
  "probe_spool_writability env path =
     (if CHR 0x00 \<in> set path then OtherError EINVAL
      else case ac_write env path of
        None \<Rightarrow> Writable
      | Some errno \<Rightarrow>
          if errno = ENOENT then
            (if CHR 0x00 \<in> set (parent_or_root path) then OtherError EINVAL
             else if ac_exists env (parent_or_root path) then SpoolMissing else ParentMissing)
          else if errno = EACCES then NotWritable
          else OtherError errno)"

fun probe_to_error :: "access_env \<Rightarrow> string \<Rightarrow> string \<Rightarrow> string \<Rightarrow> string \<Rightarrow> string \<Rightarrow> spool_probe \<Rightarrow> config_error option" where
  "probe_to_error env path flow_name user spool dir_root Writable = None"
| "probe_to_error env path flow_name user spool dir_root ParentMissing =
     Some (ValidateError path [1] (Some flow_name) ''destination.local_mail.user'' user
       (''spool parent directory '' @ dir_root @ '' does not exist; install a mail package or create it manually'')
       (''install mailutils or postfix, or '' @ backquoted (''sudo mkdir -m 0755 '' @ dir_root)))"
| "probe_to_error env path flow_name user spool dir_root SpoolMissing =
     Some (ValidateError path [1] (Some flow_name) ''destination.local_mail.user'' user
       (''spool file '' @ spool @ '' does not exist; gcit does not auto-create it'')
       (''create the user via '' @ backquoted ''useradd'' @ '' or '' @ backquoted ''mailx'' @ '', or '' @
        backquoted (''sudo touch '' @ spool @ '' && sudo chown '' @ user @ '':mail '' @ spool @ '' && sudo chmod 0660 '' @ spool)))"
| "probe_to_error env path flow_name user spool dir_root NotWritable =
     Some (ValidateError path [1] (Some flow_name) ''destination.local_mail.user'' user
       (''spool file '' @ spool @ '' is not writable for the current effective uid'')
       (''ensure the daemon is in the mail group and '' @ backquoted (''chmod 0660 '' @ spool) @ '', OR add '' @
        backquoted (''BindPaths='' @ dir_root) @ '' to gcit.service''))"
| "probe_to_error env path flow_name user spool dir_root (OtherError errno) =
     Some (ValidateError path [1] (Some flow_name) ''destination.local_mail.user'' user
       (''spool file '' @ spool @ '' probe failed with errno '' @ show_nat errno @ '' ('' @ ac_strerror env errno @ '')'')
       ''investigate the underlying filesystem condition (mount state, EROFS, EIO, etc.)'')"

definition spool_errors_of :: "access_env \<Rightarrow> string \<Rightarrow> string \<Rightarrow> 'j flow_config \<Rightarrow> config_error list" where
  "spool_errors_of env path dir_root flow =
     concat (map (\<lambda>dest. case dest of
         LocalMail user _ _ \<Rightarrow>
           (let spool = path_join dir_root user
            in case probe_to_error env path (fc_name flow) user spool dir_root (probe_spool_writability env spool) of
                 Some e \<Rightarrow> [e] | None \<Rightarrow> [])
       | DiscordWebhook _ _ _ \<Rightarrow> []) (fc_destination flow))"

definition validate_spool_writability :: "access_env \<Rightarrow> loaded_config \<Rightarrow> string option \<Rightarrow> config_error list" where
  "validate_spool_writability env cfg spool_root =
     concat (map (spool_errors_of env (lc_source_path cfg) (unwrap_or spool_root DEFAULT_SPOOL_DIR)) (cf_flow cfg))"

section \<open>Credentials\<close>

text \<open>
  \<open>var_os id\<close> tells whether the variable is set at all; the daemon reads it with \<open>env::var\<close>, which
  fails for a value that is no text.
\<close>

definition probe_candidate :: "process_env \<Rightarrow> string \<Rightarrow> string list \<Rightarrow> string \<Rightarrow> bool \<times> config_error option" where
  "probe_candidate env cid owners p =
     (case probe (pe_euid env) (pe_stat env p) of
        ProbeOk \<Rightarrow> (True, None)
      | NotPresent \<Rightarrow> (False, None)
      | Invariant err \<Rightarrow> (False, Some (CredentialInvariant p (render_invariant err cid p) owners))
      | StatError err \<Rightarrow> (False, Some (CredentialInvariant p (render_stat_error err cid p PreFlight) owners)))"

definition credentials_dir :: "process_env \<Rightarrow> string option" where
  "credentials_dir env =
     (case pe_credentials_directory env of Some p \<Rightarrow> if pe_is_dir env p then Some p else None | None \<Rightarrow> None)"

definition check_credential ::
  "process_env \<Rightarrow> (string \<Rightarrow> bool) \<Rightarrow> string option \<Rightarrow> string \<Rightarrow> string list \<Rightarrow> bool \<times> config_error option" where
  "check_credential env var_os config_dir cid owners =
     (let (resolved, err) = (case credentials_dir env of
            Some dir \<Rightarrow> probe_candidate env cid owners (path_join dir cid) | None \<Rightarrow> (False, None));
          resolved = (if \<not> resolved \<and> err = None \<and> var_os (id_to_env cid) then True else resolved)
      in if \<not> resolved \<and> err = None
         then (case config_dir of
                 Some dir \<Rightarrow> probe_candidate env cid owners (path_join (path_join dir ''credentials'') cid)
               | None \<Rightarrow> (resolved, err))
         else (resolved, err))"

definition build_searched_paths :: "string \<Rightarrow> string option \<Rightarrow> string option \<Rightarrow> string list" where
  "build_searched_paths cid cred_dir config_dir =
     (case cred_dir of Some dir \<Rightarrow> [path_join dir cid] | None \<Rightarrow> []) @ [''$env::'' @ id_to_env cid] @
     (case config_dir of Some dir \<Rightarrow> [path_join (path_join dir ''credentials'') cid] | None \<Rightarrow> [])"

text \<open>The first occurrence of every flow is kept.\<close>

definition collect_consumers :: "'j flow_config list \<Rightarrow> (string \<times> string list) list" where
  "collect_consumers cfgs =
     map (\<lambda>(cid, owners). (cid, rev (remdups (rev owners))))
       (sorted_entries (foldl (\<lambda>m r. push_entry (cr_id r) (cr_flow r) m) [] (walk_credentials cfgs)))"

record check_report =
  ck_errors :: "config_error list"
  ck_notes :: "string list"

definition check_one ::
  "process_env \<Rightarrow> (string \<Rightarrow> bool) \<Rightarrow> string \<Rightarrow> string option \<Rightarrow> loaded_config \<Rightarrow> check_report \<Rightarrow> string \<times> string list \<Rightarrow> check_report" where
  "check_one env var_os config_path config_dir cfg rep entry =
     (case entry of (cid, owners) \<Rightarrow>
       (case check_credential env var_os config_dir cid owners of
          (_, Some e) \<Rightarrow> rep\<lparr>ck_errors := ck_errors rep @ [e]\<rparr>
        | (True, None) \<Rightarrow> rep
        | (False, None) \<Rightarrow>
           (let searched = build_searched_paths cid (credentials_dir env) config_dir
            in if credentials_dir env \<noteq> None
               then rep\<lparr>ck_notes := ck_notes rep @ [''credential '' @ squoted cid @
                 '' not present in $CREDENTIALS_DIRECTORY at check time; the systemd unit'' @ [CHR 0x27] @
                 ''s LoadCredential= line will provide it at daemon start (consumed by: '' @ join '', '' owners @ '')'']\<rparr>
               else rep\<lparr>ck_errors := ck_errors rep @
                 [CredentialNotFound config_path (unwrap_or (map_of (lc_credential_lines cfg) cid) []) cid searched owners]\<rparr>)))"


definition check_run ::
  "process_env \<Rightarrow> (string \<Rightarrow> bool) \<Rightarrow> access_env \<Rightarrow> string \<Rightarrow> string option \<Rightarrow> config_error list + loaded_config \<Rightarrow> nat \<times> check_report" where
  "check_run env var_os access config_path config_dir loaded =
     (case loaded of
        Inl errors \<Rightarrow> (EXIT_CONFIG, \<lparr>ck_errors = errors, ck_notes = []\<rparr>)
      | Inr cfg \<Rightarrow>
         (let rep = foldl (check_one env var_os config_path config_dir cfg)
                \<lparr>ck_errors = validate_spool_writability access cfg None, ck_notes = []\<rparr> (collect_consumers (cf_flow cfg))
          in if ck_errors rep \<noteq> [] then (EXIT_CONFIG, rep) else (EXIT_OK, rep)))"

section \<open>Lemmas\<close>

text \<open>The pre-flight verdict and the daemon's lookup, when files that pass the checks can be read.\<close>

lemma credentials_dir_candidate_eq:
  "credentials_dir_candidate env cid = (case credentials_dir env of Some dir \<Rightarrow> try_credential_file env cid (path_join dir cid) | None \<Rightarrow> None)"
  by (simp add: credentials_dir_candidate_def credentials_dir_def split: option.splits)

lemma check_agrees:
  assumes reads: "\<And>p. \<exists>s. pe_read env p = ReadOk s" and vars: "\<And>v. var_os v \<longleftrightarrow> pe_var env v \<noteq> None"
  shows "(\<exists>s. lookup_secret env config_dir cid = Inr s) \<longleftrightarrow> fst (check_credential env var_os config_dir cid owners) \<and>
    snd (check_credential env var_os config_dir cid owners) = None"
proof -
  have fl: "(case try_credential_file env cid p of None \<Rightarrow> probe_candidate env cid owners p = (False, None)
      | Some (Inl _) \<Rightarrow> \<exists>e. probe_candidate env cid owners p = (False, Some e)
      | Some (Inr _) \<Rightarrow> probe_candidate env cid owners p = (True, None))" for p
    using reads [of p] by (auto simp: try_credential_file_def probe_candidate_def split: probe_result.splits sum.splits)
  have var: "var_os (id_to_env cid) \<longleftrightarrow> env_candidate env cid \<noteq> None" by (simp add: vars env_candidate_def)
  show ?thesis
  proof (cases "credentials_dir_candidate env cid")
    case (Some r)
    then obtain dir where d: "credentials_dir env = Some dir" "try_credential_file env cid (path_join dir cid) = Some r"
      by (auto simp: credentials_dir_candidate_eq split: option.splits)
    with fl [of "path_join dir cid"] Some show ?thesis
      by (cases r) (auto simp: lookup_secret_def check_credential_def Let_def)
  next
    case None
    then have p: "(case credentials_dir env of Some dir \<Rightarrow> probe_candidate env cid owners (path_join dir cid) | None \<Rightarrow> (False, None)) = (False, None)"
    proof (cases "credentials_dir env")
      case (Some dir)
      with None have "try_credential_file env cid (path_join dir cid) = None" by (simp add: credentials_dir_candidate_eq)
      with fl [of "path_join dir cid"] Some show ?thesis by simp
    qed simp
    show ?thesis
    proof (cases "env_candidate env cid")
      case (Some r)
      then have "\<exists>s. r = Inr s" by (auto simp: env_candidate_def)
      with Some None p var show ?thesis by (auto simp: lookup_secret_def check_credential_def Let_def)
    next
      case none: None
      show ?thesis
      proof (cases config_dir)
        case None
        with none \<open>credentials_dir_candidate env cid = None\<close> p var show ?thesis
          by (simp add: lookup_secret_def check_credential_def config_dir_candidate_def)
      next
        case (Some dir)
        with none \<open>credentials_dir_candidate env cid = None\<close> p var fl [of "path_join (path_join dir ''credentials'') cid"] show ?thesis
          by (auto simp: lookup_secret_def check_credential_def config_dir_candidate_def split: option.splits sum.splits)
      qed
    qed
  qed
qed

lemma collect_consumers_ids: "fst ` set (collect_consumers cfgs) = cr_id ` set (walk_credentials cfgs)"
proof -
  have dom: "dom (map_of (foldl (\<lambda>m r. push_entry (cr_id r) (cr_flow r) m) m rs)) = dom (map_of m) \<union> cr_id ` set rs" for m rs
    by (induction rs arbitrary: m) (auto simp: map_of_push_entry)
  have "fst ` set (sorted_entries m) = dom (map_of m)" for m :: "(string \<times> string list) list"
    by (simp add: set_eq_iff image_iff Bex_def split_paired_Ex set_sorted_entries dom_def)
  with dom [of "[]" "walk_credentials cfgs"] show ?thesis by (simp add: collect_consumers_def image_image case_prod_beta)
qed

lemma check_fold_grows:
  "prefix (ck_errors rep) (ck_errors (foldl (check_one env var_os path dir cfg) rep es)) \<and>
   prefix (ck_notes rep) (ck_notes (foldl (check_one env var_os path dir cfg) rep es))"
proof (induction es arbitrary: rep)
  case (Cons e es)
  have "prefix (ck_errors rep) (ck_errors (check_one env var_os path dir cfg rep e)) \<and>
      prefix (ck_notes rep) (ck_notes (check_one env var_os path dir cfg rep e))"
    by (auto simp: check_one_def Let_def split: prod.splits option.splits bool.splits)
  with Cons.IH [of "check_one env var_os path dir cfg rep e"] show ?case by (auto intro: prefix_order.trans)
qed simp

lemma check_fold_clean:
  assumes "ck_errors (foldl (check_one env var_os path dir cfg) rep es) = []" and "ck_notes (foldl (check_one env var_os path dir cfg) rep es) = []"
    and "(cid, owners) \<in> set es"
  shows "check_credential env var_os dir cid owners = (True, None)"
  using assms
proof (induction es arbitrary: rep)
  case (Cons e es)
  let ?rep = "check_one env var_os path dir cfg rep e"
  have clean: "ck_errors ?rep = []" "ck_notes ?rep = []"
    using check_fold_grows [of ?rep env var_os path dir cfg es] Cons.prems(1,2) by simp_all
  show ?case
  proof (cases "e = (cid, owners)")
    case True
    with clean show ?thesis
      by (auto simp: check_one_def Let_def split: prod.splits option.splits bool.splits if_splits)
  next
    case False
    with Cons show ?thesis by auto
  qed
qed simp

section \<open>Properties\<close>

text \<open>
  The pre-flight check and the daemon agree on a credential: where files that pass the
  ownership and mode checks can be read and the variables hold text, \<open>gcit check\<close> counts an id as
  resolved exactly if the daemon's lookup finds its secret.
\<close>

theorem preflight_agrees_with_daemon:
  assumes "\<And>p. \<exists>s. pe_read env p = ReadOk s" and "\<And>v. var_os v \<longleftrightarrow> pe_var env v \<noteq> None"
  shows "check_credential env var_os config_dir cid owners = (True, None) \<longleftrightarrow> (\<exists>s. lookup_secret env config_dir cid = Inr s)"
  using check_agrees [OF assms, of config_dir cid owners] by (simp add: prod_eq_iff)

definition example_process :: process_env where
  "example_process = \<lparr>pe_credentials_directory = None, pe_is_dir = \<lambda>_. False, pe_var = \<lambda>_. None,
     pe_stat = \<lambda>_. Inr \<lparr>md_type = RegularType, md_mode = 0x180, md_uid = 0\<rparr>, pe_read = \<lambda>_. ReadOk ''github_pat_x'', pe_euid = 0\<rparr>"

lemma example_probe: "check_credential example_process (\<lambda>_. False) (Some ''/etc/gcit'') cid owners = (True, None)"
  by (simp add: check_credential_def credentials_dir_def example_process_def probe_candidate_def probe_def owner_uid_accepted_def)

theorem preflight_agrees_with_daemon_witness:
  "check_credential example_process (\<lambda>_. False) (Some ''/etc/gcit'') ''pat'' [''a''] = (True, None) \<and>
   (\<exists>s. lookup_secret example_process (Some ''/etc/gcit'') ''pat'' = Inr s)"
  using preflight_agrees_with_daemon [of example_process "\<lambda>_. False" "Some ''/etc/gcit''" "''pat''" "[''a'']"] example_probe
  by (simp add: example_process_def)


definition example_loaded :: loaded_config where
  "example_loaded = \<lparr>cf_poll = default_poll, cf_request_timeout = from_secs 30,
     cf_flow = map (flow_of example_validate_env) (rwc_flow example_raw), lc_source_path = ''gcit.toml'', lc_log_filter = None,
     lc_credential_lines = []\<rparr>"


end
