(* ===== verification/Systemd_Unit.thy ===== *)
theory Systemd_Unit
  imports Config_Check
begin

text \<open>
  The unit files \<open>gcit install\<close> writes (\<open>src/src/systemd/unit.rs\<close>): where they go, and their text
  as a list of lines; a theorem reads the service unit back line by line. And \<open>gcit validate-template\<close>
  (\<open>src/src/cli/validate_template.rs\<close>), compared with the template check of the configuration.
\<close>

section \<open>Paths\<close>

datatype install_scope = UserScope | SystemScope

record install_paths =
  ip_service_unit :: string
  ip_socket_unit :: string
  ip_config :: string
  ip_credentials_dir :: string
  ip_manifest :: string

definition install_paths_of :: "(string \<Rightarrow> string option) \<Rightarrow> install_scope \<Rightarrow> string \<Rightarrow> install_paths" where
  "install_paths_of var_os scope home =
     (case scope of
        UserScope \<Rightarrow>
         (let xdg_config = unwrap_or (var_os ''XDG_CONFIG_HOME'') (path_join home ''.config'');
              xdg_state = unwrap_or (var_os ''XDG_STATE_HOME'') (path_join (path_join home ''.local'') ''state'');
              config_dir = path_join xdg_config ''gcit'';
              units_dir = path_join (path_join xdg_config ''systemd'') ''user'';
              state_dir = path_join xdg_state ''gcit''
          in \<lparr>ip_service_unit = path_join units_dir ''gcit.service'', ip_socket_unit = path_join units_dir ''gcit.socket'',
              ip_config = path_join config_dir ''config.toml'', ip_credentials_dir = path_join config_dir ''credentials'',
              ip_manifest = path_join state_dir ''.install-manifest.json''\<rparr>)
      | SystemScope \<Rightarrow>
          \<lparr>ip_service_unit = ''/etc/systemd/system/gcit.service'', ip_socket_unit = ''/etc/systemd/system/gcit.socket'',
           ip_config = ''/etc/gcit/config.toml'', ip_credentials_dir = ''/etc/gcit/credentials'',
           ip_manifest = ''/var/lib/gcit/.install-manifest.json''\<rparr>)"

section \<open>Unit texts\<close>

definition render_socket_unit :: string where
  "render_socket_unit = unlines
     [''[Unit]'', ''Description=gcit control socket'', [], ''[Socket]'', ''ListenStream=%t/gcit/control.sock'', ''SocketMode=0600'',
      ''FileDescriptorName=control'', [], ''[Install]'', ''WantedBy=sockets.target'']"

definition collect_credential_ids :: "'j flow_config list \<Rightarrow> string list" where
  "collect_credential_ids cfgs = sort (remdups (map cr_id (walk_credentials cfgs)))"

definition has_local_mail :: "'j flow_config list \<Rightarrow> bool" where
  "has_local_mail cfgs = list_ex (\<lambda>f. list_ex (\<lambda>d. case d of LocalMail _ _ _ \<Rightarrow> True | DiscordWebhook _ _ _ \<Rightarrow> False) (fc_destination f)) cfgs"

definition identity_lines :: "bool \<Rightarrow> string list" where
  "identity_lines local_mail =
     (if local_mail then [''User=gcit'', ''Group=mail'', ''SupplementaryGroups=mail''] else [''DynamicUser=yes''])"

definition hardening_lines :: "string list" where
  "hardening_lines =
     [''NoNewPrivileges=yes'',
      ''ProtectSystem=strict'',
      ''ProtectHome=yes'',
      ''PrivateTmp=yes'',
      ''PrivateDevices=yes'',
      ''ProtectKernelTunables=yes'',
      ''ProtectKernelModules=yes'',
      ''ProtectKernelLogs=yes'',
      ''ProtectControlGroups=yes'',
      ''ProtectClock=yes'',
      ''ProtectHostname=yes'',
      ''ProtectProc=invisible'',
      ''ProcSubset=pid'',
      ''RestrictAddressFamilies=AF_UNIX AF_INET AF_INET6'',
      ''RestrictNamespaces=yes'',
      ''RestrictRealtime=yes'',
      ''RestrictSUIDSGID=yes'',
      ''LockPersonality=yes'',
      ''MemoryDenyWriteExecute=yes'',
      ''SystemCallFilter=@system-service'',
      ''SystemCallFilter='' @ [CHR 0x7E] @ ''@resources'',
      ''SystemCallFilter='' @ [CHR 0x7E] @ ''@privileged'',
      ''SystemCallArchitectures=native'',
      ''CapabilityBoundingSet='',
      ''AmbientCapabilities='',
      ''DeviceAllow='',
      ''DevicePolicy=closed'',
      ''IPAddressDeny=any'',
      ''IPAddressAllow=any'',
      ''RemoveIPC=yes'',
      ''RootDirectory=%t/gcit/root'',
      ''TemporaryFileSystem=/:ro'',
      ''BindReadOnlyPaths=/etc/pki/tls/certs -/etc/ssl/certs /etc/resolv.conf'',
      ''UMask=0077'',
      ''RuntimeDirectory=gcit'',
      ''RuntimeDirectoryMode=0700'',
      ''StateDirectory=gcit'',
      ''StateDirectoryMode=0700'',
      ''ConfigurationDirectory=gcit'',
      ''ConfigurationDirectoryMode=0750'']"

definition load_credential_line :: "install_scope \<Rightarrow> string \<Rightarrow> string" where
  "load_credential_line scope cid =
     ''LoadCredential='' @ cid @ '':'' @
     (case scope of UserScope \<Rightarrow> ''%E/gcit/credentials'' | SystemScope \<Rightarrow> ''/etc/gcit/credentials'') @ ''/'' @ cid"

definition service_lines :: "'j flow_config list \<Rightarrow> install_scope \<Rightarrow> string \<Rightarrow> string list" where
  "service_lines cfgs scope bin =
     [''[Unit]'', ''Description=gcit (poll git, dispatch GitHub Actions, notify Discord/mail)'',
      ''Documentation=https://github.com/likewhatevs/gcit'', ''Requires=gcit.socket'', ''After=network-online.target'',
      ''Wants=network-online.target'', [], ''[Service]'', ''Type=notify'',
      ''ExecStart='' @ bin @ '' run'', ''ExecReload='' @ bin @ '' reload''] @
     identity_lines (has_local_mail cfgs) @
     hardening_lines @ [''PrivateUsers=yes''] @
     (if has_local_mail cfgs then [''BindPaths=/var/mail''] else []) @
     [''Restart=on-failure'', ''NotifyAccess=main'', ''TimeoutStopSec=360''] @
     map (load_credential_line scope) (collect_credential_ids cfgs) @
     [[], ''[Install]'', ''WantedBy=default.target'']"

definition render_service_unit :: "'j flow_config list \<Rightarrow> install_scope \<Rightarrow> string \<Rightarrow> string" where
  "render_service_unit cfgs scope bin = unlines (service_lines cfgs scope bin)"

section \<open>\<open>gcit validate-template\<close>\<close>

definition validate_template_run :: "validate_env \<Rightarrow> string + string \<Rightarrow> nat" where
  "validate_template_run env contents =
     (case contents of
        Inl _ \<Rightarrow> EXIT_DATAERR
      | Inr source \<Rightarrow>
         (case ve_compile env source of
            Inl _ \<Rightarrow> EXIT_DATAERR
          | Inr tpl \<Rightarrow>
              if find_bare_name tpl \<noteq> None then EXIT_DATAERR
              else case ve_render env source probe_context of Inr _ \<Rightarrow> EXIT_OK | Inl _ \<Rightarrow> EXIT_DATAERR))"

section \<open>Lemmas\<close>

lemma id_no_newline: "validate_id_str cid = Inr () \<Longrightarrow> nl \<notin> set cid"
  by (auto simp: validate_id_str_iff list_all_iff id_char_def is_ascii_alphanumeric_def)

lemma load_line_no_newline: "nl \<notin> set cid \<Longrightarrow> nl \<notin> set (load_credential_line scope cid)"
  by (cases scope) (auto simp: load_credential_line_def)

lemma ids_valid:
  assumes "list_all flow_wf cfgs" and "cid \<in> set (collect_credential_ids cfgs)"
  shows "validate_id_str cid = Inr ()"
  using assms by (auto simp: collect_credential_ids_def walk_credentials_def flow_wf_def list_all_iff)

lemma fixed_lines:
  "list_all (\<lambda>l. nl \<notin> set l \<and> \<not> starts_with l ''LoadCredential='') (identity_lines b)"
  "list_all (\<lambda>l. nl \<notin> set l \<and> \<not> starts_with l ''LoadCredential='') hardening_lines"
  by (simp_all add: identity_lines_def hardening_lines_def)

lemma service_lines_clean:
  assumes "list_all flow_wf cfgs" and "nl \<notin> set bin"
  shows "list_all (\<lambda>l. nl \<notin> set l) (service_lines cfgs scope bin)"
proof -
  have "list_all (\<lambda>l. nl \<notin> set l) (map (load_credential_line scope) (collect_credential_ids cfgs))"
    using ids_valid [OF assms(1)] id_no_newline load_line_no_newline by (auto simp: list_all_iff)
  moreover have "list_all (\<lambda>l. nl \<notin> set l) (identity_lines (has_local_mail cfgs))" "list_all (\<lambda>l. nl \<notin> set l) hardening_lines"
    using fixed_lines by (auto simp: list_all_iff)
  ultimately show ?thesis using assms(2) by (simp add: service_lines_def)
qed

lemma load_lines:
  "filter (\<lambda>l. starts_with l ''LoadCredential='') (service_lines cfgs scope bin) =
     map (load_credential_line scope) (collect_credential_ids cfgs)"
proof -
  have "filter (\<lambda>l. starts_with l ''LoadCredential='') (identity_lines (has_local_mail cfgs)) = []"
    "filter (\<lambda>l. starts_with l ''LoadCredential='') hardening_lines = []"
    using fixed_lines by (auto simp: list_all_iff filter_empty_conv)
  then show ?thesis by (simp add: service_lines_def load_credential_line_def filter_map comp_def)
qed

section \<open>Properties\<close>

text \<open>
  Read back line by line, the service unit written for an accepted configuration has
  exactly one \<open>LoadCredential=\<close> line for every credential the configuration refers to, in sorted
  order, and no other: no identifier can add a line of its own.
\<close>

theorem unit_loads_each_credential:
  assumes "validate env raw = Inr c" and "nl \<notin> set bin" and "ids = collect_credential_ids (cf_flow c)"
  shows "filter (\<lambda>l. starts_with l ''LoadCredential='') (split_nl (render_service_unit (cf_flow c) scope bin)) =
      map (load_credential_line scope) ids \<and>
    sorted ids \<and> distinct ids \<and> set ids = cr_id ` set (walk_credentials (cf_flow c))"
proof -
  from assms(1) validate_cases [of env raw] have "raw_ok env raw" "config.truncate c = config_of env raw" by auto
  then have "config_wf (config.truncate c)" using config_of_wf by metis
  then have "list_all flow_wf (cf_flow c)" by (simp add: config_wf_def config.truncate_def)
  from split_nl_unlines [OF service_lines_clean [OF this assms(2)], of scope "[]"]
  have "split_nl (render_service_unit (cf_flow c) scope bin) = service_lines (cf_flow c) scope bin @ [[]]"
    by (simp add: render_service_unit_def)
  then show ?thesis using load_lines [of "cf_flow c" scope bin] by (simp add: assms(3) collect_credential_ids_def)
qed

theorem unit_loads_each_credential_witness:
  "\<exists>c. validate example_validate_env example_raw = Inr c \<and>
     filter (\<lambda>l. starts_with l ''LoadCredential='') (split_nl (render_service_unit (cf_flow c) SystemScope ''/usr/bin/gcit'')) =
       [''LoadCredential=pat:/etc/gcit/credentials/pat'']"
proof -
  obtain c where c: "validate example_validate_env example_raw = Inr c" "config.truncate c = config_of example_validate_env example_raw"
    using example_accepted by blast
  then have "cf_flow c = map (flow_of example_validate_env) (rwc_flow example_raw)"
    by (simp add: config.truncate_def config_of_def)
  then have "collect_credential_ids (cf_flow c) = [''pat'']"
    by (simp add: collect_credential_ids_def walk_credentials_def flow_credential_ids flow_ids_def source_ids_def destination_ids_def
        text_of_def example_raw_def example_spanned_def)
  with unit_loads_each_credential [OF c(1) _ refl, of "''/usr/bin/gcit''" SystemScope] c(1) show ?thesis
    by (simp add: load_credential_line_def)
qed

text \<open>
  \<open>gcit validate-template\<close> succeeds on a template exactly if the configuration validator
  reports no error for it as a destination template.
\<close>

theorem validate_template_agrees:
  "validate_template_run env (Inr t) = EXIT_OK \<longleftrightarrow>
     v_errors (snd (run_state (compile_template_field env name field (Some \<lparr>get_ref = t, span_start = pos\<rparr>)) s)) = v_errors s"
proof -
  obtain x s' where run: "run_state (compile_template_field env name field (Some \<lparr>get_ref = t, span_start = pos\<rparr>)) s = (x, s')"
    by (metis surj_pair)
  from checksD(1) [OF checks_template run] have "v_errors s' = v_errors s \<longleftrightarrow> template_ok env \<lparr>get_ref = t, span_start = pos\<rparr>" by auto
  moreover have "validate_template_run env (Inr t) = EXIT_OK \<longleftrightarrow> template_ok env \<lparr>get_ref = t, span_start = pos\<rparr>"
    by (auto simp: validate_template_run_def template_ok_def EXIT_OK_def EXIT_DATAERR_def split: sum.splits)
  ultimately show ?thesis by (simp add: run)
qed

end
