(* ===== verification/Atomic_File.thy ===== *)
theory Atomic_File
  imports Prelude
begin

text \<open>
  The durable file write both the state writer and the installer use
  (\<open>src/src/util.rs\<close>, \<open>atomic_write\<close> and \<open>atomic_write_json\<close>), over a file system with a
  page cache: \<open>now\<close> is what the running system sees, \<open>durable\<close> the directory entries known to
  be on the device, and a file remembers whether its data has been flushed. A power loss may
  keep either entry of a path, and a file that was never flushed may hold anything.
\<close>

section \<open>Files, directory entries, crashes\<close>

type_synonym path = string

record inode =
  f_data :: string
  f_mode :: nat
  f_synced :: bool

record fs =
  now :: "path \<rightharpoonup> inode"
  durable :: "path \<rightharpoonup> inode"

definition survivors :: "inode option \<Rightarrow> string option set" where
  "survivors e = (case e of None \<Rightarrow> {None}
     | Some f \<Rightarrow> if f_synced f then {Some (f_data f)} else range Some)"

text \<open>What a reader can find at \<open>p\<close> after a power loss.\<close>

definition crash_contents :: "fs \<Rightarrow> path \<Rightarrow> string option set" where
  "crash_contents d p = survivors (now d p) \<union> survivors (durable d p)"

definition settled :: "fs \<Rightarrow> path \<Rightarrow> bool" where
  "settled d p \<longleftrightarrow> (case now d p of None \<Rightarrow> True | Some f \<Rightarrow> f_synced f) \<and>
     (case durable d p of None \<Rightarrow> True | Some f \<Rightarrow> f_synced f)"

section \<open>The write\<close>

text \<open>
  The steps of \<open>atomic_write\<close> in program order; each may fail with an \<open>io::Error\<close>, which the
  \<open>?\<close> after it returns at once.
\<close>

datatype aw_op = TempfileIn | WriteAll | ChmodTemp | SyncTemp | Persist | ChmodDest | OpenDir | SyncDir

fun aw_effect :: "path \<Rightarrow> path \<Rightarrow> string \<Rightarrow> nat \<Rightarrow> aw_op \<Rightarrow> fs \<Rightarrow> fs" where
  "aw_effect tmp dest contents mode TempfileIn d =
     d\<lparr>now := (now d)(tmp \<mapsto> \<lparr>f_data = [], f_mode = 384, f_synced = False\<rparr>)\<rparr>"
| "aw_effect tmp dest contents mode WriteAll d =
     d\<lparr>now := (now d)(tmp := map_option (\<lambda>f. f\<lparr>f_data := contents, f_synced := False\<rparr>) (now d tmp))\<rparr>"
| "aw_effect tmp dest contents mode ChmodTemp d =
     d\<lparr>now := (now d)(tmp := map_option (\<lambda>f. f\<lparr>f_mode := mode\<rparr>) (now d tmp))\<rparr>"
| "aw_effect tmp dest contents mode SyncTemp d =
     d\<lparr>now := (now d)(tmp := map_option (\<lambda>f. f\<lparr>f_synced := True\<rparr>) (now d tmp))\<rparr>"
| "aw_effect tmp dest contents mode Persist d =
     d\<lparr>now := (now d)(dest := now d tmp, tmp := None)\<rparr>"
| "aw_effect tmp dest contents mode ChmodDest d =
     d\<lparr>now := (now d)(dest := map_option (\<lambda>f. f\<lparr>f_mode := mode\<rparr>) (now d dest))\<rparr>"
| "aw_effect tmp dest contents mode OpenDir d = d"
| "aw_effect tmp dest contents mode SyncDir d = d\<lparr>durable := now d\<rparr>"

definition aw_ops :: "aw_op list" where
  "aw_ops = [TempfileIn, WriteAll, ChmodTemp, SyncTemp, Persist, ChmodDest, OpenDir, SyncDir]"

text \<open>
  Dropping the \<open>NamedTempFile\<close> on an early return deletes the temporary file; once it has been
  persisted there is nothing left to delete.
\<close>

definition drop_temp :: "path \<Rightarrow> fs \<Rightarrow> fs" where
  "drop_temp tmp d = d\<lparr>now := (now d)(tmp := None)\<rparr>"

text \<open>Every file system state on the way, the last of them the state on return.\<close>

fun aw_run :: "(aw_op \<Rightarrow> bool) \<Rightarrow> path \<Rightarrow> path \<Rightarrow> string \<Rightarrow> nat \<Rightarrow> aw_op list \<Rightarrow> fs \<Rightarrow> fs list \<times> (aw_op + unit)"
where
  "aw_run fails tmp dest contents mode [] d = ([d], Inr ())"
| "aw_run fails tmp dest contents mode (op # ops) d =
     (if fails op then ([d, drop_temp tmp d], Inl op)
      else (let (ds, r) = aw_run fails tmp dest contents mode ops (aw_effect tmp dest contents mode op d)
            in (d # ds, r)))"

definition atomic_write_trace ::
  "(aw_op \<Rightarrow> bool) \<Rightarrow> path \<Rightarrow> path \<Rightarrow> string \<Rightarrow> nat \<Rightarrow> fs \<Rightarrow> fs list \<times> (aw_op + unit)" where
  "atomic_write_trace fails tmp dest contents mode d = aw_run fails tmp dest contents mode aw_ops d"

definition atomic_write ::
  "(aw_op \<Rightarrow> bool) \<Rightarrow> path \<Rightarrow> path \<Rightarrow> string \<Rightarrow> nat \<Rightarrow> fs \<Rightarrow> fs \<times> (aw_op + unit)" where
  "atomic_write fails tmp dest contents mode d =
     (let (ds, r) = atomic_write_trace fails tmp dest contents mode d in (last ds, r))"

text \<open>
  \<open>atomic_write_json\<close>: serialization (\<open>serde_json::to_vec_pretty\<close>, the parameter \<open>ser\<close>) first;
  \<open>Inl None\<close> is its failure.
\<close>

definition atomic_write_json ::
  "('a \<Rightarrow> string option) \<Rightarrow> (aw_op \<Rightarrow> bool) \<Rightarrow> path \<Rightarrow> path \<Rightarrow> 'a \<Rightarrow> nat \<Rightarrow> fs \<Rightarrow> fs \<times> (aw_op option + unit)"
where
  "atomic_write_json ser fails tmp dest val mode d =
     (case ser val of
        None \<Rightarrow> (d, Inl None)
      | Some bytes \<Rightarrow>
         (case atomic_write fails tmp dest bytes mode d of
            (d', Inl op) \<Rightarrow> (d', Inl (Some op))
          | (d', Inr _) \<Rightarrow> (d', Inr ())))"

section \<open>Lemmas\<close>

lemma aw_run_last_nonempty: "fst (aw_run fails tmp dest c m ops d) \<noteq> []"
  by (cases ops) (auto split: prod.split)

lemma aw_run_unfold:
  "aw_run fails tmp dest c m (op # ops) d =
     (if fails op then ([d, drop_temp tmp d], Inl op)
      else (d # fst (aw_run fails tmp dest c m ops (aw_effect tmp dest c m op d)),
            snd (aw_run fails tmp dest c m ops (aw_effect tmp dest c m op d))))"
  by (simp add: split_beta)

text \<open>
  The invariant of the write, indexed by the operations still to run: until the rename the
  destination is untouched and the temporary file takes shape; afterwards the destination
  holds the flushed new contents.
\<close>

definition old_dest :: "path \<Rightarrow> fs \<Rightarrow> fs \<Rightarrow> bool" where
  "old_dest dest d0 d \<longleftrightarrow> now d dest = now d0 dest \<and> durable d dest = durable d0 dest"

definition new_dest :: "path \<Rightarrow> string \<Rightarrow> nat \<Rightarrow> fs \<Rightarrow> bool" where
  "new_dest dest c m d \<longleftrightarrow> now d dest = Some \<lparr>f_data = c, f_mode = m, f_synced = True\<rparr>"

lemma crash_old_dest: "old_dest dest d0 d \<Longrightarrow> crash_contents d dest = crash_contents d0 dest"
  by (simp add: old_dest_def crash_contents_def)

lemma crash_new_dest:
  assumes "new_dest dest c m d" and "durable d dest = durable d0 dest \<or> durable d dest = now d dest"
  shows "crash_contents d dest \<subseteq> crash_contents d0 dest \<union> {Some c}"
  using assms by (auto simp: new_dest_def crash_contents_def survivors_def)

text \<open>The states of a failure-free prefix of the write, computed once.\<close>

lemma aw_states:
  assumes "tmp \<noteq> dest" and "d' \<in> set (fst (atomic_write_trace fails tmp dest c m d))"
  shows "old_dest dest d d' \<or>
    (new_dest dest c m d' \<and> (durable d' dest = durable d dest \<or> durable d' dest = now d' dest))"
  using assms
  by (auto simp: atomic_write_trace_def aw_ops_def aw_run_unfold old_dest_def new_dest_def drop_temp_def
      simp del: aw_run.simps(2) split: if_splits)

lemma aw_settled:
  assumes "tmp \<noteq> dest" and "settled d dest"
    and "d' \<in> set (fst (atomic_write_trace fails tmp dest c m d))"
  shows "settled d' dest"
  using aw_states [OF assms(1,3)] assms(2)
  by (auto simp: settled_def old_dest_def new_dest_def split: option.splits)

lemma atomic_write_fst: "fst (atomic_write fails tmp dest c m d) = last (fst (atomic_write_trace fails tmp dest c m d))"
  by (simp add: atomic_write_def split_beta)

lemma atomic_write_in_trace:
  "fst (atomic_write fails tmp dest c m d) \<in> set (fst (atomic_write_trace fails tmp dest c m d))"
  by (simp add: atomic_write_fst atomic_write_trace_def aw_run_last_nonempty)

lemma atomic_write_ok_iff:
  "snd (atomic_write fails tmp dest c m d) = Inr () \<longleftrightarrow> (\<forall>op \<in> set aw_ops. \<not> fails op)"
  by (simp add: atomic_write_def atomic_write_trace_def aw_ops_def aw_run_unfold split_beta del: aw_run.simps(2))

lemma atomic_write_ok_dest:
  assumes "tmp \<noteq> dest" and "snd (atomic_write fails tmp dest c m d) = Inr ()"
  shows "now (fst (atomic_write fails tmp dest c m d)) dest = Some \<lparr>f_data = c, f_mode = m, f_synced = True\<rparr>"
    and "durable (fst (atomic_write fails tmp dest c m d)) dest = Some \<lparr>f_data = c, f_mode = m, f_synced = True\<rparr>"
  using assms
  by (simp_all add: atomic_write_ok_iff atomic_write_fst atomic_write_trace_def aw_ops_def aw_run_unfold
      del: aw_run.simps(2))

section \<open>Properties\<close>

text \<open>
  C13. A power loss at any moment of \<open>atomic_write\<close>, whatever step fails, leaves at the
  destination either what a loss before the call would have left or the complete new
  contents: the file is never torn.
\<close>

theorem atomic_write_crash_safe:
  assumes "tmp \<noteq> dest" and "d' \<in> set (fst (atomic_write_trace fails tmp dest contents mode d))"
  shows "crash_contents d' dest \<subseteq> crash_contents d dest \<union> {Some contents}"
  using aw_states [OF assms] crash_old_dest crash_new_dest by blast

definition example_fs :: fs where
  "example_fs = \<lparr>now = [''s'' \<mapsto> \<lparr>f_data = ''old'', f_mode = 384, f_synced = True\<rparr>],
     durable = [''s'' \<mapsto> \<lparr>f_data = ''old'', f_mode = 384, f_synced = True\<rparr>]\<rparr>"

theorem atomic_write_crash_safe_witness:
  "crash_contents (fst (atomic_write (\<lambda>op. op = ChmodDest) ''t'' ''s'' ''new'' 384 example_fs)) ''s''
     \<subseteq> {Some ''old'', Some ''new''}"
  using atomic_write_crash_safe [of "''t''" "''s''" _ "\<lambda>op. op = ChmodDest" "''new''" 384 example_fs]
    atomic_write_in_trace [of "\<lambda>op. op = ChmodDest" "''t''" "''s''" "''new''" 384 example_fs]
  by (fastforce simp: example_fs_def crash_contents_def survivors_def)

text \<open>
  When \<open>atomic_write\<close> returns \<open>Ok\<close>, the destination holds exactly the contents with the
  requested mode, a power loss can no longer bring back anything else, no temporary file is
  left behind and no other path has changed.
\<close>

theorem atomic_write_ok_durable:
  assumes "tmp \<noteq> dest" and "atomic_write fails tmp dest contents mode d = (d', Inr ())"
  shows "now d' dest = Some \<lparr>f_data = contents, f_mode = mode, f_synced = True\<rparr>
    \<and> crash_contents d' dest = {Some contents}
    \<and> now d' tmp = None \<and> (\<forall>p. p \<noteq> dest \<and> p \<noteq> tmp \<longrightarrow> now d' p = now d p)"
proof -
  from assms have ok: "\<forall>op \<in> set aw_ops. \<not> fails op"
    using atomic_write_ok_iff [of fails tmp dest contents mode d] by simp
  then have "d' = fst (atomic_write fails tmp dest contents mode d)" using assms by simp
  with ok assms(1) show ?thesis
    by (auto simp: atomic_write_fst atomic_write_trace_def aw_ops_def aw_run_unfold
        crash_contents_def survivors_def simp del: aw_run.simps(2))
qed

theorem atomic_write_ok_durable_witness:
  "crash_contents (fst (atomic_write (\<lambda>_. False) ''t'' ''s'' ''new'' 384 example_fs)) ''s'' = {Some ''new''}"
  using atomic_write_ok_durable [of "''t''" "''s''" "\<lambda>_. False" "''new''" 384 example_fs
      "fst (atomic_write (\<lambda>_. False) ''t'' ''s'' ''new'' 384 example_fs)"]
    atomic_write_ok_iff [of "\<lambda>_. False" "''t''" "''s''" "''new''" 384 example_fs]
  by (simp add: prod_eq_iff)

text \<open>
  An error return tells where the destination stands: a failure up to and including the
  rename leaves it exactly as it was, a failure of one of the three steps after the rename
  leaves the new contents in place.
\<close>

theorem atomic_write_error_cases:
  assumes "tmp \<noteq> dest" and "atomic_write fails tmp dest contents mode d = (d', Inl op)"
  shows "if op \<in> {ChmodDest, OpenDir, SyncDir}
     then now d' dest = Some \<lparr>f_data = contents, f_mode = mode, f_synced = True\<rparr>
     else now d' dest = now d dest \<and> durable d' = durable d"
proof -
  have "d' = fst (atomic_write fails tmp dest contents mode d)"
    and "Inl op = snd (atomic_write fails tmp dest contents mode d)" using assms by simp_all
  with assms(1) show ?thesis
    by (auto simp: atomic_write_def atomic_write_trace_def aw_ops_def aw_run_unfold drop_temp_def split_beta
        simp del: aw_run.simps(2) split: if_splits)
qed

theorem atomic_write_error_cases_witness:
  "now (fst (atomic_write (\<lambda>op. op = SyncDir) ''t'' ''s'' ''new'' 384 example_fs)) ''s''
     = Some \<lparr>f_data = ''new'', f_mode = 384, f_synced = True\<rparr>"
  using atomic_write_error_cases [of "''t''" "''s''" "\<lambda>op. op = SyncDir" "''new''" 384 example_fs
      "fst (atomic_write (\<lambda>op. op = SyncDir) ''t'' ''s'' ''new'' 384 example_fs)" SyncDir]
  by (simp add: prod_eq_iff)
     (simp add: atomic_write_def atomic_write_trace_def aw_ops_def aw_run_unfold split_beta del: aw_run.simps(2))

end
