(* ===== verification/Install.thy ===== *)
theory Install
  imports Systemd_Unit Atomic_File
begin

text \<open>
  \<open>gcit install\<close> and \<open>gcit uninstall\<close> (\<open>src/src/cli/install.rs\<close>, \<open>src/src/cli/uninstall.rs\<close>, with the
  bus call of \<open>src/src/systemd/reload.rs\<close>): the wizard with its texts, the files and the manifest it
  writes through \<open>atomic_write\<close>, and the removal the manifest drives. Regular files are those of
  \<^verbatim>\<open>Atomic_File\<close>, at the place the kernel finds them (\<open>ho_real\<close>); directories and links are part of the
  host. What helper programs and system calls answer is the environment.
\<close>

section \<open>The host\<close>

datatype console = Out string | Err string

text \<open>
  \<open>ho_real\<close> resolves the directories of a path, not a link in its last component. \<open>ho_other\<close>: something
  is there that is not a regular file. \<open>ho_canonicalize\<close>: \<open>canonicalize\<close> of what is not a regular file.
\<close>

record host =
  ho_real :: "path \<Rightarrow> path"
  ho_other :: "path \<Rightarrow> bool"
  ho_symlink :: "path \<Rightarrow> bool"
  ho_canonicalize :: "path \<Rightarrow> string + path"
  ho_var :: "string \<Rightarrow> string option"
  ho_sha256 :: "string \<Rightarrow> string"

record host_state =
  hs_fs :: fs
  hs_users :: "string list"
  hs_console :: "console list"

definition say :: "console list \<Rightarrow> host_state \<Rightarrow> host_state" where
  "say ls st = st\<lparr>hs_console := hs_console st @ ls\<rparr>"

text \<open>\<open>Path::exists\<close>, \<open>fs::canonicalize\<close>, \<open>Path::parent\<close>, \<open>Path::starts_with\<close> on canonical paths.\<close>

definition path_exists :: "host \<Rightarrow> fs \<Rightarrow> path \<Rightarrow> bool" where
  "path_exists h d p \<longleftrightarrow> now d (ho_real h p) \<noteq> None \<or> ho_other h p"

definition canonicalize :: "host \<Rightarrow> fs \<Rightarrow> path \<Rightarrow> string + path" where
  "canonicalize h d p =
     (if now d (ho_real h p) \<noteq> None \<and> \<not> ho_symlink h p then Inr (ho_real h p) else ho_canonicalize h p)"

definition path_parent :: "path \<Rightarrow> path option" where
  "path_parent p = (if dropWhile (\<lambda>c. c = CHR ''/'') p = [] then None else Some (parent_or_root p))"

definition path_starts_with :: "path \<Rightarrow> path \<Rightarrow> bool" where
  "path_starts_with p r \<longleftrightarrow> p = r \<or> starts_with p (if r = ''/'' then r else r @ ''/'')"

section \<open>The manifest\<close>

definition MANIFEST_SCHEMA_VERSION :: u32 where [model_defs]: "MANIFEST_SCHEMA_VERSION = 1"
definition STATIC_USER :: string where [model_defs]: "STATIC_USER = ''gcit''"

record manifest_entry =
  me_path :: path
  me_sha256 :: string
  me_mode :: nat

record install_manifest =
  mf_schema_version :: u32
  mf_files :: "manifest_entry list"
  mf_user_required :: "string option"
  mf_user_created_by_install :: bool

section \<open>Install: environment and steps\<close>

text \<open>How \<open>useradd\<close> ended: not started (and whether for want of the program), or its status.\<close>

datatype useradd_result = UseraddNotStarted bool string | UseraddExited bool "int option" string

record install_env =
  ie_loaded :: "config_error list + loaded_config"
  ie_debug :: "string \<Rightarrow> string"
  ie_current_exe :: "string + path"
  ie_process :: process_env
  ie_read_config :: "string \<Rightarrow> string + unit"
  ie_spool_mode :: "path \<Rightarrow> u32 option"
  ie_flush :: "string option"
  ie_read_line :: "string + string"
  ie_getent :: "bool option"
  ie_useradd :: useradd_result
  ie_mkdir :: "path \<Rightarrow> string option"
  ie_write :: "path \<Rightarrow> (aw_op \<Rightarrow> bool) \<times> path"
  ie_io_text :: "aw_op option \<Rightarrow> string"
  ie_ser :: "install_manifest \<Rightarrow> string option"
  ie_bus :: "string option"

definition load_config_or_print :: "install_env \<Rightarrow> console list \<times> (nat + loaded_config)" where
  "load_config_or_print env =
     (case ie_loaded env of
        Inr c \<Rightarrow> ([], Inr c)
      | Inl errors \<Rightarrow> (map (\<lambda>e. Err (config_error_display (ie_debug env) e)) errors, Inl EXIT_CONFIG))"

definition reject_user_plus_local_mail :: "install_scope \<Rightarrow> bool \<Rightarrow> console list \<times> (nat + unit)" where
  "reject_user_plus_local_mail scope local_mail =
     (if scope = UserScope \<and> local_mail then
        ([Err (''gcit install --user: configuration uses '' @ backquoted ''local_mail'' @ '' destination(s) but '' @
          ''/var/mail/<user> requires the static '' @ backquoted ''mail'' @ '' group, which the per-user systemd '' @
          ''manager cannot grant. Re-run with --system, or remove the local_mail destinations from the config.'')],
         Inl EXIT_USAGE)
      else ([], Inr ()))"

definition resolve_install_binary_path :: "install_env \<Rightarrow> console list \<times> (nat + path)" where
  "resolve_install_binary_path env =
     (case ie_current_exe env of
        Inr p \<Rightarrow> ([], Inr p)
      | Inl e \<Rightarrow> ([Err (''gcit install: cannot resolve current_exe() for ExecStart= path: '' @ e)], Inl EXIT_OSERR))"

definition home_dir :: "host \<Rightarrow> string option" where
  "home_dir h = (case ho_var h ''HOME'' of Some p \<Rightarrow> if p = [] then None else Some p | None \<Rightarrow> None)"

definition resolve_install_paths_or_print :: "host \<Rightarrow> install_scope \<Rightarrow> console list \<times> (nat + install_paths)" where
  "resolve_install_paths_or_print h scope =
     (case home_dir h of
        Some home \<Rightarrow> ([], Inr (install_paths_of (ho_var h) scope home))
      | None \<Rightarrow> ([Err ''gcit install: cannot resolve $HOME''], Inl EXIT_USAGE))"

text \<open>\<open>print!\<close> of the unit, which ends its last line itself.\<close>

definition do_dry_run :: "loaded_config \<Rightarrow> install_scope \<Rightarrow> path \<Rightarrow> console list" where
  "do_dry_run cfg scope binary_path = [Out (render_service_unit (cf_flow cfg) scope binary_path)]"

record output_file =
  of_path :: path
  of_contents :: string
  of_mode :: nat
  of_label :: string

definition build_outputs ::
  "host \<Rightarrow> install_env \<Rightarrow> loaded_config \<Rightarrow> install_scope \<Rightarrow> install_paths \<Rightarrow> path \<Rightarrow> fs \<Rightarrow> string + output_file list"
where
  "build_outputs h env cfg scope paths binary_path d =
     (case (ie_read_config env (lc_source_path cfg), now d (ho_real h (lc_source_path cfg))) of
        (Inr _, Some f) \<Rightarrow> Inr
          [\<lparr>of_path = ip_service_unit paths, of_contents = render_service_unit (cf_flow cfg) scope binary_path,
            of_mode = 0x1A4, of_label = ''gcit.service''\<rparr>,
           \<lparr>of_path = ip_socket_unit paths, of_contents = render_socket_unit, of_mode = 0x1A4, of_label = ''gcit.socket''\<rparr>,
           \<lparr>of_path = ip_config paths, of_contents = f_data f, of_mode = 0x1A0, of_label = ''config.toml''\<rparr>]
      | (Inl e, _) \<Rightarrow> Inl (''could not re-read config file '' @ lc_source_path cfg @ '' for install: '' @ e)
      | (_, None) \<Rightarrow> Inl (''could not re-read config file '' @ lc_source_path cfg @
          '' for install: No such file or directory (os error 2)''))"

text \<open>Every path that exists is listed, then the run ends.\<close>

definition refuse_silent_overwrite :: "host \<Rightarrow> output_file list \<Rightarrow> fs \<Rightarrow> console list \<times> (nat + unit)" where
  "refuse_silent_overwrite h outputs d =
     (let existing = filter (path_exists h d) (map of_path outputs)
      in if existing = [] then ([], Inr ())
         else ([Err [], Err ''gcit install: refusing silent overwrite. The following file(s) already exist:''] @
           map (\<lambda>p. Err (''  '' @ p)) existing @
           [Err (''Re-run with '' @ backquoted ''--force'' @ '' to overwrite, or '' @ backquoted ''gcit uninstall'' @ '' first.'')],
           Inl EXIT_CONFIG))"

text \<open>
  \<open>str::trim\<close>: the white space of Unicode, as the bytes of each character.
\<close>

definition WHITE_SPACE :: "string list" where
  "WHITE_SPACE = map (\<lambda>n. [char_of n]) [9, 10, 11, 12, 13, 32 :: nat] @ [[CHR 0xC2, CHR 0x85], [CHR 0xC2, CHR 0xA0], [CHR 0xE1, CHR 0x9A, CHR 0x80]] @
     map (\<lambda>n. [CHR 0xE2, CHR 0x80, char_of n]) ([128..<139] @ [168, 169, 175 :: nat]) @
     [[CHR 0xE2, CHR 0x81, CHR 0x9F], [CHR 0xE3, CHR 0x80, CHR 0x80]]"

function strip_any :: "string list \<Rightarrow> string \<Rightarrow> string" where
  "strip_any ws s =
     (case find (\<lambda>w. w \<noteq> [] \<and> starts_with s w) ws of
        Some w \<Rightarrow> strip_any ws (drop (length w) s)
      | None \<Rightarrow> s)"
  by pat_completeness auto
termination
  by (relation "measure (\<lambda>(ws, s). length s)") (auto dest!: find_SomeD simp: starts_with_iff)

declare strip_any.simps [simp del]

definition trim_answer :: "string \<Rightarrow> string" where
  "trim_answer s = rev (strip_any (map rev WHITE_SPACE) (rev (strip_any WHITE_SPACE s)))"

definition confirm_with_operator :: "install_env \<Rightarrow> console list \<times> (nat + unit)" where
  "confirm_with_operator env =
     (case ie_flush env of
        Some e \<Rightarrow> ([Out [], Out ''Proceed? [y/N] '', Err (''gcit install: stdout flush failed during prompt: '' @ e)], Inl EXIT_OSERR)
      | None \<Rightarrow>
         (case ie_read_line env of
            Inl e \<Rightarrow> ([Out [], Out ''Proceed? [y/N] '', Err (''gcit install: stdin read failed during prompt: '' @ e)], Inl EXIT_OSERR)
          | Inr answer \<Rightarrow>
              if trim_answer answer \<notin> set [''y'', ''Y'', ''yes'', ''YES'', ''Yes'']
              then ([Out [], Out ''Proceed? [y/N] '', Out ''install cancelled; nothing written.''], Inl EXIT_OK)
              else ([Out [], Out ''Proceed? [y/N] ''], Inr ())))"

section \<open>Install: the static user\<close>

text \<open>Without \<open>getent\<close> the group is taken to exist.\<close>

definition mail_group_exists :: "install_env \<Rightarrow> bool" where
  "mail_group_exists env = (case ie_getent env of Some success \<Rightarrow> success | None \<Rightarrow> True)"

definition classify_useradd_exit :: "bool \<Rightarrow> int option \<Rightarrow> string \<Rightarrow> string + bool" where
  "classify_useradd_exit success exit_code stderr =
     (if success then Inr True
      else if exit_code = Some 9 then Inr False
      else Inl (''useradd exited with status '' @
        (case exit_code of None \<Rightarrow> ''None''
         | Some c \<Rightarrow> ''Some('' @ (if c < 0 then ''-'' else []) @ show_nat (nat (abs c)) @ '')'') @ '': '' @ trim_answer stderr))"

text \<open>A \<open>useradd\<close> that succeeds has added the user to the host.\<close>

definition ensure_static_user :: "install_env \<Rightarrow> string \<Rightarrow> host_state \<Rightarrow> (string + bool) \<times> host_state" where
  "ensure_static_user env name st =
     (if \<not> mail_group_exists env then
        (Inl (''the '' @ backquoted ''mail'' @ '' group must exist for local_mail destinations; create it via '' @
           backquoted ''groupadd --system mail'' @ '' or remove local_mail destinations from config''), st)
      else
       (let st = say [Out [], Out (''Creating system user '' @ backquoted name @
               '' (useradd --system --no-create-home --shell /usr/sbin/nologin -G mail '' @ name @ '')'')] st
        in case ie_useradd env of
             UseraddNotStarted not_found e \<Rightarrow>
               (Inl (if not_found then ''useradd binary not found in PATH ('' @ e @ ''); install shadow-utils '' @
                  ''(RHEL/Fedora) or passwd (Debian/Ubuntu) and re-run, or remove local_mail destinations from config''
                else e), st)
           | UseraddExited success exit_code stderr \<Rightarrow>
               (let st = (if success then st\<lparr>hs_users := name # hs_users st\<rparr> else st)
                in case classify_useradd_exit success exit_code stderr of
                     Inl e \<Rightarrow> (Inl e, st)
                   | Inr created \<Rightarrow> (Inr created,
                       say [Out (if created then ''  created.'' else ''  already exists; not modified.'')] st))))"

definition ensure_static_user_if_local_mail :: "install_env \<Rightarrow> bool \<Rightarrow> install_scope \<Rightarrow> host_state \<Rightarrow> (nat + bool) \<times> host_state" where
  "ensure_static_user_if_local_mail env local_mail scope st =
     (if \<not> (local_mail \<and> scope = SystemScope) then (Inr False, st)
      else case ensure_static_user env STATIC_USER st of
        (Inr created, st) \<Rightarrow> (Inr created, st)
      | (Inl e, st) \<Rightarrow> (Inl EXIT_OSERR, say [Err (''gcit install: useradd failed: '' @ e)] st))"

section \<open>Install: writing\<close>

definition ensure_parent :: "install_env \<Rightarrow> path \<Rightarrow> string + unit" where
  "ensure_parent env p =
     (case path_parent p of
        None \<Rightarrow> Inr ()
      | Some parent \<Rightarrow> if parent = [] then Inr () else (case ie_mkdir env parent of Some e \<Rightarrow> Inl e | None \<Rightarrow> Inr ()))"

text \<open>The temporary file is created beside the destination; \<open>ie_write\<close> says where, and which steps fail.\<close>

definition write_output :: "host \<Rightarrow> install_env \<Rightarrow> output_file \<Rightarrow> fs \<Rightarrow> (string + manifest_entry) \<times> fs" where
  "write_output h env out d =
     (case ensure_parent env (of_path out) of
        Inl e \<Rightarrow> (Inl e, d)
      | Inr _ \<Rightarrow>
         (case atomic_write (fst (ie_write env (of_path out))) (snd (ie_write env (of_path out)))
                 (ho_real h (of_path out)) (of_contents out) (of_mode out) d of
            (d, Inl op) \<Rightarrow> (Inl (ie_io_text env (Some op)), d)
          | (d, Inr _) \<Rightarrow>
              (Inr \<lparr>me_path = of_path out, me_sha256 = ho_sha256 h (of_contents out), me_mode = of_mode out\<rparr>, d)))"

fun write_files :: "host \<Rightarrow> install_env \<Rightarrow> output_file list \<Rightarrow> fs \<Rightarrow> (string + manifest_entry list) \<times> fs" where
  "write_files h env [] d = (Inr [], d)"
| "write_files h env (out # outs) d =
     (case write_output h env out d of
        (Inl e, d) \<Rightarrow> (Inl e, d)
      | (Inr entry, d) \<Rightarrow>
         (case write_files h env outs d of
            (Inl e, d) \<Rightarrow> (Inl e, d)
          | (Inr entries, d) \<Rightarrow> (Inr (entry # entries), d)))"

definition write_outputs ::
  "host \<Rightarrow> install_env \<Rightarrow> output_file list \<Rightarrow> path \<Rightarrow> bool \<Rightarrow> bool \<Rightarrow> fs \<Rightarrow> (string + install_manifest) \<times> fs"
where
  "write_outputs h env outputs manifest_path local_mail created d =
     (case write_files h env outputs d of
        (Inl e, d) \<Rightarrow> (Inl e, d)
      | (Inr entries, d) \<Rightarrow>
         (let m = \<lparr>mf_schema_version = MANIFEST_SCHEMA_VERSION, mf_files = entries,
                mf_user_required = (if local_mail then Some STATIC_USER else None), mf_user_created_by_install = created\<rparr>
          in case ensure_parent env manifest_path of
               Inl e \<Rightarrow> (Inl e, d)
             | Inr _ \<Rightarrow>
                (case atomic_write_json (ie_ser env) (fst (ie_write env manifest_path)) (snd (ie_write env manifest_path))
                        (ho_real h manifest_path) m 0x180 d of
                   (d, Inl op) \<Rightarrow> (Inl (ie_io_text env op), d)
                 | (d, Inr _) \<Rightarrow> (Inr m, d))))"

section \<open>Install: the texts of the wizard\<close>

text \<open>The bytes of the check mark.\<close>

definition check_mark :: string where
  "check_mark = [CHR 0xE2, CHR 0x9C, CHR 0x93]"

record credential_use =
  cu_id :: string
  cu_kind :: credential_kind
  cu_consumers :: "string list"

text \<open>A credential that is also used for more than fetching is described by that use.\<close>

definition add_use :: "(string \<times> credential_use) list \<Rightarrow> credential_ref \<Rightarrow> (string \<times> credential_use) list" where
  "add_use m r =
     (case map_of m (cr_id r) of
        Some u \<Rightarrow> AList.update (cr_id r)
          (u\<lparr>cu_consumers := cu_consumers u @ [cr_flow r],
             cu_kind := (if cu_kind u = SourceFetch \<and> cr_kind r \<noteq> SourceFetch then cr_kind r else cu_kind u)\<rparr>) m
      | None \<Rightarrow> AList.update (cr_id r) \<lparr>cu_id = cr_id r, cu_kind = cr_kind r, cu_consumers = [cr_flow r]\<rparr> m)"

definition collect_credential_uses :: "'j flow_config list \<Rightarrow> credential_use list" where
  "collect_credential_uses cfgs =
     map (\<lambda>(_, u). u\<lparr>cu_consumers := rev (remdups (rev (cu_consumers u)))\<rparr>)
       (sorted_entries (foldl add_use [] (walk_credentials cfgs)))"

definition is_credential_already_configured :: "process_env \<Rightarrow> path \<Rightarrow> bool" where
  "is_credential_already_configured env p \<longleftrightarrow> probe (pe_euid env) (pe_stat env p) = ProbeOk"

text \<open>\<open>metadata\<close> follows links; it is only asked for a path that was found to be a regular file.\<close>

definition credential_root_owned_in_user_scope :: "process_env \<Rightarrow> path \<Rightarrow> install_scope \<Rightarrow> bool" where
  "credential_root_owned_in_user_scope env p scope =
     (if scope \<noteq> UserScope then False
      else case pe_stat env p of
        Inl _ \<Rightarrow> False
      | Inr meta \<Rightarrow> if md_uid meta \<noteq> 0 then False else pe_euid env \<noteq> 0)"

fun kind_lines :: "credential_kind \<Rightarrow> string list" where
  "kind_lines (GithubPat repo) =
     [''  kind: GitHub PAT (fine-grained)'', ''  obtain at: https://github.com/settings/tokens?type=beta'',
      ''  target: '' @ repo @ '' (Actions: read+write)'']"
| "kind_lines DiscordWebhookKind =
     [''  kind: Discord webhook URL'',
      ''  obtain at: Discord -> Server Settings -> Integrations -> Webhooks -> New Webhook -> Copy URL'']"
| "kind_lines SourceFetch = [''  kind: source-side fetch credential'']"

definition use_lines :: "process_env \<Rightarrow> install_paths \<Rightarrow> install_scope \<Rightarrow> credential_use \<Rightarrow> string list" where
  "use_lines env paths scope u =
     (let dest = path_join (ip_credentials_dir paths) (cu_id u)
      in if is_credential_already_configured env dest then
           [''- '' @ check_mark @ '' '' @ cu_id u @ '': configured at '' @ dest @
              (if credential_root_owned_in_user_scope env dest scope
               then '' (owned by root '' @ em_dash @ '' rotate via sudo)'' else []), []]
         else
           [''- credential_id: '' @ cu_id u, ''  used by: '' @ join '', '' (cu_consumers u)] @ kind_lines (cu_kind u) @
           [''  destination: '' @ dest, ''  chmod 0600 '' @ dest, []])"

definition print_credential_walkthrough :: "process_env \<Rightarrow> 'j flow_config list \<Rightarrow> install_paths \<Rightarrow> install_scope \<Rightarrow> console list" where
  "print_credential_walkthrough env cfgs paths scope =
     (let by_id = collect_credential_uses cfgs
      in map Out (if by_id = [] then [''# Credentials'', ''(no credential_id referenced; nothing to configure.)'']
         else [''# Credentials'',
           ''Each '' @ backquoted ''credential_id'' @ '' listed below needs a credential file at the printed path.'',
           ''Copy the secret value into that file (do NOT pass it on the command line),'',
           ''then run '' @ backquoted ''chmod 0600 <path>'' @ '' so gcit can read it (group/other access is refused).'', []] @
           concat (map (use_lines env paths scope) by_id)))"

definition mail_users :: "'j flow_config list \<Rightarrow> string list" where
  "mail_users cfgs = sort (remdups (concat (map (\<lambda>f. concat (map
     (\<lambda>dest. case dest of LocalMail user _ _ \<Rightarrow> [user] | DiscordWebhook _ _ _ \<Rightarrow> []) (fc_destination f))) cfgs)))"

definition spool_lines :: "(path \<Rightarrow> u32 option) \<Rightarrow> string \<Rightarrow> string list" where
  "spool_lines spool_mode user =
     (let spool = ''/var/mail/'' @ user
      in case spool_mode spool of
           Some m \<Rightarrow>
            (let mode = and m 0x1FF
             in if and mode 0x30 \<noteq> 0 then
                  [''  '' @ spool @ '': present (mode '' @ show_octal (unat mode) @ ''); the daemon writes via the '' @
                     backquoted ''mail'' @ '' group.'']
                else
                  [''  warning: '' @ spool @ '' mode '' @ show_octal (unat mode) @
                     '' is not group-writable; the daemon (group=mail) may fail to append.'',
                   ''    fix: chmod g+w '' @ spool @ '' && chgrp mail '' @ spool])
         | None \<Rightarrow>
            [''  warning: '' @ spool @ '' is missing; create it before starting the service:'', ''    sudo touch '' @ spool,
             ''    sudo chgrp mail '' @ spool @ '' && sudo chmod 0660 '' @ spool])"

definition print_local_mail_check :: "(path \<Rightarrow> u32 option) \<Rightarrow> 'j flow_config list \<Rightarrow> console list" where
  "print_local_mail_check spool_mode cfgs =
     map Out ([''# Local mail check''] @ concat (map (spool_lines spool_mode) (mail_users cfgs)) @ [[]])"

definition exists_tag :: "host \<Rightarrow> fs \<Rightarrow> path \<Rightarrow> string" where
  "exists_tag h d p = (if path_exists h d p then ''[exists]'' else ''[new]'')"

definition print_path_preview :: "host \<Rightarrow> install_paths \<Rightarrow> output_file list \<Rightarrow> bool \<Rightarrow> fs \<Rightarrow> console list" where
  "print_path_preview h paths outputs local_mail d = map Out
     ([''# Files gcit will write''] @
      map (\<lambda>out. ''  '' @ exists_tag h d (of_path out) @ '' '' @ of_path out @ '' ('' @ of_label out @ '')'') outputs @
      [[], ''# Manifest'', ''  '' @ exists_tag h d (ip_manifest paths) @ '' '' @ ip_manifest paths, [],
       ''# Directories systemd will auto-create on first start'', ''  RuntimeDirectory:       (resolves to %t/gcit)'',
       ''  StateDirectory:         (resolves to %S/gcit)'', ''  ConfigurationDirectory: (resolves to %E/gcit)'', [],
       ''# Service user model''] @
      (if local_mail then
        [''  User=gcit, Group=mail, SupplementaryGroups=mail (config uses local_mail; needs /var/mail group access)'', [],
         ''# System users gcit will create'',
         ''  useradd --system --no-create-home --shell /usr/sbin/nologin -G mail '' @ STATIC_USER,
         ''    (skipped if account already exists; uninstall does NOT remove it unless'',
         ''     this install created it '' @ em_dash @ '' see install-manifest'' @ [CHR 0x27] @ ''s user_created_by_install field)'']
       else [''  DynamicUser=yes (no local_mail destinations in config)'']))"

definition print_post_install :: "install_scope \<Rightarrow> console list" where
  "print_post_install scope = map Out ([[], ''# Next steps''] @
     (case scope of
        SystemScope \<Rightarrow> [''  sudo systemctl daemon-reload && sudo systemctl enable --now gcit.socket gcit.service'', ''  journalctl -u gcit -f'']
      | UserScope \<Rightarrow> [''  systemctl --user daemon-reload && systemctl --user enable --now gcit.socket gcit.service'',
          ''  journalctl --user -u gcit -f'']))"

section \<open>The bus call\<close>

datatype reload_outcome = Reloaded | SkippedSystemRequiresRoot

text \<open>\<open>bus\<close> is the error of the session bus, if any.\<close>

definition trigger_daemon_reload :: "string option \<Rightarrow> install_scope \<Rightarrow> string + reload_outcome" where
  "trigger_daemon_reload bus scope =
     (case scope of
        UserScope \<Rightarrow> (case bus of Some e \<Rightarrow> Inl e | None \<Rightarrow> Inr Reloaded)
      | SystemScope \<Rightarrow> Inr SkippedSystemRequiresRoot)"

definition log_daemon_reload_outcome :: "string option \<Rightarrow> install_scope \<Rightarrow> console list" where
  "log_daemon_reload_outcome bus scope =
     (case trigger_daemon_reload bus scope of
        Inr Reloaded \<Rightarrow> [Out ''systemd daemon-reload completed via session bus.'']
      | Inr SkippedSystemRequiresRoot \<Rightarrow> []
      | Inl e \<Rightarrow> [Err (''warning: daemon-reload failed: '' @ e @ '' (run the systemctl command from the next-steps banner manually)'')])"

section \<open>Install: the run\<close>

text \<open>
  \<open>run\<close>, in three parts: up to the resolved binary, the preview with its two ways out, and the
  changes to the host.
\<close>

definition apply_install ::
  "host \<Rightarrow> install_env \<Rightarrow> install_scope \<Rightarrow> install_paths \<Rightarrow> bool \<Rightarrow> output_file list \<Rightarrow> host_state \<Rightarrow> nat \<times> host_state"
where
  "apply_install h env scope paths local_mail outputs st =
     (case ensure_static_user_if_local_mail env local_mail scope st of
        (Inl code, st) \<Rightarrow> (code, st)
      | (Inr created, st) \<Rightarrow>
         (case write_outputs h env outputs (ip_manifest paths) local_mail created (hs_fs st) of
            (Inl e, d) \<Rightarrow> (EXIT_CONFIG, say [Err (''gcit install: write failed: '' @ e)] (st\<lparr>hs_fs := d\<rparr>))
          | (Inr m, d) \<Rightarrow>
              (EXIT_OK, say ([Out [], Out (''Wrote '' @ show_nat (length (mf_files m)) @ '' file(s); manifest at '' @ ip_manifest paths @ ''.'')] @
                 log_daemon_reload_outcome (ie_bus env) scope @ print_post_install scope) (st\<lparr>hs_fs := d\<rparr>))))"

definition confirm_install ::
  "host \<Rightarrow> install_env \<Rightarrow> bool \<Rightarrow> bool \<Rightarrow> output_file list \<Rightarrow> host_state \<Rightarrow> (nat + unit) \<times> host_state"
where
  "confirm_install h env interactive force outputs st =
     (case (if force then ([], Inr ()) else refuse_silent_overwrite h outputs (hs_fs st)) of
        (ls, Inl code) \<Rightarrow> (Inl code, say ls st)
      | (ls, Inr _) \<Rightarrow>
         (case (if interactive then confirm_with_operator env else ([], Inr ())) of
            (ls', Inl code) \<Rightarrow> (Inl code, say (ls @ ls') st)
          | (ls', Inr _) \<Rightarrow> (Inr (), say (ls @ ls') st)))"

definition install_files ::
  "host \<Rightarrow> install_env \<Rightarrow> loaded_config \<Rightarrow> install_scope \<Rightarrow> path \<Rightarrow> bool \<Rightarrow> bool \<Rightarrow> host_state \<Rightarrow> nat \<times> host_state"
where
  "install_files h env cfg scope binary_path interactive force st =
     (case resolve_install_paths_or_print h scope of
        (ls, Inl code) \<Rightarrow> (code, say ls st)
      | (_, Inr paths) \<Rightarrow>
         (let local_mail = has_local_mail (cf_flow cfg);
              st = say (print_credential_walkthrough (ie_process env) (cf_flow cfg) paths scope @
                     (if local_mail then print_local_mail_check (ie_spool_mode env) (cf_flow cfg) else [])) st
          in case build_outputs h env cfg scope paths binary_path (hs_fs st) of
               Inl e \<Rightarrow> (EXIT_CONFIG, say [Err (''gcit install: cannot prepare install outputs: '' @ e)] st)
             | Inr outputs \<Rightarrow>
                (case confirm_install h env interactive force outputs
                        (say (print_path_preview h paths outputs local_mail (hs_fs st)) st) of
                   (Inl code, st) \<Rightarrow> (code, st)
                 | (Inr _, st) \<Rightarrow> apply_install h env scope paths local_mail outputs st)))"

definition install_run ::
  "host \<Rightarrow> install_env \<Rightarrow> install_scope \<Rightarrow> bool \<Rightarrow> bool \<Rightarrow> bool \<Rightarrow> host_state \<Rightarrow> nat \<times> host_state"
where
  "install_run h env scope interactive force dry_run st =
     (case load_config_or_print env of
        (ls, Inl code) \<Rightarrow> (code, say ls st)
      | (_, Inr cfg) \<Rightarrow>
         (case reject_user_plus_local_mail scope (has_local_mail (cf_flow cfg)) of
            (ls, Inl code) \<Rightarrow> (code, say ls st)
          | _ \<Rightarrow>
             (case resolve_install_binary_path env of
                (ls, Inl code) \<Rightarrow> (code, say ls st)
              | (_, Inr binary_path) \<Rightarrow>
                  if dry_run then (EXIT_OK, say (do_dry_run cfg scope binary_path) st)
                  else install_files h env cfg scope binary_path interactive force st)))"

section \<open>Uninstall\<close>

record uninstall_env =
  ue_read_manifest :: "string + unit"
  ue_parse :: "string \<Rightarrow> string + install_manifest"
  ue_hash :: "path \<Rightarrow> string option"
  ue_remove :: "path \<Rightarrow> string option"
  ue_debug :: "string list \<Rightarrow> string"
  ue_bus :: "string option"

definition read_manifest :: "host \<Rightarrow> uninstall_env \<Rightarrow> fs \<Rightarrow> path \<Rightarrow> string + install_manifest" where
  "read_manifest h env d p =
     (case (ue_read_manifest env, now d (ho_real h p)) of
        (Inl e, _) \<Rightarrow> Inl e
      | (_, None) \<Rightarrow> Inl ''No such file or directory (os error 2)''
      | (_, Some f) \<Rightarrow> (case ue_parse env (f_data f) of Inl e \<Rightarrow> Inl (''parse manifest: '' @ e) | Inr m \<Rightarrow> Inr m))"

text \<open>The read loop of \<open>file_sha256\<close>: the state of the hasher is what it has been given so far.\<close>

function hash_chunks :: "(string \<Rightarrow> string) \<Rightarrow> string \<Rightarrow> string \<Rightarrow> string" where
  "hash_chunks sha absorbed rest =
     (if rest = [] then sha absorbed else hash_chunks sha (absorbed @ take 8192 rest) (drop 8192 rest))"
  by pat_completeness auto
termination
  by (relation "measure (\<lambda>(sha, absorbed, rest). length rest)") auto

declare hash_chunks.simps [simp del]

definition file_sha256 :: "host \<Rightarrow> uninstall_env \<Rightarrow> fs \<Rightarrow> path \<Rightarrow> string + string" where
  "file_sha256 h env d p =
     (case (ue_hash env p, now d (ho_real h p)) of
        (Some e, _) \<Rightarrow> Inl e
      | (None, Some f) \<Rightarrow> Inr (hash_chunks (ho_sha256 h) [] (f_data f))
      | (None, None) \<Rightarrow> Inl ''Is a directory (os error 21)'')"

definition expected_roots :: "install_paths \<Rightarrow> path list" where
  "expected_roots paths =
     concat (map (\<lambda>p. case path_parent p of Some parent \<Rightarrow> [parent] | None \<Rightarrow> [])
       [ip_service_unit paths, ip_socket_unit paths, ip_config paths])"

definition under_root :: "host \<Rightarrow> fs \<Rightarrow> path \<Rightarrow> path \<Rightarrow> bool" where
  "under_root h d canon_path r \<longleftrightarrow>
     (case canonicalize h d r of Inr canon_root \<Rightarrow> path_starts_with canon_path canon_root | Inl _ \<Rightarrow> False)"

definition validate_manifest_path :: "host \<Rightarrow> uninstall_env \<Rightarrow> fs \<Rightarrow> path list \<Rightarrow> path \<Rightarrow> string + unit" where
  "validate_manifest_path h env d allow_roots p =
     (if ho_symlink h p then Inl ''symlink (manifest sha was over installed file content, not link target)''
      else case canonicalize h d p of
        Inr canon_path \<Rightarrow>
          if list_ex (under_root h d canon_path) allow_roots then Inr ()
          else Inl (''path is outside the install directories ('' @ ue_debug env allow_roots @ '')'')
      | Inl e \<Rightarrow> if \<not> path_exists h d p then Inr () else Inl (''canonicalize failed: '' @ e))"

fun validate_entries :: "host \<Rightarrow> uninstall_env \<Rightarrow> fs \<Rightarrow> path list \<Rightarrow> manifest_entry list \<Rightarrow> (path \<times> string) option" where
  "validate_entries h env d roots [] = None"
| "validate_entries h env d roots (entry # entries) =
     (case validate_manifest_path h env d roots (me_path entry) of
        Inl e \<Rightarrow> Some (me_path entry, e)
      | Inr _ \<Rightarrow> validate_entries h env d roots entries)"

text \<open>The modified files (path, recorded and actual hash), or the file that cannot be read.\<close>

fun find_modified :: "host \<Rightarrow> uninstall_env \<Rightarrow> fs \<Rightarrow> manifest_entry list \<Rightarrow> (path \<times> string) + (path \<times> string \<times> string) list" where
  "find_modified h env d [] = Inr []"
| "find_modified h env d (entry # entries) =
     (if \<not> path_exists h d (me_path entry) then find_modified h env d entries
      else case file_sha256 h env d (me_path entry) of
        Inl e \<Rightarrow> Inl (me_path entry, e)
      | Inr sha \<Rightarrow>
         (case find_modified h env d entries of
            Inl e \<Rightarrow> Inl e
          | Inr ms \<Rightarrow> Inr (if sha = me_sha256 entry then ms else (me_path entry, me_sha256 entry, sha) # ms)))"

text \<open>\<open>fs::remove_file\<close> fails on what is no file.\<close>

definition remove_file :: "host \<Rightarrow> uninstall_env \<Rightarrow> path \<Rightarrow> fs \<Rightarrow> (string + unit) \<times> fs" where
  "remove_file h env p d =
     (case (ue_remove env p, now d (ho_real h p)) of
        (Some e, _) \<Rightarrow> (Inl e, d)
      | (None, Some _) \<Rightarrow> (Inr (), d\<lparr>now := (now d)(ho_real h p := None)\<rparr>)
      | (None, None) \<Rightarrow> (Inl ''Is a directory (os error 21)'', d))"

fun remove_entries :: "host \<Rightarrow> uninstall_env \<Rightarrow> manifest_entry list \<Rightarrow> host_state \<Rightarrow> (path \<times> string) list \<times> host_state" where
  "remove_entries h env [] st = ([], st)"
| "remove_entries h env (entry # entries) st =
     (if \<not> path_exists h (hs_fs st) (me_path entry) then remove_entries h env entries st
      else case remove_file h env (me_path entry) (hs_fs st) of
        (Inl e, d) \<Rightarrow>
          (case remove_entries h env entries (st\<lparr>hs_fs := d\<rparr>) of (errors, st) \<Rightarrow> ((me_path entry, e) # errors, st))
      | (Inr _, d) \<Rightarrow> remove_entries h env entries (say [Out (''removed '' @ me_path entry)] (st\<lparr>hs_fs := d\<rparr>)))"

definition print_post_uninstall :: "install_scope \<Rightarrow> string option \<Rightarrow> bool \<Rightarrow> path \<Rightarrow> console list" where
  "print_post_uninstall scope user_required created manifest_path = map Out
     ([[], ''# Next steps'', (case scope of SystemScope \<Rightarrow> ''  sudo systemctl daemon-reload'' | UserScope \<Rightarrow> ''  systemctl --user daemon-reload'')] @
      (case user_required of
         None \<Rightarrow> []
       | Some user \<Rightarrow>
          if created then
            [[], ''# Static user '' @ squoted user @ '' was created by '' @ backquoted ''gcit install'' @ '' for the previous config (local_mail).'',
             ''  Provided no other unit still references User='' @ user @ '', you can remove it manually:'', ''    sudo userdel '' @ user]
          else
            [[], ''# Static user '' @ squoted user @ '' was required by the previous config (local_mail) but pre-existed at install time;'',
             ''  '' @ backquoted ''gcit install'' @ '' did not create it, so '' @ backquoted ''gcit uninstall'' @ '' does not propose removing it.'']) @
      [[], ''State directory preserved so a future re-install picks up where this run left off. Manifest already removed: '' @ manifest_path @ ''.''])"

definition remove_managed :: "host \<Rightarrow> uninstall_env \<Rightarrow> install_scope \<Rightarrow> path \<Rightarrow> install_manifest \<Rightarrow> host_state \<Rightarrow> nat \<times> host_state" where
  "remove_managed h env scope manifest_path m st =
     (case remove_entries h env (mf_files m) st of
        (errors, st) \<Rightarrow>
          if errors \<noteq> [] then
            (EXIT_OSERR, say ([Err ''gcit uninstall: errors during removal:''] @ map (\<lambda>(p, msg). Err (''  '' @ p @ '': '' @ msg)) errors) st)
          else
           (let closing = log_daemon_reload_outcome (ue_bus env) scope @
                  print_post_uninstall scope (mf_user_required m) (mf_user_created_by_install m) manifest_path
            in if path_exists h (hs_fs st) manifest_path then
                 (case remove_file h env manifest_path (hs_fs st) of
                    (Inl e, d) \<Rightarrow> (EXIT_OSERR, say [Err (''gcit uninstall: removed all managed files but failed to remove manifest '' @
                       manifest_path @ '': '' @ e)] (st\<lparr>hs_fs := d\<rparr>))
                  | (Inr _, d) \<Rightarrow> (EXIT_OK, say ([Out (''removed manifest '' @ manifest_path)] @ closing) (st\<lparr>hs_fs := d\<rparr>)))
               else (EXIT_OK, say closing st)))"

definition uninstall_manifest :: "host \<Rightarrow> uninstall_env \<Rightarrow> install_scope \<Rightarrow> install_paths \<Rightarrow> bool \<Rightarrow> install_manifest \<Rightarrow> host_state \<Rightarrow> nat \<times> host_state" where
  "uninstall_manifest h env scope paths force m st =
     (if mf_schema_version m \<noteq> MANIFEST_SCHEMA_VERSION then
        (EXIT_OSERR, say [Err (''gcit uninstall: manifest schema_version '' @ show_nat (unat (mf_schema_version m)) @ '' != supported '' @
           show_nat (unat MANIFEST_SCHEMA_VERSION) @ ''; refusing to act on a manifest from a different gcit version'')] st)
      else case validate_entries h env (hs_fs st) (expected_roots paths) (mf_files m) of
        Some (p, e) \<Rightarrow> (EXIT_OSERR, say [Err (''gcit uninstall: manifest entry rejected: '' @ p @ '': '' @ e)] st)
      | None \<Rightarrow>
         (case find_modified h env (hs_fs st) (mf_files m) of
            Inl (p, e) \<Rightarrow> (EXIT_OSERR, say [Err (''gcit uninstall: cannot hash '' @ p @ '': '' @ e)] st)
          | Inr modified \<Rightarrow>
              if modified \<noteq> [] \<and> \<not> force then
                (EXIT_OSERR, say ([Err ''gcit uninstall: refusing to remove operator-modified files (re-run with --force to override):''] @
                   map (\<lambda>(p, recorded, found). Err (''  '' @ p @ '' (manifest sha256='' @ recorded @ '', on-disk sha256='' @ found @ '')'')) modified) st)
              else remove_managed h env scope (ip_manifest paths) m st))"

definition uninstall_run :: "host \<Rightarrow> uninstall_env \<Rightarrow> install_scope \<Rightarrow> bool \<Rightarrow> host_state \<Rightarrow> nat \<times> host_state" where
  "uninstall_run h env scope force st =
     (case home_dir h of
        None \<Rightarrow> (EXIT_OSERR, say [Err ''gcit uninstall: cannot resolve $HOME''] st)
      | Some home \<Rightarrow>
         (let paths = install_paths_of (ho_var h) scope home
          in case read_manifest h env (hs_fs st) (ip_manifest paths) of
               Inl e \<Rightarrow> (EXIT_CONFIG, say [Err (''gcit uninstall: cannot read manifest at '' @ ip_manifest paths @ '': '' @ e)] st)
             | Inr m \<Rightarrow> uninstall_manifest h env scope paths force m st))"

end
