(* ===== verification/Install_Correct.thy ===== *)
theory Install_Correct
  imports Install
begin

text \<open>
  What \<open>gcit install\<close> and \<open>gcit uninstall\<close> do to the host: which files change, that one reverses the
  other, and that a manifest cannot steer the removal out of the install directories.
\<close>

section \<open>Lemmas\<close>

subsection \<open>Writing\<close>

text \<open>The console is not read.\<close>

lemma say_simps [simp]:
  "hs_fs (say ls st) = hs_fs st" "hs_users (say ls st) = hs_users st" "hs_fs (st\<lparr>hs_fs := d\<rparr>) = d"
  by (simp_all add: say_def)

lemma atomic_write_frame:
  assumes "atomic_write fails tmp dest c m d = (d', r)" and "q \<noteq> dest" and "now d tmp = None"
  shows "now d' q = now d q"
proof -
  have "d' = fst (atomic_write fails tmp dest c m d)" using assms(1) by simp
  with assms(2,3) show ?thesis
    by (auto simp: atomic_write_fst atomic_write_trace_def aw_ops_def aw_run_unfold drop_temp_def
        simp del: aw_run.simps(2))
qed

lemma atomic_write_ok_now:
  assumes "atomic_write fails tmp dest c m d = (d', Inr u)" and "tmp \<noteq> dest"
  shows "now d' dest = Some \<lparr>f_data = c, f_mode = m, f_synced = True\<rparr>"
  using atomic_write_ok_dest(1) [of tmp dest fails c m d] assms by simp

lemma atomic_write_json_ok:
  "atomic_write_json ser fails tmp dest v m d = (d', Inr u) \<longleftrightarrow>
     (\<exists>js. ser v = Some js \<and> atomic_write fails tmp dest js m d = (d', Inr ()))"
proof (cases "ser v")
  case (Some js)
  obtain d1 r where "atomic_write fails tmp dest js m d = (d1, r)" by fastforce
  with Some show ?thesis by (cases r) (auto simp: atomic_write_json_def)
qed (simp add: atomic_write_json_def)

lemma atomic_write_json_frame:
  assumes "atomic_write_json ser fails tmp dest v m d = (d', r)" and "q \<noteq> dest" and "now d tmp = None"
  shows "now d' q = now d q"
proof (cases "ser v")
  case (Some js)
  obtain d1 r1 where aw: "atomic_write fails tmp dest js m d = (d1, r1)" by fastforce
  with Some assms(1) have "d' = d1" by (cases r1) (auto simp: atomic_write_json_def)
  with atomic_write_frame [OF aw assms(2,3)] show ?thesis by simp
qed (use assms(1) in \<open>simp add: atomic_write_json_def\<close>)

lemma write_output_frame:
  assumes "write_output h env out d = (r, d')" and "q \<noteq> ho_real h (of_path out)"
    and "now d (snd (ie_write env (of_path out))) = None"
  shows "now d' q = now d q"
  using assms atomic_write_frame
  by (fastforce simp: write_output_def split: sum.splits prod.splits)

lemma write_output_ok:
  assumes "write_output h env out d = (Inr entry, d')" and "snd (ie_write env (of_path out)) \<noteq> ho_real h (of_path out)"
  shows "entry = \<lparr>me_path = of_path out, me_sha256 = ho_sha256 h (of_contents out), me_mode = of_mode out\<rparr>"
    and "now d' (ho_real h (of_path out)) = Some \<lparr>f_data = of_contents out, f_mode = of_mode out, f_synced = True\<rparr>"
  using assms atomic_write_ok_now
  by (fastforce simp: write_output_def split: sum.splits prod.splits)+

text \<open>Temporary names are free, and stay free while others are written.\<close>

definition temp_free :: "host \<Rightarrow> install_env \<Rightarrow> path list \<Rightarrow> fs \<Rightarrow> bool" where
  "temp_free h env ps d \<longleftrightarrow> (\<forall>p \<in> set ps. now d (snd (ie_write env p)) = None \<and> snd (ie_write env p) \<notin> ho_real h ` set ps)"

lemma temp_free_write:
  assumes "temp_free h env ps d" and "of_path out \<in> set ps" and "write_output h env out d = (r, d')"
  shows "temp_free h env ps d'"
  using assms write_output_frame [OF assms(3)] unfolding temp_free_def by (metis image_eqI)

lemma write_files_frame:
  assumes "write_files h env outs d = (r, d')" and "temp_free h env ps d" and "of_path ` set outs \<subseteq> set ps"
    and "q \<notin> ho_real h ` of_path ` set outs"
  shows "now d' q = now d q \<and> temp_free h env ps d'"
  using assms
proof (induction outs arbitrary: r d d')
  case (Cons out outs)
  obtain r1 d1 where w: "write_output h env out d = (r1, d1)" by fastforce
  have free: "temp_free h env ps d1" using temp_free_write [OF Cons.prems(2) _ w] Cons.prems(3) by simp
  have q: "now d1 q = now d q"
    using write_output_frame [OF w] Cons.prems(2-4) by (auto simp: temp_free_def)
  show ?case
  proof (cases r1)
    case (Inl e)
    with w Cons.prems(1) free q show ?thesis by simp
  next
    case (Inr entry)
    obtain r2 where "write_files h env outs d1 = (r2, d')"
      using w Inr Cons.prems(1) by (auto split: sum.splits prod.splits)
    from Cons.IH [OF this free] Cons.prems(3,4) q show ?thesis by simp
  qed
qed simp

lemma write_files_ok:
  assumes "write_files h env outs d = (Inr entries, d')" and "temp_free h env ps d" and "of_path ` set outs \<subseteq> set ps"
    and "distinct (map (ho_real h \<circ> of_path) outs)"
  shows "entries = map (\<lambda>out. \<lparr>me_path = of_path out, me_sha256 = ho_sha256 h (of_contents out), me_mode = of_mode out\<rparr>) outs \<and>
    (\<forall>out \<in> set outs. now d' (ho_real h (of_path out)) = Some \<lparr>f_data = of_contents out, f_mode = of_mode out, f_synced = True\<rparr>)"
  using assms
proof (induction outs arbitrary: entries d d')
  case (Cons out outs)
  from Cons.prems(1) obtain entry d1 entries' where w: "write_output h env out d = (Inr entry, d1)"
    and ws: "write_files h env outs d1 = (Inr entries', d')" and es: "entries = entry # entries'"
    by (auto split: sum.splits prod.splits)
  have free: "temp_free h env ps d1" using temp_free_write [OF Cons.prems(2) _ w] Cons.prems(3) by simp
  have tmp: "snd (ie_write env (of_path out)) \<noteq> ho_real h (of_path out)"
    using Cons.prems(2,3) by (auto simp: temp_free_def)
  have "now d' (ho_real h (of_path out)) = now d1 (ho_real h (of_path out))"
    using write_files_frame [OF ws free] Cons.prems(3,4) by force
  with write_output_ok [OF w tmp] es Cons.IH [OF ws free] Cons.prems(3,4) show ?case by simp
qed simp

text \<open>The whole writing phase, manifest included.\<close>

lemma write_outputs_frame:
  assumes "write_outputs h env outs mp local_mail created d = (r, d')" and "temp_free h env (mp # map of_path outs) d"
    and "q \<notin> ho_real h ` (set (map of_path outs) \<union> {mp})"
  shows "now d' q = now d q"
proof -
  obtain r1 d1 where w: "write_files h env outs d = (r1, d1)" by fastforce
  have d1: "now d1 q = now d q" "temp_free h env (mp # map of_path outs) d1"
    using write_files_frame [OF w assms(2)] assms(3) by auto
  then have free: "now d1 (snd (ie_write env mp)) = None" by (simp add: temp_free_def)
  have "now d' q = now d1 q"
    using assms(1,3) w free atomic_write_json_frame
    by (fastforce simp: write_outputs_def Let_def split: sum.splits prod.splits)
  with d1 show ?thesis by simp
qed

lemma write_outputs_ok:
  assumes "write_outputs h env outs mp local_mail created d = (Inr m, d')" and "temp_free h env (mp # map of_path outs) d"
    and "distinct (map (ho_real h) (mp # map of_path outs))"
  shows "m = \<lparr>mf_schema_version = MANIFEST_SCHEMA_VERSION,
      mf_files = map (\<lambda>out. \<lparr>me_path = of_path out, me_sha256 = ho_sha256 h (of_contents out), me_mode = of_mode out\<rparr>) outs,
      mf_user_required = (if local_mail then Some STATIC_USER else None), mf_user_created_by_install = created\<rparr> \<and>
    (\<forall>out \<in> set outs. now d' (ho_real h (of_path out)) = Some \<lparr>f_data = of_contents out, f_mode = of_mode out, f_synced = True\<rparr>) \<and>
    (\<exists>js. ie_ser env m = Some js \<and> now d' (ho_real h mp) = Some \<lparr>f_data = js, f_mode = 0x180, f_synced = True\<rparr>)"
proof -
  from assms(1) obtain entries d1 where w: "write_files h env outs d = (Inr entries, d1)"
    by (auto simp: write_outputs_def split: sum.splits prod.splits)
  have d1: "temp_free h env (mp # map of_path outs) d1"
    using write_files_frame [OF w assms(2), of "ho_real h mp"] assms(3) by auto
  then have tmp: "snd (ie_write env mp) \<noteq> ho_real h mp" "now d1 (snd (ie_write env mp)) = None" by (auto simp: temp_free_def)
  note files = write_files_ok [OF w assms(2)]
  define m0 where "m0 = \<lparr>mf_schema_version = MANIFEST_SCHEMA_VERSION, mf_files = entries,
      mf_user_required = (if local_mail then Some STATIC_USER else None), mf_user_created_by_install = created\<rparr>"
  have "write_outputs h env outs mp local_mail created d =
      (case ensure_parent env mp of
         Inl e \<Rightarrow> (Inl e, d1)
       | Inr _ \<Rightarrow>
          (case atomic_write_json (ie_ser env) (fst (ie_write env mp)) (snd (ie_write env mp)) (ho_real h mp) m0 0x180 d1 of
             (d, Inl op) \<Rightarrow> (Inl (ie_io_text env op), d)
           | (d, Inr _) \<Rightarrow> (Inr m0, d)))"
    by (simp only: write_outputs_def w prod.case sum.case Let_def m0_def)
  with assms(1) have m: "m = m0"
    and json: "atomic_write_json (ie_ser env) (fst (ie_write env mp)) (snd (ie_write env mp)) (ho_real h mp) m0 0x180 d1 = (d', Inr ())"
    by (auto split: sum.splits prod.splits)
  from json obtain js where js: "ie_ser env m0 = Some js"
    and aw: "atomic_write (fst (ie_write env mp)) (snd (ie_write env mp)) (ho_real h mp) js 0x180 d1 = (d', Inr ())"
    by (auto simp: atomic_write_json_ok)
  have frame: "now d' q = now d1 q" if "q \<noteq> ho_real h mp" for q using atomic_write_frame [OF aw that tmp(2)] .
  have "\<forall>out \<in> set outs. now d' (ho_real h (of_path out)) = now d1 (ho_real h (of_path out))"
  proof
    fix out assume "out \<in> set outs"
    with assms(3) have "ho_real h (of_path out) \<noteq> ho_real h mp" by force
    then show "now d' (ho_real h (of_path out)) = now d1 (ho_real h (of_path out))" by (rule frame)
  qed
  with files assms(3) m js atomic_write_ok_now [OF aw tmp(1)] show ?thesis by (simp add: m0_def comp_def subset_iff)
qed

subsection \<open>The run of the installer\<close>

definition managed_paths :: "install_paths \<Rightarrow> path list" where
  "managed_paths paths = [ip_service_unit paths, ip_socket_unit paths, ip_config paths]"

lemma build_outputs_paths:
  "build_outputs h env cfg scope paths bin d = Inr outputs \<Longrightarrow> map of_path outputs = managed_paths paths"
  by (auto simp: build_outputs_def managed_paths_def split: sum.splits option.splits)

text \<open>A run leaves files and users alone, or gets to the writing phase with the outputs built.\<close>

definition reaches_writing ::
  "host \<Rightarrow> install_env \<Rightarrow> install_scope \<Rightarrow> bool \<Rightarrow> host_state \<Rightarrow> loaded_config \<Rightarrow> install_paths \<Rightarrow> output_file list \<Rightarrow> host_state \<Rightarrow> bool"
where
  "reaches_writing h env scope force st cfg paths outputs st0 \<longleftrightarrow>
     ie_loaded env = Inr cfg \<and> (\<exists>home. home_dir h = Some home \<and> paths = install_paths_of (ho_var h) scope home) \<and>
     \<not> (scope = UserScope \<and> has_local_mail (cf_flow cfg)) \<and>
     (\<exists>bin. ie_current_exe env = Inr bin \<and> build_outputs h env cfg scope paths bin (hs_fs st) = Inr outputs) \<and>
     (force \<or> (\<forall>p \<in> set (managed_paths paths). \<not> path_exists h (hs_fs st) p)) \<and>
     hs_fs st0 = hs_fs st \<and> hs_users st0 = hs_users st"

lemma confirm_install_cases:
  assumes "confirm_install h env interactive force outputs st = (r, st0)"
  shows "hs_fs st0 = hs_fs st \<and> hs_users st0 = hs_users st \<and>
    (r = Inr () \<longrightarrow> force \<or> (\<forall>p \<in> set (map of_path outputs). \<not> path_exists h (hs_fs st) p)) \<and>
    (r = Inl EXIT_OK \<longrightarrow> interactive \<and> (force \<or> (\<forall>p \<in> set (map of_path outputs). \<not> path_exists h (hs_fs st) p)))"
  using assms
  by (auto simp: confirm_install_def refuse_silent_overwrite_def filter_empty_conv Let_def EXIT_OK_def EXIT_CONFIG_def
      split: prod.splits sum.splits if_splits)

lemma install_files_cases:
  assumes "install_files h env cfg scope bin interactive force st = (code, st1)" and "ie_loaded env = Inr cfg"
    and "ie_current_exe env = Inr bin" and "\<not> (scope = UserScope \<and> has_local_mail (cf_flow cfg))"
  shows "hs_fs st1 = hs_fs st \<and> hs_users st1 = hs_users st \<and>
      (code = EXIT_OK \<longrightarrow> interactive \<and> (force \<or> \<not> path_exists h (hs_fs st) (ip_config (install_paths_of (ho_var h) scope (the (home_dir h)))))) \<or>
    (\<exists>paths outputs st0. reaches_writing h env scope force st cfg paths outputs st0 \<and>
       apply_install h env scope paths (has_local_mail (cf_flow cfg)) outputs st0 = (code, st1))"
proof (cases "home_dir h")
  case (Some home)
  define paths where "paths = install_paths_of (ho_var h) scope home"
  define st' where "st' = say (print_credential_walkthrough (ie_process env) (cf_flow cfg) paths scope @
    (if has_local_mail (cf_flow cfg) then print_local_mail_check (ie_spool_mode env) (cf_flow cfg) else [])) st"
  show ?thesis
  proof (cases "build_outputs h env cfg scope paths bin (hs_fs st)")
    case (Inl e)
    with Some assms(1) show ?thesis
      by (auto simp: install_files_def resolve_install_paths_or_print_def paths_def [symmetric] st'_def [symmetric] Let_def
          EXIT_OK_def EXIT_CONFIG_def) (simp_all add: st'_def)
  next
    case (Inr outputs)
    obtain r st0 where confirm: "confirm_install h env interactive force outputs
        (say (print_path_preview h paths outputs (has_local_mail (cf_flow cfg)) (hs_fs st')) st') = (r, st0)" by fastforce
    note c = confirm_install_cases [OF this]
    have st': "hs_fs st' = hs_fs st" "hs_users st' = hs_users st" by (simp_all add: st'_def)
    have run: "install_files h env cfg scope bin interactive force st =
        (case r of Inl code \<Rightarrow> (code, st0) | Inr _ \<Rightarrow> apply_install h env scope paths (has_local_mail (cf_flow cfg)) outputs st0)"
      using Some Inr confirm st'(1)
      by (simp add: install_files_def resolve_install_paths_or_print_def paths_def [symmetric] st'_def [symmetric] Let_def)
    show ?thesis
    proof (cases r)
      case (Inl c')
      have "ip_config paths \<in> set (map of_path outputs)"
        using build_outputs_paths [OF \<open>build_outputs _ _ _ _ _ _ _ = _\<close>] by (simp add: managed_paths_def)
      with Inl run assms(1) c st' Some show ?thesis by (auto simp: paths_def)
    next
      case (Inr u)
      have "reaches_writing h env scope force st cfg paths outputs st0"
        unfolding reaches_writing_def
        using assms(2-4) Some paths_def \<open>build_outputs _ _ _ _ _ _ _ = _\<close> c Inr st' build_outputs_paths [of h env cfg scope paths bin "hs_fs st" outputs]
        by auto
      with run assms(1) Inr show ?thesis by auto
    qed
  qed
qed (use assms(1) in \<open>auto simp: install_files_def resolve_install_paths_or_print_def EXIT_OK_def EXIT_USAGE_def\<close>)

lemma install_run_cases:
  assumes "install_run h env scope interactive force dry_run st = (code, st1)"
  shows "hs_fs st1 = hs_fs st \<and> hs_users st1 = hs_users st \<and>
      (code = EXIT_OK \<longrightarrow> dry_run \<or>
        interactive \<and> (force \<or> \<not> path_exists h (hs_fs st) (ip_config (install_paths_of (ho_var h) scope (the (home_dir h)))))) \<or>
    \<not> dry_run \<and> (\<exists>cfg paths outputs st0. reaches_writing h env scope force st cfg paths outputs st0 \<and>
       apply_install h env scope paths (has_local_mail (cf_flow cfg)) outputs st0 = (code, st1))"
proof (cases "ie_loaded env")
  case (Inr cfg)
  show ?thesis
  proof (cases "scope = UserScope \<and> has_local_mail (cf_flow cfg)")
    case False
    show ?thesis
    proof (cases "ie_current_exe env")
      case exe: (Inr bin)
      show ?thesis
      proof (cases dry_run)
        case False': False
        then have "install_files h env cfg scope bin interactive force st = (code, st1)"
          using assms Inr exe False
          by (auto simp: install_run_def load_config_or_print_def reject_user_plus_local_mail_def resolve_install_binary_path_def)
        from install_files_cases [OF this Inr exe False] False' show ?thesis by blast
      qed (use assms Inr exe False in \<open>auto simp: install_run_def load_config_or_print_def reject_user_plus_local_mail_def
          resolve_install_binary_path_def\<close>)
    qed (use assms Inr False in \<open>auto simp: install_run_def load_config_or_print_def reject_user_plus_local_mail_def
        resolve_install_binary_path_def EXIT_OK_def EXIT_OSERR_def\<close>)
  qed (use assms Inr in \<open>auto simp: install_run_def load_config_or_print_def reject_user_plus_local_mail_def EXIT_OK_def EXIT_USAGE_def\<close>)
qed (use assms in \<open>auto simp: install_run_def load_config_or_print_def EXIT_OK_def EXIT_CONFIG_def\<close>)

text \<open>The writing phase: users first, then files.\<close>

lemma ensure_static_user_frame:
  assumes "ensure_static_user env name st = (r, st0)"
  shows "hs_fs st0 = hs_fs st \<and>
    hs_users st0 = (if mail_group_exists env \<and> (\<exists>c e. ie_useradd env = UseraddExited True c e) then name # hs_users st else hs_users st) \<and>
    (\<forall>created. r = Inr created \<longrightarrow> created = (\<exists>c e. ie_useradd env = UseraddExited True c e))"
  using assms
  by (cases "ie_useradd env")
     (auto simp: ensure_static_user_def classify_useradd_exit_def Let_def split: if_splits)

lemma ensure_user_frame:
  assumes "ensure_static_user_if_local_mail env local_mail scope st = (r, st0)"
  shows "hs_fs st0 = hs_fs st \<and> (hs_users st0 = hs_users st \<or> scope = SystemScope \<and> hs_users st0 = STATIC_USER # hs_users st)"
proof (cases "local_mail \<and> scope = SystemScope")
  case True
  obtain r' st' where e: "ensure_static_user env STATIC_USER st = (r', st')" by fastforce
  with True assms have "hs_fs st0 = hs_fs st'" "hs_users st0 = hs_users st'"
    by (cases r'; auto simp: ensure_static_user_if_local_mail_def)+
  with ensure_static_user_frame [OF e] True show ?thesis by simp
next
  case False
  with assms show ?thesis by (simp add: ensure_static_user_if_local_mail_def)
qed

lemma apply_install_frame:
  assumes "apply_install h env scope paths local_mail outputs st = (code, st1)" and "map of_path outputs = managed_paths paths"
    and "temp_free h env (ip_manifest paths # managed_paths paths) (hs_fs st)"
  shows "(\<forall>q. q \<notin> ho_real h ` (set (managed_paths paths) \<union> {ip_manifest paths}) \<longrightarrow> now (hs_fs st1) q = now (hs_fs st) q) \<and>
    (hs_users st1 = hs_users st \<or> scope = SystemScope \<and> hs_users st1 = STATIC_USER # hs_users st)"
proof -
  obtain r st0 where u: "ensure_static_user_if_local_mail env local_mail scope st = (r, st0)" by fastforce
  note uf = ensure_user_frame [OF u]
  show ?thesis
  proof (cases r)
    case (Inl c)
    with u uf assms(1) show ?thesis by (simp add: apply_install_def)
  next
    case (Inr created)
    obtain r1 d where w: "write_outputs h env outputs (ip_manifest paths) local_mail created (hs_fs st0) = (r1, d)" by fastforce
    have "\<forall>q. q \<notin> ho_real h ` (set (managed_paths paths) \<union> {ip_manifest paths}) \<longrightarrow> now d q = now (hs_fs st) q"
      using write_outputs_frame [OF w] assms(2,3) uf by simp
    moreover have "hs_fs st1 = d \<and> hs_users st1 = hs_users st0"
      using Inr u w assms(1) by (cases r1) (auto simp: apply_install_def say_def)
    ultimately show ?thesis using uf by simp
  qed
qed

lemma apply_install_ok:
  assumes "apply_install h env scope paths local_mail outputs st = (EXIT_OK, st1)" and "map of_path outputs = managed_paths paths"
    and "temp_free h env (ip_manifest paths # managed_paths paths) (hs_fs st)"
    and "distinct (map (ho_real h) (ip_manifest paths # managed_paths paths))"
  obtains m js where "mf_schema_version m = MANIFEST_SCHEMA_VERSION"
    and "mf_files m = map (\<lambda>out. \<lparr>me_path = of_path out, me_sha256 = ho_sha256 h (of_contents out), me_mode = of_mode out\<rparr>) outputs"
    and "mf_user_created_by_install m \<longleftrightarrow> local_mail \<and> scope = SystemScope \<and> (\<exists>c e. ie_useradd env = UseraddExited True c e)"
    and "hs_users st1 = (if mf_user_created_by_install m then STATIC_USER # hs_users st else hs_users st)"
    and "\<forall>out \<in> set outputs. now (hs_fs st1) (ho_real h (of_path out)) = Some \<lparr>f_data = of_contents out, f_mode = of_mode out, f_synced = True\<rparr>"
    and "ie_ser env m = Some js" and "now (hs_fs st1) (ho_real h (ip_manifest paths)) = Some \<lparr>f_data = js, f_mode = 0x180, f_synced = True\<rparr>"
proof -
  obtain r st0 where u: "ensure_static_user_if_local_mail env local_mail scope st = (r, st0)" by fastforce
  note uf = ensure_user_frame [OF u]
  have "r \<noteq> Inl c" for c
  proof
    assume "r = Inl c"
    with u assms(1) have "c = EXIT_OK" by (simp add: apply_install_def)
    with \<open>r = Inl c\<close> u show False
      by (auto simp: ensure_static_user_if_local_mail_def EXIT_OK_def EXIT_OSERR_def split: if_splits sum.splits prod.splits)
  qed
  then obtain created where r: "r = Inr created" by (cases r) auto
  obtain r1 d where w: "write_outputs h env outputs (ip_manifest paths) local_mail created (hs_fs st0) = (r1, d)" by fastforce
  from u r w assms(1) obtain m where r1: "r1 = Inr m" by (cases r1) (auto simp: apply_install_def EXIT_OK_def EXIT_CONFIG_def)
  have st1: "hs_fs st1 = d" "hs_users st1 = hs_users st0" using u r w r1 assms(1) by (auto simp: apply_install_def)
  have created: "created \<longleftrightarrow> local_mail \<and> scope = SystemScope \<and> (\<exists>c e. ie_useradd env = UseraddExited True c e)"
    and users: "hs_users st0 = (if created then STATIC_USER # hs_users st else hs_users st)"
  proof -
    have "created = (local_mail \<and> scope = SystemScope \<and> (\<exists>c e. ie_useradd env = UseraddExited True c e)) \<and>
        hs_users st0 = (if created then STATIC_USER # hs_users st else hs_users st)"
    proof (cases "local_mail \<and> scope = SystemScope")
      case True
      obtain r' st' where e: "ensure_static_user env STATIC_USER st = (r', st')" by fastforce
      with True u r have "r' = Inr created" "st' = st0" by (cases r'; auto simp: ensure_static_user_if_local_mail_def)+
      moreover have "mail_group_exists env" using e \<open>r' = Inr created\<close> by (auto simp: ensure_static_user_def split: if_splits)
      ultimately show ?thesis using ensure_static_user_frame [OF e] True by simp
    next
      case False
      with u r show ?thesis by (auto simp: ensure_static_user_if_local_mail_def)
    qed
    then show "created \<longleftrightarrow> local_mail \<and> scope = SystemScope \<and> (\<exists>c e. ie_useradd env = UseraddExited True c e)"
      and "hs_users st0 = (if created then STATIC_USER # hs_users st else hs_users st)" by blast+
  qed
  have "temp_free h env (ip_manifest paths # map of_path outputs) (hs_fs st0)" using assms(2,3) uf by simp
  note ok = write_outputs_ok [OF w [unfolded r1] this, simplified assms(2), OF assms(4)]
  then obtain js where "ie_ser env m = Some js" "now d (ho_real h (ip_manifest paths)) = Some \<lparr>f_data = js, f_mode = 0x180, f_synced = True\<rparr>"
    by blast
  with ok that [of m js] st1 created users show thesis by simp
qed

subsection \<open>The removal\<close>

lemma hash_chunks_eq: "hash_chunks sha absorbed rest = sha (absorbed @ rest)"
proof (induction sha absorbed rest rule: hash_chunks.induct)
  case (1 sha absorbed rest)
  then show ?case by (subst hash_chunks.simps) simp
qed

lemma file_sha256_ok:
  "file_sha256 h env d p = Inr sha \<longleftrightarrow> ue_hash env p = None \<and> (\<exists>f. now d (ho_real h p) = Some f \<and> sha = ho_sha256 h (f_data f))"
  by (auto simp: file_sha256_def hash_chunks_eq split: option.splits)

lemma validate_entries_None:
  "validate_entries h env d roots entries = None \<longleftrightarrow> (\<forall>e \<in> set entries. validate_manifest_path h env d roots (me_path e) = Inr ())"
  by (induction entries) (auto split: sum.splits)

lemma find_modified_none:
  "find_modified h env d entries = Inr ms \<Longrightarrow> ms = [] \<longleftrightarrow>
     (\<forall>e \<in> set entries. path_exists h d (me_path e) \<longrightarrow> file_sha256 h env d (me_path e) = Inr (me_sha256 e))"
  by (induction entries arbitrary: ms) (auto split: if_splits sum.splits)

lemma find_modified_clean:
  "\<forall>e \<in> set entries. file_sha256 h env d (me_path e) = Inr (me_sha256 e) \<Longrightarrow> find_modified h env d entries = Inr []"
  by (induction entries) auto

lemma remove_file_frame:
  assumes "remove_file h env p d = (r, d')"
  shows "now d' q = now d q \<or> q = ho_real h p \<and> now d' q = None \<and> now d q \<noteq> None"
  using assms by (auto simp: remove_file_def split: option.splits if_splits)

lemma remove_entries_frame:
  assumes "remove_entries h env entries st = (errors, st1)"
  shows "hs_users st1 = hs_users st \<and>
    (now (hs_fs st1) q = now (hs_fs st) q \<or>
     now (hs_fs st1) q = None \<and> now (hs_fs st) q \<noteq> None \<and> q \<in> (ho_real h \<circ> me_path) ` set entries)"
  using assms
proof (induction entries arbitrary: st errors)
  case (Cons e es)
  show ?case
  proof (cases "path_exists h (hs_fs st) (me_path e)")
    case True
    obtain r d where rf: "remove_file h env (me_path e) (hs_fs st) = (r, d)" by fastforce
    define st0 where "st0 = (case r of Inl _ \<Rightarrow> st\<lparr>hs_fs := d\<rparr> | Inr _ \<Rightarrow> say [Out (''removed '' @ me_path e)] (st\<lparr>hs_fs := d\<rparr>))"
    obtain errors' where rest: "remove_entries h env es st0 = (errors', st1)"
      using Cons.prems True rf by (cases r) (auto simp: st0_def split: prod.splits)
    have st0: "hs_fs st0 = d" "hs_users st0 = hs_users st" by (cases r; simp add: st0_def)+
    from Cons.IH [OF rest] st0 remove_file_frame [OF rf, of q] show ?thesis by (auto, metis)
  next
    case False
    with Cons.prems Cons.IH [of st errors] show ?thesis by auto
  qed
qed simp

text \<open>Each entry is gone in the end, unless its removal is reported.\<close>

lemma remove_entries_gone:
  assumes "remove_entries h env entries st = ([], st1)" and "e \<in> set entries"
  shows "now (hs_fs st1) (ho_real h (me_path e)) = None"
  using assms
proof (induction entries arbitrary: st)
  case (Cons e' es)
  show ?case
  proof (cases "path_exists h (hs_fs st) (me_path e')")
    case True
    obtain r d where rf: "remove_file h env (me_path e') (hs_fs st) = (r, d)" by fastforce
    with Cons.prems(1) True have rm: "remove_entries h env es (say [Out (''removed '' @ me_path e')] (st\<lparr>hs_fs := d\<rparr>)) = ([], st1)"
      and "r = Inr ()" by (cases r; auto split: prod.splits)+
    with rf have "now d (ho_real h (me_path e')) = None" by (auto simp: remove_file_def split: option.splits)
    then have "now (hs_fs st1) (ho_real h (me_path e')) = None"
      using remove_entries_frame [OF rm, of "ho_real h (me_path e')"] by auto
    with Cons.IH [OF rm] Cons.prems(2) show ?thesis by auto
  next
    case False
    with Cons.prems(1) have rm: "remove_entries h env es st = ([], st1)" by simp
    have "now (hs_fs st) (ho_real h (me_path e')) = None" using False by (simp add: path_exists_def)
    then have "now (hs_fs st1) (ho_real h (me_path e')) = None"
      using remove_entries_frame [OF rm, of "ho_real h (me_path e')"] by auto
    with Cons.IH [OF rm] Cons.prems(2) show ?thesis by auto
  qed
qed simp

lemma remove_entries_no_errors:
  assumes "\<forall>e \<in> set entries. ue_remove env (me_path e) = None \<and> \<not> ho_other h (me_path e)"
  shows "fst (remove_entries h env entries st) = []"
  using assms
  by (induction entries arbitrary: st) (auto simp: remove_file_def path_exists_def split: option.splits prod.splits)

text \<open>A file is removed only after all three checks.\<close>

lemma uninstall_manifest_changes:
  assumes "uninstall_manifest h env scope paths force m st = (code, st1)" and "now (hs_fs st1) q \<noteq> now (hs_fs st) q"
  shows "now (hs_fs st1) q = None \<and> (q = ho_real h (ip_manifest paths) \<or> q \<in> (ho_real h \<circ> me_path) ` set (mf_files m)) \<and>
    mf_schema_version m = MANIFEST_SCHEMA_VERSION \<and>
    validate_entries h env (hs_fs st) (expected_roots paths) (mf_files m) = None \<and>
    (\<exists>ms. find_modified h env (hs_fs st) (mf_files m) = Inr ms \<and> (force \<or> ms = []))"
proof -
  have run: "remove_managed h env scope (ip_manifest paths) m st = (code, st1)"
    and checks: "mf_schema_version m = MANIFEST_SCHEMA_VERSION"
      "validate_entries h env (hs_fs st) (expected_roots paths) (mf_files m) = None"
      "\<exists>ms. find_modified h env (hs_fs st) (mf_files m) = Inr ms \<and> (force \<or> ms = [])"
    using assms by (auto simp: uninstall_manifest_def split: if_splits option.splits sum.splits)
  obtain errors st0 where rm: "remove_entries h env (mf_files m) st = (errors, st0)" by fastforce
  note frame = remove_entries_frame [OF rm, of q]
  have "now (hs_fs st1) q = now (hs_fs st0) q \<or> q = ho_real h (ip_manifest paths) \<and> now (hs_fs st1) q = None"
  proof (cases "errors = [] \<and> path_exists h (hs_fs st0) (ip_manifest paths)")
    case True
    obtain r d where rf: "remove_file h env (ip_manifest paths) (hs_fs st0) = (r, d)" by fastforce
    with run rm True have "hs_fs st1 = d" by (cases r) (auto simp: remove_managed_def Let_def)
    with remove_file_frame [OF rf, of q] show ?thesis by auto
  next
    case False
    with run rm have "hs_fs st1 = hs_fs st0" by (auto simp: remove_managed_def Let_def split: if_splits)
    then show ?thesis by simp
  qed
  with frame assms(2) checks show ?thesis by auto
qed

text \<open>Where nothing fails, an install goes through.\<close>

definition calm_install :: "install_env \<Rightarrow> bool" where
  "calm_install env \<longleftrightarrow> (\<forall>p. ie_mkdir env p = None) \<and> (\<forall>p op. \<not> fst (ie_write env p) op)"

lemma ensure_parent_calm: "calm_install env \<Longrightarrow> ensure_parent env p = Inr ()"
  by (simp add: ensure_parent_def calm_install_def split: option.split)

lemma atomic_write_calm: "calm_install env \<Longrightarrow> \<exists>d'. atomic_write (fst (ie_write env p)) tmp dest c m d = (d', Inr ())"
  using atomic_write_ok_iff [of "fst (ie_write env p)" tmp dest c m d] by (cases "atomic_write (fst (ie_write env p)) tmp dest c m d") (auto simp: calm_install_def)

lemma write_files_calm:
  assumes "calm_install env"
  shows "\<exists>d'. write_files h env outs d =
    (Inr (map (\<lambda>out. \<lparr>me_path = of_path out, me_sha256 = ho_sha256 h (of_contents out), me_mode = of_mode out\<rparr>) outs), d')"
proof (induction outs arbitrary: d)
  case (Cons out outs)
  from atomic_write_calm [OF assms] obtain d1
    where "atomic_write (fst (ie_write env (of_path out))) (snd (ie_write env (of_path out))) (ho_real h (of_path out)) (of_contents out) (of_mode out) d = (d1, Inr ())"
    by blast
  then have "write_output h env out d = (Inr \<lparr>me_path = of_path out, me_sha256 = ho_sha256 h (of_contents out), me_mode = of_mode out\<rparr>, d1)"
    by (simp add: write_output_def ensure_parent_calm [OF assms])
  moreover obtain d2 where "write_files h env outs d1 =
    (Inr (map (\<lambda>out. \<lparr>me_path = of_path out, me_sha256 = ho_sha256 h (of_contents out), me_mode = of_mode out\<rparr>) outs), d2)"
    using Cons.IH by blast
  ultimately show ?case by simp
qed simp

definition manifest_of :: "host \<Rightarrow> bool \<Rightarrow> bool \<Rightarrow> output_file list \<Rightarrow> install_manifest" where
  "manifest_of h local_mail created outputs = \<lparr>mf_schema_version = MANIFEST_SCHEMA_VERSION,
     mf_files = map (\<lambda>out. \<lparr>me_path = of_path out, me_sha256 = ho_sha256 h (of_contents out), me_mode = of_mode out\<rparr>) outputs,
     mf_user_required = (if local_mail then Some STATIC_USER else None), mf_user_created_by_install = created\<rparr>"

lemma write_outputs_calm:
  assumes "calm_install env" and "ie_ser env (manifest_of h local_mail created outputs) = Some js"
  shows "\<exists>m d'. write_outputs h env outputs mp local_mail created d = (Inr m, d')"
proof -
  obtain d1 where w: "write_files h env outputs d =
    (Inr (map (\<lambda>out. \<lparr>me_path = of_path out, me_sha256 = ho_sha256 h (of_contents out), me_mode = of_mode out\<rparr>) outputs), d1)"
    using write_files_calm [OF assms(1)] by blast
  obtain d2 where "atomic_write (fst (ie_write env mp)) (snd (ie_write env mp)) (ho_real h mp) js 0x180 d1 = (d2, Inr ())"
    using atomic_write_calm [OF assms(1)] by blast
  with assms(2) have "atomic_write_json (ie_ser env) (fst (ie_write env mp)) (snd (ie_write env mp)) (ho_real h mp)
      (manifest_of h local_mail created outputs) 0x180 d1 = (d2, Inr ())" by (simp add: atomic_write_json_ok)
  then show ?thesis
    using w ensure_parent_calm [OF assms(1), of mp] by (auto simp: write_outputs_def manifest_of_def Let_def)
qed

lemma install_succeeds:
  assumes calm: "calm_install env" and loaded: "ie_loaded env = Inr cfg" and exe: "ie_current_exe env = Inr bin"
    and mail: "has_local_mail (cf_flow cfg)" "ie_getent env = Some True"
    and user: "ie_useradd env = UseraddExited created (Some (if created then 0 else 9)) e"
    and home: "home_dir h = Some home" "paths = install_paths_of (ho_var h) SystemScope home"
    and outputs: "build_outputs h env cfg SystemScope paths bin (hs_fs st) = Inr outputs"
    and ok: "force \<or> (\<forall>p \<in> set (managed_paths paths). \<not> path_exists h (hs_fs st) p)"
    and ser: "ie_ser env (manifest_of h True created outputs) = Some js"
  shows "\<exists>st1. install_run h env SystemScope False force False st = (EXIT_OK, st1)"
proof -
  have confirm: "\<exists>st0. confirm_install h env False force outputs s = (Inr (), st0)" if "hs_fs s = hs_fs st" for s
    using ok build_outputs_paths [OF outputs] that
    by (auto simp: confirm_install_def refuse_silent_overwrite_def Let_def filter_empty_conv simp flip: set_map)
  have created: "\<exists>st0. ensure_static_user_if_local_mail env True SystemScope s = (Inr created, st0)" for s
    using user mail(2) by (cases created)
      (auto simp: ensure_static_user_if_local_mail_def ensure_static_user_def mail_group_exists_def classify_useradd_exit_def Let_def)
  have "\<exists>st1. apply_install h env SystemScope paths True outputs s = (EXIT_OK, st1)" for s
  proof -
    from created [of s] obtain st0 where "ensure_static_user_if_local_mail env True SystemScope s = (Inr created, st0)" by blast
    moreover from write_outputs_calm [OF calm ser] obtain m d
      where "write_outputs h env outputs (ip_manifest paths) True created (hs_fs st0) = (Inr m, d)" by blast
    ultimately show ?thesis by (simp add: apply_install_def)
  qed
  note applied = this
  define ls where "ls = print_credential_walkthrough (ie_process env) (cf_flow cfg) paths SystemScope @
    print_local_mail_check (ie_spool_mode env) (cf_flow cfg)"
  define ls' where "ls' = print_path_preview h paths outputs True (hs_fs st)"
  obtain st0 where "confirm_install h env False force outputs (say ls' (say ls st)) = (Inr (), st0)" using confirm by force
  moreover obtain st1 where "apply_install h env SystemScope paths True outputs st0 = (EXIT_OK, st1)" using applied by blast
  ultimately have "\<exists>st1. install_files h env cfg SystemScope bin False force st = (EXIT_OK, st1)"
    using mail(1) home outputs
    by (simp add: install_files_def resolve_install_paths_or_print_def Let_def ls_def ls'_def)
  then show ?thesis
    using loaded exe mail(1)
    by (simp add: install_run_def load_config_or_print_def reject_user_plus_local_mail_def resolve_install_binary_path_def)
qed

text \<open>
  Where the files of an installation lie on a host: at four different places, below directories that
  resolve, none of them a link, with temporary names that are free.
\<close>

definition plain_layout :: "host \<Rightarrow> install_env \<Rightarrow> install_paths \<Rightarrow> fs \<Rightarrow> bool" where
  "plain_layout h env paths d \<longleftrightarrow>
     distinct (map (ho_real h) (ip_manifest paths # managed_paths paths)) \<and>
     temp_free h env (ip_manifest paths # managed_paths paths) d \<and>
     (\<forall>p \<in> set (managed_paths paths). \<not> ho_symlink h p \<and> \<not> ho_other h p \<and>
        (\<exists>r c. path_parent p = Some r \<and> ho_canonicalize h r = Inr c \<and> path_starts_with (ho_real h p) c \<and>
           ho_real h r \<notin> ho_real h ` set (ip_manifest paths # managed_paths paths) \<and> now d (ho_real h r) = None))"

text \<open>An uninstall that meets no error of the system, with a parser that reads what the installer wrote.\<close>

definition smooth_uninstall :: "install_env \<Rightarrow> uninstall_env \<Rightarrow> bool" where
  "smooth_uninstall env uenv \<longleftrightarrow>
     ue_read_manifest uenv = Inr () \<and> (\<forall>p. ue_hash uenv p = None \<and> ue_remove uenv p = None) \<and>
     (\<forall>m js. ie_ser env m = Some js \<longrightarrow> ue_parse uenv js = Inr m)"

text \<open>
  The examples: a plain host, the configuration of the earlier examples at \<open>src\<close>, and a serializer that
  knows the two manifests that occur.
\<close>

definition example_host :: host where
  "example_host = \<lparr>ho_real = \<lambda>p. p, ho_other = \<lambda>_. False, ho_symlink = \<lambda>_. False, ho_canonicalize = Inr,
     ho_var = [''HOME'' \<mapsto> ''/root''], ho_sha256 = \<lambda>s. s\<rparr>"

definition example_site :: "path \<Rightarrow> host_state" where
  "example_site src = \<lparr>hs_fs = \<lparr>now = [src \<mapsto> \<lparr>f_data = ''toml'', f_mode = 0x1A0, f_synced = True\<rparr>], durable = Map.empty\<rparr>,
     hs_users = [], hs_console = []\<rparr>"

abbreviation example_paths :: install_paths where
  "example_paths \<equiv> install_paths_of (ho_var example_host) SystemScope ''/root''"

definition example_outputs :: "output_file list" where
  "example_outputs =
     [\<lparr>of_path = ip_service_unit example_paths, of_contents = render_service_unit (cf_flow example_loaded) SystemScope ''/usr/bin/gcit'',
       of_mode = 0x1A4, of_label = ''gcit.service''\<rparr>,
      \<lparr>of_path = ip_socket_unit example_paths, of_contents = render_socket_unit, of_mode = 0x1A4, of_label = ''gcit.socket''\<rparr>,
      \<lparr>of_path = ip_config example_paths, of_contents = ''toml'', of_mode = 0x1A0, of_label = ''config.toml''\<rparr>]"

definition example_ser :: "install_manifest \<Rightarrow> string option" where
  "example_ser m = (if m = manifest_of example_host True True example_outputs then Some ''created''
     else if m = manifest_of example_host True False example_outputs then Some ''found'' else None)"

definition example_parse :: "string \<Rightarrow> string + install_manifest" where
  "example_parse s = (if s = ''created'' then Inr (manifest_of example_host True True example_outputs)
     else if s = ''found'' then Inr (manifest_of example_host True False example_outputs) else Inl ''expected value'')"

definition example_install :: "path \<Rightarrow> bool \<Rightarrow> install_env" where
  "example_install src created = \<lparr>ie_loaded = Inr (example_loaded\<lparr>lc_source_path := src\<rparr>), ie_debug = \<lambda>s. s, ie_current_exe = Inr ''/usr/bin/gcit'',
     ie_process = example_process, ie_read_config = \<lambda>_. Inr (), ie_spool_mode = \<lambda>_. Some 0x1B0, ie_flush = None, ie_read_line = Inr ''y'',
     ie_getent = Some True, ie_useradd = UseraddExited created (Some (if created then 0 else 9)) [], ie_mkdir = \<lambda>_. None,
     ie_write = \<lambda>p. (\<lambda>_. False, p @ ''.tmp''), ie_io_text = \<lambda>_. ''error'', ie_ser = example_ser, ie_bus = None\<rparr>"

definition example_uninstall :: uninstall_env where
  "example_uninstall = \<lparr>ue_read_manifest = Inr (), ue_parse = example_parse, ue_hash = \<lambda>_. None, ue_remove = \<lambda>_. None,
     ue_debug = concat, ue_bus = None\<rparr>"

lemmas example_install_defs = example_host_def example_site_def example_install_def example_uninstall_def

lemma example_home: "home_dir example_host = Some ''/root''"
  by (simp add: home_dir_def example_host_def)

lemma example_smooth: "smooth_uninstall (example_install src created) example_uninstall"
  by (simp add: smooth_uninstall_def example_install_def example_uninstall_def example_ser_def example_parse_def)

lemma example_mail: "has_local_mail (cf_flow example_loaded)"
  by (simp add: has_local_mail_def example_loaded_def example_raw_def flow_of_def destination_of_def example_spanned_def)

lemma example_layout:
  assumes "\<forall>p \<in> set (ip_manifest example_paths # managed_paths example_paths). now d (p @ ''.tmp'') = None"
    and "now d ''/etc/systemd/system'' = None" and "now d ''/etc/gcit'' = None"
  shows "plain_layout example_host (example_install src created) example_paths d"
  using assms
  by (simp add: plain_layout_def temp_free_def managed_paths_def install_paths_of_def example_install_defs path_parent_def
      parent_or_root_def path_starts_with_def Let_def)

lemma example_runs:
  assumes "now (hs_fs st) src = Some \<lparr>f_data = ''toml'', f_mode = mode, f_synced = synced\<rparr>"
    and "force \<or> (\<forall>p \<in> set (managed_paths example_paths). now (hs_fs st) p = None)"
  shows "\<exists>st1. install_run example_host (example_install src created) SystemScope False force False st = (EXIT_OK, st1)"
proof (rule install_succeeds [where outputs = example_outputs and st = st and home = "''/root''" and e = "[]" and created = created
      and js = "if created then ''created'' else ''found''" and cfg = "example_loaded\<lparr>lc_source_path := src\<rparr>"])
  show "build_outputs example_host (example_install src created) (example_loaded\<lparr>lc_source_path := src\<rparr>) SystemScope example_paths
      ''/usr/bin/gcit'' (hs_fs st) = Inr example_outputs"
    using assms(1) by (simp add: build_outputs_def example_outputs_def example_install_def example_host_def)
  show "force \<or> (\<forall>p \<in> set (managed_paths example_paths). \<not> path_exists example_host (hs_fs st) p)"
    using assms(2) by (simp add: path_exists_def example_host_def)
  show "ie_ser (example_install src created) (manifest_of example_host True created example_outputs) =
      Some (if created then ''created'' else ''found'')"
    by (cases created) (simp_all add: example_install_def example_ser_def manifest_of_def)
qed (simp_all add: calm_install_def example_install_def example_home example_mail)

lemma example_site_layout:
  assumes "src = ''gcit.toml'' \<or> src = ''/etc/gcit/config.toml''"
  shows "plain_layout example_host (example_install src' created) example_paths (hs_fs (example_site src))"
  by (rule example_layout) (use assms in \<open>auto simp: example_site_def managed_paths_def install_paths_of_def example_host_def\<close>)

lemma example_first_install:
  "\<exists>st1. install_run example_host (example_install ''gcit.toml'' created) SystemScope False False False (example_site ''gcit.toml'') = (EXIT_OK, st1)"
  by (rule example_runs [where mode = "0x1A0" and synced = True]) (simp_all add: example_site_def managed_paths_def install_paths_of_def example_host_def)

section \<open>Properties\<close>

text \<open>
  C26. \<open>gcit install\<close> changes nothing but its own files: with free temporary names, a file that
  differs afterwards is the manifest or one of the two units and the configuration, without \<open>--force\<close>
  only where no file was; a dry run changes nothing; and the only user ever added is the static one, in
  a system-wide install.
\<close>

theorem install_changes_only:
  assumes "install_run h env scope interactive force dry_run st = (code, st1)"
    and "home_dir h = Some home" and "paths = install_paths_of (ho_var h) scope home"
    and "temp_free h env (ip_manifest paths # managed_paths paths) (hs_fs st)"
  shows "(\<forall>q. now (hs_fs st1) q \<noteq> now (hs_fs st) q \<longrightarrow> \<not> dry_run \<and>
      (q = ho_real h (ip_manifest paths) \<or>
       (\<exists>p \<in> set (managed_paths paths). q = ho_real h p \<and> (force \<or> now (hs_fs st) q = None)))) \<and>
    (hs_users st1 = hs_users st \<or> \<not> dry_run \<and> scope = SystemScope \<and> hs_users st1 = STATIC_USER # hs_users st)"
  using install_run_cases [OF assms(1)]
proof
  assume "\<not> dry_run \<and> (\<exists>cfg paths outputs st0. reaches_writing h env scope force st cfg paths outputs st0 \<and>
    apply_install h env scope paths (has_local_mail (cf_flow cfg)) outputs st0 = (code, st1))"
  then obtain cfg outputs st0 where dry: "\<not> dry_run" and rw: "reaches_writing h env scope force st cfg paths outputs st0"
    and run: "apply_install h env scope paths (has_local_mail (cf_flow cfg)) outputs st0 = (code, st1)"
    using assms(2,3) unfolding reaches_writing_def by auto
  from rw have paths: "map of_path outputs = managed_paths paths" and st0: "hs_fs st0 = hs_fs st" "hs_users st0 = hs_users st"
    and fresh: "force \<or> (\<forall>p \<in> set (managed_paths paths). now (hs_fs st) (ho_real h p) = None)"
    using build_outputs_paths by (auto simp: reaches_writing_def path_exists_def)
  with apply_install_frame [OF run paths] assms(4) dry show ?thesis by (auto simp: image_iff)
qed simp

theorem install_changes_only_witness:
  "\<exists>st1. install_run example_host (example_install ''gcit.toml'' True) SystemScope False False False (example_site ''gcit.toml'') = (EXIT_OK, st1) \<and>
     now (hs_fs st1) ''gcit.toml'' = Some \<lparr>f_data = ''toml'', f_mode = 0x1A0, f_synced = True\<rparr>"
proof -
  obtain st1 where run: "install_run example_host (example_install ''gcit.toml'' True) SystemScope False False False (example_site ''gcit.toml'') = (EXIT_OK, st1)"
    using example_first_install by blast
  have "temp_free example_host (example_install ''gcit.toml'' True) (ip_manifest example_paths # managed_paths example_paths) (hs_fs (example_site ''gcit.toml''))"
    using example_site_layout [of "''gcit.toml''" "''gcit.toml''" True] by (simp add: plain_layout_def)
  from install_changes_only [OF run example_home refl this]
  have "now (hs_fs st1) ''gcit.toml'' = now (hs_fs (example_site ''gcit.toml'')) ''gcit.toml''"
    by (force simp: managed_paths_def install_paths_of_def example_host_def)
  with run show ?thesis by (auto simp: example_site_def)
qed

text \<open>
  C24. A manifest cannot steer \<open>gcit uninstall\<close>: whatever the manifest file says, a file that is
  gone afterwards is the manifest itself, or an entry of it that is no link, lies below the canonical
  path of an install directory and, without \<open>--force\<close>, still has the recorded hash. Users are kept.
\<close>

theorem uninstall_confined:
  assumes "uninstall_run h env scope force st = (code, st1)" and "home_dir h = Some home"
    and "paths = install_paths_of (ho_var h) scope home" and "now (hs_fs st1) q \<noteq> now (hs_fs st) q"
  shows "now (hs_fs st1) q = None \<and>
    (q = ho_real h (ip_manifest paths) \<or>
     (\<exists>m entry r canon_root f. read_manifest h env (hs_fs st) (ip_manifest paths) = Inr m \<and> entry \<in> set (mf_files m) \<and>
        q = ho_real h (me_path entry) \<and> \<not> ho_symlink h (me_path entry) \<and> r \<in> set (expected_roots paths) \<and>
        canonicalize h (hs_fs st) r = Inr canon_root \<and> path_starts_with q canon_root \<and>
        now (hs_fs st) q = Some f \<and> (force \<or> ho_sha256 h (f_data f) = me_sha256 entry)))"
proof -
  from assms(1-4) obtain m where m: "read_manifest h env (hs_fs st) (ip_manifest paths) = Inr m"
    and run: "uninstall_manifest h env scope paths force m st = (code, st1)"
    by (auto simp: uninstall_run_def Let_def split: sum.splits)
  note ch = uninstall_manifest_changes [OF run assms(4)]
  show ?thesis
  proof (cases "q = ho_real h (ip_manifest paths)")
    case False
    with ch obtain entry where entry: "entry \<in> set (mf_files m)" "q = ho_real h (me_path entry)" by auto
    from ch assms(4) obtain f where f: "now (hs_fs st) q = Some f" by fastforce
    from ch entry have valid: "validate_manifest_path h env (hs_fs st) (expected_roots paths) (me_path entry) = Inr ()"
      by (simp add: validate_entries_None)
    then have link: "\<not> ho_symlink h (me_path entry)" by (auto simp: validate_manifest_path_def split: if_splits)
    with f entry have "canonicalize h (hs_fs st) (me_path entry) = Inr q" by (simp add: canonicalize_def)
    with valid link obtain r where "r \<in> set (expected_roots paths)" "under_root h (hs_fs st) q r"
      by (auto simp: validate_manifest_path_def list_ex_iff split: if_splits)
    moreover from this(2) obtain canon_root where "canonicalize h (hs_fs st) r = Inr canon_root" "path_starts_with q canon_root"
      by (auto simp: under_root_def split: sum.splits)
    moreover have "force \<or> ho_sha256 h (f_data f) = me_sha256 entry"
    proof (rule disjCI)
      assume "\<not> (ho_sha256 h (f_data f) = me_sha256 entry)"
      then have "file_sha256 h env (hs_fs st) (me_path entry) \<noteq> Inr (me_sha256 entry)" using f entry by (auto simp: file_sha256_ok)
      moreover have "path_exists h (hs_fs st) (me_path entry)" using f entry by (simp add: path_exists_def)
      ultimately show force using ch entry(1) find_modified_none by blast
    qed
    ultimately have "read_manifest h env (hs_fs st) (ip_manifest paths) = Inr m \<and> entry \<in> set (mf_files m) \<and>
        q = ho_real h (me_path entry) \<and> \<not> ho_symlink h (me_path entry) \<and> r \<in> set (expected_roots paths) \<and>
        canonicalize h (hs_fs st) r = Inr canon_root \<and> path_starts_with q canon_root \<and>
        now (hs_fs st) q = Some f \<and> (force \<or> ho_sha256 h (f_data f) = me_sha256 entry)"
      using m entry link f by blast
    then show ?thesis using ch by metis
  qed (use ch in simp)
qed

text \<open>What a successful install that got to writing leaves behind.\<close>

definition installed ::
  "host \<Rightarrow> install_env \<Rightarrow> install_scope \<Rightarrow> install_paths \<Rightarrow> host_state \<Rightarrow> host_state \<Rightarrow> output_file list \<Rightarrow> install_manifest \<Rightarrow> string \<Rightarrow> bool"
where
  "installed h env scope paths st st1 outputs m js \<longleftrightarrow>
     map of_path outputs = managed_paths paths \<and> mf_schema_version m = MANIFEST_SCHEMA_VERSION \<and>
     mf_files m = map (\<lambda>out. \<lparr>me_path = of_path out, me_sha256 = ho_sha256 h (of_contents out), me_mode = of_mode out\<rparr>) outputs \<and>
     (\<forall>out \<in> set outputs. now (hs_fs st1) (ho_real h (of_path out)) = Some \<lparr>f_data = of_contents out, f_mode = of_mode out, f_synced = True\<rparr>) \<and>
     ie_ser env m = Some js \<and> now (hs_fs st1) (ho_real h (ip_manifest paths)) = Some \<lparr>f_data = js, f_mode = 0x180, f_synced = True\<rparr> \<and>
     (\<forall>q. q \<notin> ho_real h ` set (ip_manifest paths # managed_paths paths) \<longrightarrow> now (hs_fs st1) q = now (hs_fs st) q) \<and>
     (\<forall>cfg. ie_loaded env = Inr cfg \<longrightarrow> (mf_user_created_by_install m \<longleftrightarrow>
        has_local_mail (cf_flow cfg) \<and> scope = SystemScope \<and> (\<exists>c e. ie_useradd env = UseraddExited True c e))) \<and>
     hs_users st1 = (if mf_user_created_by_install m then STATIC_USER # hs_users st else hs_users st)"

lemma install_writes:
  assumes "install_run h env scope interactive force dry_run st = (EXIT_OK, st1)"
    and "\<not> dry_run \<and> \<not> interactive \<or> hs_fs st1 \<noteq> hs_fs st"
    and "home_dir h = Some home" and "paths = install_paths_of (ho_var h) scope home" and "plain_layout h env paths (hs_fs st)"
  shows "(force \<or> (\<forall>p \<in> set (managed_paths paths). now (hs_fs st) (ho_real h p) = None)) \<and>
    (\<exists>outputs m js. installed h env scope paths st st1 outputs m js)"
proof -
  from install_run_cases [OF assms(1)] assms(2-4) obtain cfg outputs st0
    where rw: "reaches_writing h env scope force st cfg paths outputs st0"
      and ap: "apply_install h env scope paths (has_local_mail (cf_flow cfg)) outputs st0 = (EXIT_OK, st1)"
    by (auto simp: reaches_writing_def)
  from rw have loaded: "ie_loaded env = Inr cfg" and outs: "map of_path outputs = managed_paths paths"
    and st0: "hs_fs st0 = hs_fs st" "hs_users st0 = hs_users st"
    and fresh: "force \<or> (\<forall>p \<in> set (managed_paths paths). now (hs_fs st) (ho_real h p) = None)"
    using build_outputs_paths by (auto simp: reaches_writing_def path_exists_def)
  have free: "temp_free h env (ip_manifest paths # managed_paths paths) (hs_fs st0)"
    and dist: "distinct (map (ho_real h) (ip_manifest paths # managed_paths paths))"
    using assms(5) st0 unfolding plain_layout_def by metis+
  have others: "\<forall>q. q \<notin> ho_real h ` set (ip_manifest paths # managed_paths paths) \<longrightarrow> now (hs_fs st1) q = now (hs_fs st) q"
    using apply_install_frame [OF ap outs free] st0 by auto
  have "\<exists>m js. installed h env scope paths st st1 outputs m js"
  proof (rule apply_install_ok [OF ap outs free dist])
    fix m js
    assume facts: "mf_schema_version m = MANIFEST_SCHEMA_VERSION"
        "mf_files m = map (\<lambda>out. \<lparr>me_path = of_path out, me_sha256 = ho_sha256 h (of_contents out), me_mode = of_mode out\<rparr>) outputs"
        "mf_user_created_by_install m \<longleftrightarrow> has_local_mail (cf_flow cfg) \<and> scope = SystemScope \<and> (\<exists>c e. ie_useradd env = UseraddExited True c e)"
        "hs_users st1 = (if mf_user_created_by_install m then STATIC_USER # hs_users st0 else hs_users st0)"
        "\<forall>out \<in> set outputs. now (hs_fs st1) (ho_real h (of_path out)) = Some \<lparr>f_data = of_contents out, f_mode = of_mode out, f_synced = True\<rparr>"
        "ie_ser env m = Some js" "now (hs_fs st1) (ho_real h (ip_manifest paths)) = Some \<lparr>f_data = js, f_mode = 0x180, f_synced = True\<rparr>"
    have "installed h env scope paths st st1 outputs m js"
      by (unfold installed_def, intro conjI, use facts outs others loaded st0(2) in simp_all)
    then show ?thesis by blast
  qed
  with fresh show ?thesis by blast
qed

lemma uninstall_installed:
  assumes layout: "plain_layout h env paths (hs_fs st)" and smooth: "smooth_uninstall env uenv"
    and home: "home_dir h = Some home" "paths = install_paths_of (ho_var h) scope home"
    and inst: "installed h env scope paths st st1 outputs m js"
  shows "\<exists>st2. uninstall_run h uenv scope force st1 = (EXIT_OK, st2) \<and>
    now (hs_fs st2) = (\<lambda>q. if q \<in> ho_real h ` set (ip_manifest paths # managed_paths paths) then None else now (hs_fs st) q)"
proof -
  note inst = inst [unfolded installed_def]
  have outputs: "map of_path outputs = managed_paths paths" and m: "mf_schema_version m = MANIFEST_SCHEMA_VERSION"
      "mf_files m = map (\<lambda>out. \<lparr>me_path = of_path out, me_sha256 = ho_sha256 h (of_contents out), me_mode = of_mode out\<rparr>) outputs"
    and files: "\<forall>out \<in> set outputs. now (hs_fs st1) (ho_real h (of_path out)) = Some \<lparr>f_data = of_contents out, f_mode = of_mode out, f_synced = True\<rparr>"
    and manifest: "ie_ser env m = Some js" "now (hs_fs st1) (ho_real h (ip_manifest paths)) = Some \<lparr>f_data = js, f_mode = 0x180, f_synced = True\<rparr>"
    and others: "\<forall>q. q \<notin> ho_real h ` set (ip_manifest paths # managed_paths paths) \<longrightarrow> now (hs_fs st1) q = now (hs_fs st) q"
    using inst by blast+
  have paths: "\<exists>out \<in> set outputs. of_path out = p" if "p \<in> set (managed_paths paths)" for p
    using that unfolding outputs [symmetric] by auto
  have read: "read_manifest h uenv (hs_fs st1) (ip_manifest paths) = Inr m"
    using manifest smooth by (simp add: read_manifest_def smooth_uninstall_def)
  have entry: "me_path e \<in> set (managed_paths paths)" if "e \<in> set (mf_files m)" for e
    using that m(2) unfolding outputs [symmetric] by auto
  have "validate_manifest_path h uenv (hs_fs st1) (expected_roots paths) p = Inr ()" if p: "p \<in> set (managed_paths paths)" for p
  proof -
    from layout p obtain r c where r: "\<not> ho_symlink h p" "path_parent p = Some r" "ho_canonicalize h r = Inr c"
        "path_starts_with (ho_real h p) c" "now (hs_fs st1) (ho_real h r) = None"
      using others unfolding plain_layout_def by metis
    have "r \<in> set (expected_roots paths)" using p r(2) by (auto simp: expected_roots_def managed_paths_def)
    moreover have "canonicalize h (hs_fs st1) p = Inr (ho_real h p)"
      using paths [OF p] files r(1) by (auto simp: canonicalize_def)
    moreover have "under_root h (hs_fs st1) (ho_real h p) r" using r by (simp add: under_root_def canonicalize_def)
    ultimately show ?thesis using r(1) by (auto simp: validate_manifest_path_def list_ex_iff)
  qed
  then have valid: "validate_entries h uenv (hs_fs st1) (expected_roots paths) (mf_files m) = None"
    using entry by (simp add: validate_entries_None)
  have hashes: "\<forall>e \<in> set (mf_files m). file_sha256 h uenv (hs_fs st1) (me_path e) = Inr (me_sha256 e)"
    using m(2) files smooth by (auto simp: file_sha256_ok smooth_uninstall_def)
  then have modified: "find_modified h uenv (hs_fs st1) (mf_files m) = Inr []"
    by (rule find_modified_clean)
  obtain errors st0 where rm: "remove_entries h uenv (mf_files m) st1 = (errors, st0)" by fastforce
  have errors: "errors = []"
    using remove_entries_no_errors [of "mf_files m" uenv h st1] rm layout smooth entry
    by (auto simp: plain_layout_def smooth_uninstall_def)
  have gone: "now (hs_fs st0) (ho_real h p) = None" if p: "p \<in> set (managed_paths paths)" for p
  proof -
    from paths [OF p] obtain out where "out \<in> set outputs" and out: "of_path out = p" by blast
    then have "\<lparr>me_path = of_path out, me_sha256 = ho_sha256 h (of_contents out), me_mode = of_mode out\<rparr> \<in> set (mf_files m)"
      using m(2) by auto
    from remove_entries_gone [OF rm [unfolded errors] this] out show ?thesis by simp
  qed
  have kept: "now (hs_fs st0) q = now (hs_fs st1) q" if "q \<notin> ho_real h ` set (managed_paths paths)" for q
    using remove_entries_frame [OF rm, of q] that entry by auto
  have mp: "now (hs_fs st0) (ho_real h (ip_manifest paths)) = now (hs_fs st1) (ho_real h (ip_manifest paths))"
    using kept layout by (auto simp: plain_layout_def managed_paths_def)
  define d2 where "d2 = (hs_fs st0)\<lparr>now := (now (hs_fs st0))(ho_real h (ip_manifest paths) := None)\<rparr>"
  have rf: "remove_file h uenv (ip_manifest paths) (hs_fs st0) = (Inr (), d2)"
    using mp manifest(2) smooth by (simp add: remove_file_def smooth_uninstall_def d2_def)
  have "\<exists>st2. remove_managed h uenv scope (ip_manifest paths) m st1 = (EXIT_OK, st2) \<and> hs_fs st2 = d2"
    using rm errors rf mp manifest(2) by (simp add: remove_managed_def path_exists_def Let_def)
  then obtain st2 where run: "remove_managed h uenv scope (ip_manifest paths) m st1 = (EXIT_OK, st2)" and st2: "hs_fs st2 = d2"
    by blast
  have "uninstall_run h uenv scope force st1 = (EXIT_OK, st2)"
    using home read m(1) valid modified run by (simp add: uninstall_run_def uninstall_manifest_def)
  moreover have "now d2 q = (if q \<in> ho_real h ` set (ip_manifest paths # managed_paths paths) then None else now (hs_fs st) q)" for q
    using gone kept others by (auto simp: d2_def)
  ultimately show ?thesis using st2 by blast
qed

text \<open>
  C25. \<open>gcit uninstall\<close> reverses \<open>gcit install\<close>: on a plain layout, after an install without
  \<open>--force\<close> that wrote its files and where no earlier manifest was, an uninstall that meets no error
  succeeds and leaves exactly the files that were there before.
\<close>

theorem install_uninstall_roundtrip:
  assumes "install_run h env scope interactive False dry_run st = (EXIT_OK, st1)" and "hs_fs st1 \<noteq> hs_fs st"
    and "home_dir h = Some home" and "paths = install_paths_of (ho_var h) scope home"
    and "plain_layout h env paths (hs_fs st)" and "now (hs_fs st) (ho_real h (ip_manifest paths)) = None"
    and "smooth_uninstall env uenv"
  shows "\<exists>st2. uninstall_run h uenv scope force st1 = (EXIT_OK, st2) \<and> now (hs_fs st2) = now (hs_fs st)"
proof -
  from install_writes [OF assms(1) disjI2 [OF assms(2)] assms(3-5)] obtain outputs m js
    where fresh: "\<forall>p \<in> set (managed_paths paths). now (hs_fs st) (ho_real h p) = None"
      and inst: "installed h env scope paths st st1 outputs m js" by auto
  from uninstall_installed [OF assms(5,7,3,4) inst] obtain st2 where "uninstall_run h uenv scope force st1 = (EXIT_OK, st2)"
    and st2: "now (hs_fs st2) = (\<lambda>q. if q \<in> ho_real h ` set (ip_manifest paths # managed_paths paths) then None else now (hs_fs st) q)"
    by blast
  moreover have "now (hs_fs st2) = now (hs_fs st)" using fresh assms(6) by (auto simp: st2 fun_eq_iff)
  ultimately show ?thesis by blast
qed

lemma example_installed_changes:
  assumes "install_run example_host (example_install ''gcit.toml'' created) SystemScope False False False (example_site ''gcit.toml'') = (EXIT_OK, st1)"
  shows "now (hs_fs st1) ''/etc/gcit/config.toml'' \<noteq> None" and "hs_fs st1 \<noteq> hs_fs (example_site ''gcit.toml'')"
proof -
  obtain outputs m js where inst: "installed example_host (example_install ''gcit.toml'' created) SystemScope example_paths (example_site ''gcit.toml'') st1 outputs m js"
    using install_writes [OF assms _ example_home refl example_site_layout] by auto
  have "''/etc/gcit/config.toml'' \<in> set (map of_path outputs)"
    using inst by (simp add: installed_def managed_paths_def install_paths_of_def del: set_map)
  then obtain out where "out \<in> set outputs" "of_path out = ''/etc/gcit/config.toml''" by auto
  with inst show cfg: "now (hs_fs st1) ''/etc/gcit/config.toml'' \<noteq> None" by (auto simp: installed_def example_host_def)
  then show "hs_fs st1 \<noteq> hs_fs (example_site ''gcit.toml'')" by (auto simp: example_site_def)
qed

theorem install_uninstall_roundtrip_witness:
  "\<exists>st1 st2. install_run example_host (example_install ''gcit.toml'' True) SystemScope False False False (example_site ''gcit.toml'') = (EXIT_OK, st1) \<and>
     uninstall_run example_host example_uninstall SystemScope False st1 = (EXIT_OK, st2) \<and> now (hs_fs st1) ''/etc/gcit/config.toml'' \<noteq> None \<and>
     now (hs_fs st2) = [''gcit.toml'' \<mapsto> \<lparr>f_data = ''toml'', f_mode = 0x1A0, f_synced = True\<rparr>]"
proof -
  obtain st1 where run: "install_run example_host (example_install ''gcit.toml'' True) SystemScope False False False (example_site ''gcit.toml'') = (EXIT_OK, st1)"
    using example_first_install by blast
  have none: "now (hs_fs (example_site ''gcit.toml'')) (ho_real example_host (ip_manifest example_paths)) = None"
    by (simp add: example_site_def example_host_def install_paths_of_def)
  from install_uninstall_roundtrip [OF run example_installed_changes(2) [OF run] example_home refl example_site_layout none example_smooth, of False]
  obtain st2 where "uninstall_run example_host example_uninstall SystemScope False st1 = (EXIT_OK, st2)"
    and "now (hs_fs st2) = now (hs_fs (example_site ''gcit.toml''))" by auto
  with run example_installed_changes(1) [OF run] show ?thesis by (auto simp: example_site_def)
qed

text \<open>
  A second install forgets that the first one created the static user: when \<open>useradd\<close> finds
  the account the first run added, the new manifest says that it was there before, and \<open>gcit uninstall\<close>
  will not offer to remove it.
\<close>

theorem reinstall_forgets_created_user:
  assumes "install_run h env1 SystemScope False force False st = (EXIT_OK, st1)"
    and "ie_loaded env1 = Inr cfg1" "has_local_mail (cf_flow cfg1)" "ie_useradd env1 = UseraddExited True c1 e1"
    and "install_run h env2 SystemScope False True False st1 = (EXIT_OK, st2)"
    and "ie_loaded env2 = Inr cfg2" "has_local_mail (cf_flow cfg2)" "ie_useradd env2 = UseraddExited False (Some 9) e2"
    and "home_dir h = Some home" and "paths = install_paths_of (ho_var h) SystemScope home"
    and "plain_layout h env1 paths (hs_fs st)" and "plain_layout h env2 paths (hs_fs st1)"
  shows "hs_users st1 = ''gcit'' # hs_users st \<and> hs_users st2 = hs_users st1 \<and>
    (\<exists>m js. ie_ser env2 m = Some js \<and> map_option f_data (now (hs_fs st2) (ho_real h (ip_manifest paths))) = Some js \<and>
       \<not> mf_user_created_by_install m)"
proof -
  from install_writes [OF assms(1) _ assms(9,10,11)] obtain outputs1 m1 js1
    where "installed h env1 SystemScope paths st st1 outputs1 m1 js1" by auto
  with assms(2-4) have first: "hs_users st1 = ''gcit'' # hs_users st" by (simp add: installed_def STATIC_USER_def)
  from install_writes [OF assms(5) _ assms(9,10,12)] obtain outputs2 m2 js2
    where "installed h env2 SystemScope paths st1 st2 outputs2 m2 js2" by auto
  with assms(6-8) have "ie_ser env2 m2 = Some js2" "\<not> mf_user_created_by_install m2" "hs_users st2 = hs_users st1"
      "map_option f_data (now (hs_fs st2) (ho_real h (ip_manifest paths))) = Some js2"
    by (simp_all add: installed_def)
  with first show ?thesis by blast
qed

theorem reinstall_forgets_created_user_witness:
  "\<exists>st1 st2. install_run example_host (example_install ''gcit.toml'' True) SystemScope False False False (example_site ''gcit.toml'') = (EXIT_OK, st1) \<and>
     install_run example_host (example_install ''gcit.toml'' False) SystemScope False True False st1 = (EXIT_OK, st2) \<and>
     hs_users st1 = [''gcit''] \<and> hs_users st2 = [''gcit''] \<and>
     (\<exists>m js. example_ser m = Some js \<and> map_option f_data (now (hs_fs st2) ''/var/lib/gcit/.install-manifest.json'') = Some js \<and>
        \<not> mf_user_created_by_install m)"
proof -
  obtain st1 where run1: "install_run example_host (example_install ''gcit.toml'' True) SystemScope False False False (example_site ''gcit.toml'') = (EXIT_OK, st1)"
    using example_first_install by blast
  obtain outputs m js where "installed example_host (example_install ''gcit.toml'' True) SystemScope example_paths (example_site ''gcit.toml'') st1 outputs m js"
    using install_writes [OF run1 _ example_home refl example_site_layout] by auto
  then have kept: "now (hs_fs st1) q = now (hs_fs (example_site ''gcit.toml'')) q" if "q \<notin> set (ip_manifest example_paths # managed_paths example_paths)" for q
    using that by (simp add: installed_def example_host_def)
  have layout: "plain_layout example_host (example_install ''gcit.toml'' False) example_paths (hs_fs st1)"
    by (rule example_layout) (simp_all add: kept managed_paths_def install_paths_of_def example_site_def)
  have "now (hs_fs st1) ''gcit.toml'' = Some \<lparr>f_data = ''toml'', f_mode = 0x1A0, f_synced = True\<rparr>"
    by (simp add: kept managed_paths_def install_paths_of_def example_site_def)
  then obtain st2 where run2: "install_run example_host (example_install ''gcit.toml'' False) SystemScope False True False st1 = (EXIT_OK, st2)"
    using example_runs by blast
  have "hs_users st1 = ''gcit'' # hs_users (example_site ''gcit.toml'') \<and> hs_users st2 = hs_users st1 \<and>
    (\<exists>m js. ie_ser (example_install ''gcit.toml'' False) m = Some js \<and>
       map_option f_data (now (hs_fs st2) (ho_real example_host (ip_manifest example_paths))) = Some js \<and> \<not> mf_user_created_by_install m)"
    by (rule reinstall_forgets_created_user [OF run1 _ _ _ run2 _ _ _ example_home refl example_site_layout layout,
          where ?cfg1.0 = "example_loaded\<lparr>lc_source_path := ''gcit.toml''\<rparr>" and ?cfg2.0 = "example_loaded\<lparr>lc_source_path := ''gcit.toml''\<rparr>"])
       (simp_all add: example_install_def example_mail)
  with run1 run2 show ?thesis by (auto simp: example_install_def example_site_def example_host_def install_paths_of_def)
qed

text \<open>
  The configuration that is already in its place: an install that reads the file it would
  write (as with \<open>gcit install --system --config /etc/gcit/config.toml\<close>) is refused without \<open>--force\<close>
  and writes nothing; with \<open>--force\<close>, the uninstall that follows removes the operator's own file.
\<close>

theorem installed_config_refused_then_removed:
  assumes "ie_loaded env = Inr cfg" and "home_dir h = Some home" and "paths = install_paths_of (ho_var h) scope home"
    and "ho_real h (lc_source_path cfg) = ho_real h (ip_config paths)" and "now (hs_fs st) (ho_real h (ip_config paths)) = Some f"
    and "plain_layout h env paths (hs_fs st)" and "smooth_uninstall env uenv"
  shows "(\<forall>code st1. install_run h env scope interactive False False st = (code, st1) \<longrightarrow> code \<noteq> EXIT_OK \<and> hs_fs st1 = hs_fs st) \<and>
    (\<forall>st1. install_run h env scope False True False st = (EXIT_OK, st1) \<longrightarrow>
       (\<exists>st2. uninstall_run h uenv scope False st1 = (EXIT_OK, st2) \<and> now (hs_fs st2) (ho_real h (ip_config paths)) = None))"
proof (intro conjI allI impI)
  fix code st1 assume run: "install_run h env scope interactive False False st = (code, st1)"
  have "\<not> reaches_writing h env scope False st cfg' paths' outputs st0" for cfg' paths' outputs st0
    using assms(2,3,5) by (auto simp: reaches_writing_def managed_paths_def path_exists_def)
  with install_run_cases [OF run] assms(2,3,5) show "code \<noteq> EXIT_OK" and "hs_fs st1 = hs_fs st"
    by (auto simp: path_exists_def)
next
  fix st1 assume run: "install_run h env scope False True False st = (EXIT_OK, st1)"
  from install_writes [OF run _ assms(2,3,6)] obtain outputs m js where "installed h env scope paths st st1 outputs m js" by auto
  from uninstall_installed [OF assms(6,7,2,3) this, of False]
  show "\<exists>st2. uninstall_run h uenv scope False st1 = (EXIT_OK, st2) \<and> now (hs_fs st2) (ho_real h (ip_config paths)) = None"
    by (auto simp: managed_paths_def)
qed

theorem installed_config_refused_then_removed_witness:
  "\<exists>st1 st2. hs_fs (snd (install_run example_host (example_install ''/etc/gcit/config.toml'' True) SystemScope True False False
       (example_site ''/etc/gcit/config.toml''))) = hs_fs (example_site ''/etc/gcit/config.toml'') \<and>
     install_run example_host (example_install ''/etc/gcit/config.toml'' True) SystemScope False True False (example_site ''/etc/gcit/config.toml'') = (EXIT_OK, st1) \<and>
     uninstall_run example_host example_uninstall SystemScope False st1 = (EXIT_OK, st2) \<and> now (hs_fs st2) ''/etc/gcit/config.toml'' = None"
proof -
  let ?env = "example_install ''/etc/gcit/config.toml'' True" and ?st = "example_site ''/etc/gcit/config.toml''"
  have there: "now (hs_fs ?st) ''/etc/gcit/config.toml'' = Some \<lparr>f_data = ''toml'', f_mode = 0x1A0, f_synced = True\<rparr>"
    by (simp add: example_site_def)
  then obtain st1 where run: "install_run example_host ?env SystemScope False True False ?st = (EXIT_OK, st1)" using example_runs by blast
  have real: "ho_real example_host (ip_config example_paths) = ''/etc/gcit/config.toml''" by (simp add: example_host_def install_paths_of_def)
  have src: "ho_real example_host (lc_source_path (example_loaded\<lparr>lc_source_path := ''/etc/gcit/config.toml''\<rparr>)) = ho_real example_host (ip_config example_paths)"
    by (simp add: example_host_def install_paths_of_def)
  have loaded: "ie_loaded ?env = Inr (example_loaded\<lparr>lc_source_path := ''/etc/gcit/config.toml''\<rparr>)" by (simp add: example_install_def)
  have at: "now (hs_fs ?st) (ho_real example_host (ip_config example_paths)) = Some \<lparr>f_data = ''toml'', f_mode = 0x1A0, f_synced = True\<rparr>"
    using there by (simp only: real)
  have layout: "plain_layout example_host ?env example_paths (hs_fs ?st)" by (rule example_site_layout) simp
  note both = installed_config_refused_then_removed [OF loaded example_home refl src at layout example_smooth, of True]
  from both run obtain st2 where "uninstall_run example_host example_uninstall SystemScope False st1 = (EXIT_OK, st2)"
    "now (hs_fs st2) ''/etc/gcit/config.toml'' = None" by (auto simp: real)
  moreover have "hs_fs (snd (install_run example_host ?env SystemScope True False False ?st)) = hs_fs ?st"
    using both by (cases "install_run example_host ?env SystemScope True False False ?st") auto
  ultimately show ?thesis using run by blast
qed

theorem uninstall_confined_witness:
  "\<exists>st1 st2. uninstall_run example_host example_uninstall SystemScope False st1 = (EXIT_OK, st2) \<and>
     now (hs_fs st1) ''/etc/gcit/config.toml'' \<noteq> None \<and> now (hs_fs st2) ''/etc/gcit/config.toml'' = None \<and>
     (\<exists>r \<in> set (expected_roots example_paths). path_starts_with ''/etc/gcit/config.toml'' r)"
proof -
  obtain st1 where run: "install_run example_host (example_install ''gcit.toml'' True) SystemScope False False False (example_site ''gcit.toml'') = (EXIT_OK, st1)"
    using example_first_install by blast
  note there = example_installed_changes(1) [OF run]
  obtain outputs m js where "installed example_host (example_install ''gcit.toml'' True) SystemScope example_paths (example_site ''gcit.toml'') st1 outputs m js"
    using install_writes [OF run _ example_home refl example_site_layout] by auto
  from uninstall_installed [OF example_site_layout example_smooth example_home refl this, of False] obtain st2
    where un: "uninstall_run example_host example_uninstall SystemScope False st1 = (EXIT_OK, st2)"
      and gone: "now (hs_fs st2) ''/etc/gcit/config.toml'' = None" by (auto simp: managed_paths_def install_paths_of_def example_host_def)
  have differs: "now (hs_fs st2) ''/etc/gcit/config.toml'' \<noteq> now (hs_fs st1) ''/etc/gcit/config.toml''" using there gone by auto
  have "''/etc/gcit/config.toml'' \<noteq> ho_real example_host (ip_manifest example_paths)" by (simp add: example_host_def install_paths_of_def)
  with uninstall_confined [OF un example_home refl differs] obtain r canon_root where "r \<in> set (expected_roots example_paths)"
      "canonicalize example_host (hs_fs st1) r = Inr canon_root" "path_starts_with ''/etc/gcit/config.toml'' canon_root" by auto
  moreover from this(2) have "canon_root = r" by (simp add: canonicalize_def example_host_def split: if_splits)
  ultimately show ?thesis using un there gone by blast
qed

end
