(* ===== verification/Flow_Setup.thy ===== *)
theory Flow_Setup
  imports Credentials Mail Discord
begin

text \<open>
  What the supervisor prepares before it starts a flow's tasks
  (\<open>src/src/flow/supervisor/flows/mod.rs\<close>, \<open>notifiers.rs\<close>, \<open>state.rs\<close>): notifiers, credential
  resources, the politeness bucket of the source host, and the parameters of the two tasks.
\<close>

section \<open>Source politeness buckets\<close>

definition SOURCE_POLITENESS_INTERVAL :: duration where
  [model_defs]: "SOURCE_POLITENESS_INTERVAL = 250 * 1000000"

definition extract_host_or_url_as_key :: "(string \<Rightarrow> string + parsed_url) \<Rightarrow> string \<Rightarrow> string" where
  "extract_host_or_url_as_key url_parse url =
     (case url_parse url of
        Inr parsed \<Rightarrow> (case url_host parsed of Some host \<Rightarrow> host | None \<Rightarrow> url)
      | Inl _ \<Rightarrow> url)"

text \<open>Parsing as \<open>auto_detect\<close> uses it: whether it succeeds, and the host.\<close>

definition host_lookup :: "(string \<Rightarrow> string + parsed_url) \<Rightarrow> string \<Rightarrow> string option option" where
  "host_lookup url_parse url = (case url_parse url of Inr parsed \<Rightarrow> Some (url_host parsed) | Inl _ \<Rightarrow> None)"

text \<open>A bucket is shared by reference; its key in the map names it.\<close>

definition source_bucket_for_url ::
  "(string \<Rightarrow> string + parsed_url) \<Rightarrow> string \<Rightarrow> (string \<rightharpoonup> rate_bucket) \<Rightarrow> (string \<rightharpoonup> rate_bucket) \<times> string" where
  "source_bucket_for_url url_parse url buckets =
     (let key = extract_host_or_url_as_key url_parse url
      in (case buckets key of
            Some _ \<Rightarrow> buckets
          | None \<Rightarrow> buckets(key \<mapsto> rate_bucket_new SOURCE_POLITENESS_INTERVAL), key))"

section \<open>Notifiers\<close>

datatype notifier = DiscordN discord_notifier | MailN mail_notifier

record 'octo setup_env =
  su_process :: process_env
  su_url_parse :: "string \<Rightarrow> string + parsed_url"
  su_octo_build :: "'octo octo_builder"
  su_hostname :: string

definition build_notifier ::
  "'octo setup_env \<Rightarrow> string \<Rightarrow> nat \<Rightarrow> destination \<Rightarrow> 'octo credential_pool \<Rightarrow> 'octo credential_pool \<times> (string + notifier)" where
  "build_notifier env flow_name idx dest pool =
     (let nid = flow_name @ ''.dest'' @ show_nat idx
      in case dest of
           DiscordWebhook credential fire_on template \<Rightarrow>
            (case resolve_secret (su_process env) credential pool of
               (pool, Inl e) \<Rightarrow> (pool, Inl (''discord credential: '' @ e))
             | (pool, Inr url_secret) \<Rightarrow>
                (pool, case parse_webhook_url (su_url_parse env) url_secret of
                         Inl e \<Rightarrow> Inl (''discord webhook URL: '' @ parse_webhook_url_error_message e)
                       | Inr parsed \<Rightarrow> Inr (DiscordN \<lparr>dn_id = nid, dn_parsed = parsed, dn_fire_on = fire_on, dn_template = template\<rparr>)))
         | LocalMail user fire_on template \<Rightarrow>
            (pool, case local_mail_notifier_new nid user (su_hostname env) fire_on template of
                     Inl e \<Rightarrow> Inl (''local_mail user: '' @ user_error_message e)
                   | Inr n \<Rightarrow> Inr (MailN n)))"

fun build_notifiers_from ::
  "'octo setup_env \<Rightarrow> string \<Rightarrow> nat \<Rightarrow> destination list \<Rightarrow> 'octo credential_pool
     \<Rightarrow> 'octo credential_pool \<times> (string + notifier list)"
where
  "build_notifiers_from env flow_name idx [] pool = (pool, Inr [])"
| "build_notifiers_from env flow_name idx (dest # dests) pool =
     (case build_notifier env flow_name idx dest pool of
        (pool, Inl e) \<Rightarrow> (pool, Inl e)
      | (pool, Inr n) \<Rightarrow>
         (case build_notifiers_from env flow_name (Suc idx) dests pool of
            (pool, Inl e) \<Rightarrow> (pool, Inl e)
          | (pool, Inr ns) \<Rightarrow> (pool, Inr (n # ns))))"

definition build_notifiers ::
  "'octo setup_env \<Rightarrow> 'j flow_config \<Rightarrow> 'octo credential_pool \<Rightarrow> 'octo credential_pool \<times> (string + notifier list)" where
  "build_notifiers env flow pool = build_notifiers_from env (fc_name flow) 0 (fc_destination flow) pool"

section \<open>Task parameters\<close>

fun action_credential :: "action_config \<Rightarrow> string" where
  "action_credential (GithubWorkflowDispatch _ _ _ _ credential_id) = credential_id"

definition build_poll_params :: "'j flow_config \<Rightarrow> 'j effective_poll \<Rightarrow> 'j poll_params" where
  "build_poll_params flow effective =
     \<lparr>pp_flow_name = fc_name flow, pp_url = src_url (fc_source flow), pp_ref_name = src_ref (fc_source flow),
      pp_effective = effective, pp_rate_bucket = True\<rparr>"

definition build_dispatcher_params :: "'j flow_config \<Rightarrow> 'j effective_poll \<Rightarrow> flow_dispatch_params" where
  "build_dispatcher_params flow effective =
     \<lparr>fd_flow_name = fc_name flow, fd_flow_description = fc_description flow, fd_url = src_url (fc_source flow),
      fd_ref_name = src_ref (fc_source flow), fd_action = fc_action flow, fd_job_interval = job_interval effective\<rparr>"

text \<open>Malformed hex in the mirror counts as no SHA; \<open>valid_hex\<close> is the check of \<open>gix_hash\<close>.\<close>

definition read_persisted_last_sha :: "(string \<Rightarrow> bool) \<Rightarrow> state \<Rightarrow> string \<Rightarrow> string option" where
  "read_persisted_last_sha valid_hex mirror flow_name =
     (case flows mirror flow_name of
        None \<Rightarrow> None
      | Some entry \<Rightarrow> (case last_sha entry of None \<Rightarrow> None | Some hex \<Rightarrow> if valid_hex hex then Some hex else None))"

definition read_persisted_last_dispatched_at :: "state \<Rightarrow> string \<Rightarrow> instant option" where
  "read_persisted_last_dispatched_at mirror flow_name =
     (case flows mirror flow_name of None \<Rightarrow> None | Some entry \<Rightarrow> last_dispatched_at entry)"

text \<open>The payload of a panic, by the type it can be downcast to.\<close>

datatype panic_payload = StaticStr string | OwnedString string | OtherPayload

fun panic_payload_to_string :: "panic_payload \<Rightarrow> string" where
  "panic_payload_to_string (StaticStr s) = s"
| "panic_payload_to_string (OwnedString s) = s"
| "panic_payload_to_string OtherPayload = ''(panic payload not stringifiable)''"

section \<open>Lemmas\<close>

lemma build_notifier_pool:
  assumes "build_notifier env f i dest pool = (pool', r)"
  shows "cp_by_id pool' = cp_by_id pool" "cp_cancelled pool' = cp_cancelled pool" "pool_wf pool \<Longrightarrow> pool_wf pool'"
proof -
  have "pool' = pool \<or> (\<exists>c s. resolve_secret (su_process env) c pool = (pool', s))"
    using assms by (auto simp: build_notifier_def Let_def split: destination.splits prod.splits sum.splits)
  then show "cp_by_id pool' = cp_by_id pool" "cp_cancelled pool' = cp_cancelled pool" "pool_wf pool \<Longrightarrow> pool_wf pool'"
    by (auto dest: resolve_secret_frame pool_wf_resolve)
qed

lemma build_notifiers_from_pool:
  assumes "build_notifiers_from env f i dests pool = (pool', r)"
  shows "cp_by_id pool' = cp_by_id pool \<and> cp_cancelled pool' = cp_cancelled pool \<and> (pool_wf pool \<longrightarrow> pool_wf pool')"
  using assms
proof (induction env f i dests pool arbitrary: pool' r rule: build_notifiers_from.induct)
  case (2 env f i dest dests pool)
  obtain pool1 r1 where b: "build_notifier env f i dest pool = (pool1, r1)" by fastforce
  note frame = build_notifier_pool [OF b]
  show ?case
  proof (cases r1)
    case (Inl e)
    with 2(2) b frame show ?thesis by auto
  next
    case (Inr n)
    obtain pool2 r2 where b2: "build_notifiers_from env f (Suc i) dests pool1 = (pool2, r2)" by fastforce
    with 2(1) [OF b [symmetric] Inr b2] 2(2) b Inr frame show ?thesis by (auto split: sum.splits)
  qed
qed auto

lemmas build_notifiers_pool = build_notifiers_from_pool [folded build_notifiers_def]

text \<open>What acquiring a credential leaves: resources cached before stay, the new ones are not cancelled.\<close>

lemma acquire_github_pool:
  assumes "acquire_github octo_build env timeout cid pool = (pool', res)" and "pool_wf pool"
  shows "pool_wf pool'" "\<And>c r. cp_by_id pool c = Some r \<Longrightarrow> cp_by_id pool' c = Some r"
    "res = Inr r \<Longrightarrow> cp_by_id pool' cid = Some r"
proof -
  show "pool_wf pool'" using assms(2,1) by (rule pool_wf_acquire)
  show "cp_by_id pool' c = Some r" if "cp_by_id pool c = Some r" for c r
    using pool_step_keeps [OF that, of "AcquireGithub octo_build env timeout cid"] assms(1) by simp
  show "cp_by_id pool' cid = Some r" if "res = Inr r"
    using assms(1) that by (cases rule: acquire_github_cases) (auto simp: resolve_secret_frame)
qed

end
