(* ===== verification/Supervisor.thy ===== *)
theory Supervisor
  imports Flow_Setup "HOL-Library.AList" "HOL-Library.List_Lexorder" "HOL-Library.Char_ord"
    "HOL-Library.Multiset"
begin

text \<open>
  The supervisor's bookkeeping of flow tasks (\<open>src/src/flow/supervisor\<close>): the registry
  (\<open>types.rs\<close>), spawning a flow (\<open>flows/mod.rs\<close>), reacting to task exits and respawn requests
  (\<open>respawn\<close>), and configuration reload (\<open>reload\<close>). A \<open>BTreeMap\<close> that is iterated is an
  association list with distinct keys. Tokens are generation numbers: a flow's poll and dispatcher
  task belong to the generation whose token they were given. The \<open>JoinSet\<close> is the list of running
  tasks. The configuration in force (\<open>config_watch\<close>) is part of the state.
\<close>

section \<open>What changed\<close>

text \<open>
  The code sorts the JSON texts of the destinations, each with its \<open>fire_on\<close> array sorted, and
  compares the lists: destinations are compared as a multiset and their events too.
\<close>

datatype canonical_destination =
    CanonDiscord string "fire_event multiset" discord_template
  | CanonMail string "fire_event multiset" mail_template

fun canonicalize_fire_on :: "destination \<Rightarrow> canonical_destination" where
  "canonicalize_fire_on (DiscordWebhook c es t) = CanonDiscord c (mset es) t"
| "canonicalize_fire_on (LocalMail u es t) = CanonMail u (mset es) t"

definition canonical_destination_multiset :: "destination list \<Rightarrow> canonical_destination multiset" where
  "canonical_destination_multiset ds = mset (map canonicalize_fire_on ds)"

definition flow_diff :: "'j flow_config \<Rightarrow> source_config \<times> action_config \<times> 'j poll_override" where
  "flow_diff f = (fc_source f, fc_action f, fc_poll f)"

definition flow_config_unchanged :: "'j flow_config \<Rightarrow> 'j flow_config \<Rightarrow> bool" where
  "flow_config_unchanged old new \<longleftrightarrow>
     fc_enabled old = fc_enabled new \<and> flow_diff old = flow_diff new \<and>
     canonical_destination_multiset (fc_destination old) = canonical_destination_multiset (fc_destination new)"

datatype reload_action =
    Keep string
  | Remove string bool
  | Disable string bool
  | Restart string bool
  | Spawn string

definition url_changed :: "'j flow_config \<Rightarrow> 'j flow_config \<Rightarrow> bool" where
  "url_changed old new \<longleftrightarrow> src_url (fc_source old) \<noteq> src_url (fc_source new)"

text \<open>The arms of the \<open>match\<close>, in their order; the name is in one of the three collections.\<close>

definition reload_action_for ::
  "'j flow_config option \<Rightarrow> 'j flow_config option \<Rightarrow> bool \<Rightarrow> string \<Rightarrow> reload_action list" where
  "reload_action_for new old live name =
     (case (new, old, live) of
        (None, Some _, live_handle) \<Rightarrow> [Remove name live_handle]
      | (None, None, True) \<Rightarrow> [Remove name True]
      | (None, None, False) \<Rightarrow> []
      | (Some nf, Some f, True) \<Rightarrow>
          if \<not> fc_enabled nf then [Disable name (url_changed f nf)]
          else if flow_config_unchanged f nf then [Keep name]
          else [Restart name (url_changed f nf)]
      | (Some nf, None, True) \<Rightarrow> if \<not> fc_enabled nf then [Disable name False] else [Restart name False]
      | (Some nf, _, False) \<Rightarrow> if \<not> fc_enabled nf then [] else [Spawn name])"

definition compute_reload_actions ::
  "(string \<times> 'j flow_config) list \<Rightarrow> (string \<times> 'j flow_config) list \<Rightarrow> string list \<Rightarrow> reload_action list" where
  "compute_reload_actions old_flows new_flows live_handles =
     concat (map (\<lambda>name. reload_action_for (map_of new_flows name) (map_of old_flows name) (name \<in> set live_handles) name)
       (sort (remdups (map fst old_flows @ map fst new_flows @ live_handles))))"

section \<open>Registry\<close>

datatype flow_role = Poll | Dispatcher

record task =
  t_flow :: string
  t_gen :: nat
  t_role :: flow_role

record registry =
  rg_handles :: "(string \<times> nat) list"
  rg_respawning :: "string set"
  rg_pending_exits :: "string \<rightharpoonup> 8 word"

definition registry_new :: registry where
  "registry_new = \<lparr>rg_handles = [], rg_respawning = {}, rg_pending_exits = Map.empty\<rparr>"

text \<open>
  What the supervisor owns: the configuration, the registry, the respawn requests whose delay is
  running, the control surface's copy of the flow names, the running tasks, the cancelled tokens, the
  last errors, the updates it sent to the writer, the parameters each spawned generation was given,
  the credential pool and the politeness buckets.
\<close>

record 'j generation =
  gn_flow :: string
  gn_gen :: nat
  gn_poll :: "'j poll_params"
  gn_source_bucket :: string
  gn_last_sha :: "string option"
  gn_last_dispatched_at :: "instant option"
  gn_dispatch :: flow_dispatch_params
  gn_notifiers :: "notifier list"
  gn_rate_limit_cancel :: nat

record respawn_request =
  rq_flow :: string
  rq_attempts :: nat

record ('j, 'octo) supervisor =
  sv_config :: "'j config"
  sv_registry :: registry
  sv_watchers :: "respawn_request list"
  sv_flow_names :: "string list"
  sv_tasks :: "task list"
  sv_cancelled :: "nat set"
  sv_next_gen :: nat
  sv_errors :: last_errors
  sv_updates :: "string state_update list"
  sv_generations :: "'j generation list"
  sv_pool :: "'octo credential_pool"
  sv_source_buckets :: "string \<rightharpoonup> rate_bucket"

section \<open>Spawning\<close>

record 'octo spawn_env =
  sp_setup :: "'octo setup_env"
  sp_valid_hex :: "string \<Rightarrow> bool"
  sp_mirror :: state
  sp_now :: instant

definition record_setup_failure_and_skip ::
  "instant \<Rightarrow> string \<Rightarrow> string \<Rightarrow> string \<Rightarrow> ('j, 'octo) supervisor \<Rightarrow> ('j, 'octo) supervisor" where
  "record_setup_failure_and_skip now flow kind err sv =
     sv\<lparr>sv_errors := record_last_error (sv_errors sv) flow now kind (''flow '' @ backquoted flow @ '': '' @ err) None\<rparr>"

text \<open>\<open>pending_exits\<close> counts in a \<open>u8\<close>; without overflow checks the addition wraps.\<close>

definition count_pending :: "string \<Rightarrow> registry \<Rightarrow> registry" where
  "count_pending name r =
     r\<lparr>rg_pending_exits := (rg_pending_exits r)(name \<mapsto> (case rg_pending_exits r name of None \<Rightarrow> 0 | Some n \<Rightarrow> n) + 2)\<rparr>"

definition insert_handle :: "string \<Rightarrow> nat \<Rightarrow> registry \<Rightarrow> registry" where
  "insert_handle name g r = r\<lparr>rg_handles := AList.update name g (rg_handles r)\<rparr>"

definition start_tasks ::
  "'octo spawn_env \<Rightarrow> 'j config \<Rightarrow> 'j flow_config \<Rightarrow> notifier list \<Rightarrow> 'octo github_resources \<Rightarrow> ('j, 'octo) supervisor
     \<Rightarrow> ('j, 'octo) supervisor"
where
  "start_tasks env config flow notifiers cred_resources sv =
     (let g = sv_next_gen sv; name = fc_name flow;
          effective = effective_poll_compute (cf_poll config) (fc_poll flow) (auto_detect (host_lookup (su_url_parse (sp_setup env))) (src_url (fc_source flow)));
          (buckets, key) = source_bucket_for_url (su_url_parse (sp_setup env)) (src_url (fc_source flow)) (sv_source_buckets sv)
      in sv\<lparr>sv_next_gen := Suc g, sv_source_buckets := buckets,
            sv_generations := sv_generations sv @
              [\<lparr>gn_flow = name, gn_gen = g, gn_poll = build_poll_params flow effective, gn_source_bucket = key,
                gn_last_sha = read_persisted_last_sha (sp_valid_hex env) (sp_mirror env) name,
                gn_last_dispatched_at = read_persisted_last_dispatched_at (sp_mirror env) name,
                gn_dispatch = build_dispatcher_params flow effective, gn_notifiers = notifiers,
                gn_rate_limit_cancel = gr_rate_limit_cancel cred_resources\<rparr>],
            sv_tasks := sv_tasks sv @ [\<lparr>t_flow = name, t_gen = g, t_role = Poll\<rparr>, \<lparr>t_flow = name, t_gen = g, t_role = Dispatcher\<rparr>],
            sv_registry := count_pending name (insert_handle name g (sv_registry sv))\<rparr>)"

definition spawn_flow ::
  "'octo spawn_env \<Rightarrow> 'j config \<Rightarrow> 'j flow_config \<Rightarrow> ('j, 'octo) supervisor \<Rightarrow> ('j, 'octo) supervisor" where
  "spawn_flow env config flow sv =
     (case build_notifiers (sp_setup env) flow (sv_pool sv) of
        (pool, Inl e) \<Rightarrow> record_setup_failure_and_skip (sp_now env) (fc_name flow) ''notifier_setup'' e (sv\<lparr>sv_pool := pool\<rparr>)
      | (pool, Inr notifiers) \<Rightarrow>
         (case acquire_github (su_octo_build (sp_setup env)) (su_process (sp_setup env)) (cf_request_timeout config)
                 (action_credential (fc_action flow)) pool of
            (pool, Inl e) \<Rightarrow> record_setup_failure_and_skip (sp_now env) (fc_name flow) ''credential'' e (sv\<lparr>sv_pool := pool\<rparr>)
          | (pool, Inr cred_resources) \<Rightarrow> start_tasks env config flow notifiers cred_resources (sv\<lparr>sv_pool := pool\<rparr>)))"

definition spawn_initial_flows :: "'octo spawn_env \<Rightarrow> 'j config \<Rightarrow> ('j, 'octo) supervisor \<Rightarrow> ('j, 'octo) supervisor" where
  "spawn_initial_flows env config sv =
     foldl (\<lambda>sv flow. if \<not> fc_enabled flow then sv else spawn_flow env config flow sv) sv (cf_flow config)"

section \<open>Exits and respawn\<close>

definition RESPAWN_MAX_ATTEMPTS :: nat where [model_defs]: "RESPAWN_MAX_ATTEMPTS = 30"

datatype joined = JoinedExit string flow_role "string option" | JoinCancelled | JoinFailed

text \<open>How a task ends: \<open>flow_exit_from_result\<close> turns the caught result into a \<open>FlowExit\<close>.\<close>

datatype task_end = TaskReturned | TaskPanicked panic_payload | TaskAborted | TaskLost

fun joined_of :: "task \<Rightarrow> task_end \<Rightarrow> joined" where
  "joined_of t TaskReturned = JoinedExit (t_flow t) (t_role t) None"
| "joined_of t (TaskPanicked payload) = JoinedExit (t_flow t) (t_role t) (Some (panic_payload_to_string payload))"
| "joined_of t TaskAborted = JoinCancelled"
| "joined_of t TaskLost = JoinFailed"

datatype respawn_decision = UnexpectedJoinError | DecideCancelled | CleanExit | PanicDuplicate | PanicFirst

fun decide_respawn :: "joined \<Rightarrow> bool \<Rightarrow> respawn_decision" where
  "decide_respawn (JoinedExit flow role panic) already_respawning =
     (if panic = None then CleanExit else if already_respawning then PanicDuplicate else PanicFirst)"
| "decide_respawn JoinCancelled already_respawning = DecideCancelled"
| "decide_respawn JoinFailed already_respawning = UnexpectedJoinError"

definition decrement_pending :: "string \<Rightarrow> registry \<Rightarrow> registry" where
  "decrement_pending flow r =
     (case rg_pending_exits r flow of
        None \<Rightarrow> r
      | Some n \<Rightarrow>
         (let n = (if n = 0 then 0 else n - 1)
          in r\<lparr>rg_pending_exits := (rg_pending_exits r)(flow := if n = 0 then None else Some n)\<rparr>))"

definition cancel_gen :: "nat option \<Rightarrow> ('j, 'octo) supervisor \<Rightarrow> ('j, 'octo) supervisor" where
  "cancel_gen g sv = (case g of None \<Rightarrow> sv | Some g \<Rightarrow> sv\<lparr>sv_cancelled := insert g (sv_cancelled sv)\<rparr>)"

definition on_registry :: "(registry \<Rightarrow> registry) \<Rightarrow> ('j, 'octo) supervisor \<Rightarrow> ('j, 'octo) supervisor" where
  "on_registry f sv = sv\<lparr>sv_registry := f (sv_registry sv)\<rparr>"

definition drop_handle :: "string \<Rightarrow> registry \<Rightarrow> registry" where
  "drop_handle flow r = r\<lparr>rg_handles := AList.delete flow (rg_handles r)\<rparr>"

fun handle_flow_exit :: "instant \<Rightarrow> joined \<Rightarrow> ('j, 'octo) supervisor \<Rightarrow> ('j, 'octo) supervisor" where
  "handle_flow_exit now (JoinedExit flow role panic) sv =
     (let sv = on_registry (decrement_pending flow) sv;
          already = flow \<in> rg_respawning (sv_registry sv)
      in case decide_respawn (JoinedExit flow role panic) already of
           CleanExit \<Rightarrow> on_registry (drop_handle flow) sv
         | PanicFirst \<Rightarrow>
             (let sv = sv\<lparr>sv_errors := record_last_error (sv_errors sv) flow now ''panic'' (the panic) None\<rparr>;
                  sv = on_registry (\<lambda>r. r\<lparr>rg_respawning := insert flow (rg_respawning r)\<rparr>) sv;
                  sv = cancel_gen (map_of (rg_handles (sv_registry sv)) flow) (on_registry (drop_handle flow) sv)
              in sv\<lparr>sv_watchers := sv_watchers sv @ [\<lparr>rq_flow = flow, rq_attempts = 0\<rparr>]\<rparr>)
         | _ \<Rightarrow> sv)"
| "handle_flow_exit now JoinCancelled sv = sv"
| "handle_flow_exit now JoinFailed sv = sv"

definition handle_respawn_request ::
  "'octo spawn_env \<Rightarrow> respawn_request \<Rightarrow> ('j, 'octo) supervisor \<Rightarrow> ('j, 'octo) supervisor" where
  "handle_respawn_request env req sv =
     (if rg_pending_exits (sv_registry sv) (rq_flow req) \<noteq> None \<and> \<not> rq_attempts req \<ge> RESPAWN_MAX_ATTEMPTS
      then sv\<lparr>sv_watchers := sv_watchers sv @ [\<lparr>rq_flow = rq_flow req, rq_attempts = rq_attempts req + 1\<rparr>]\<rparr>
      else
        let sv = on_registry (\<lambda>r. r\<lparr>rg_respawning := rg_respawning r - {rq_flow req}\<rparr>) sv
        in if map_of (rg_handles (sv_registry sv)) (rq_flow req) \<noteq> None then sv
           else case find (\<lambda>f. fc_name f = rq_flow req) (cf_flow (sv_config sv)) of
                  None \<Rightarrow> sv
                | Some flow_cfg \<Rightarrow>
                    if \<not> fc_enabled flow_cfg then sv
                    else (let sv = spawn_flow env (sv_config sv) flow_cfg sv
                          in sv\<lparr>sv_flow_names := sort (map fst (rg_handles (sv_registry sv)))\<rparr>))"

section \<open>Reload\<close>

definition RELOAD_SYNTHETIC_KEY :: string where [model_defs]: "RELOAD_SYNTHETIC_KEY = ''(reload)''"

definition is_synthetic_daemon_key :: "string \<Rightarrow> bool" where
  "is_synthetic_daemon_key name \<longleftrightarrow> starts_with name ''('' \<and> starts_with (rev name) '')''"

definition by_name :: "'j flow_config list \<Rightarrow> (string \<times> 'j flow_config) list" where
  "by_name config = foldl (\<lambda>m f. AList.update (fc_name f) f m) [] config"

definition compute_actions :: "'j flow_config list \<Rightarrow> 'j flow_config list \<Rightarrow> registry \<Rightarrow> reload_action list" where
  "compute_actions old_cfg new_cfg r =
     compute_reload_actions (by_name old_cfg) (by_name new_cfg) (map fst (rg_handles r))"

record reload_plan =
  pl_to_keep :: "string list"
  pl_url_resets :: "string list"
  pl_removed_flows :: "string list"

text \<open>The walk over the actions: the handles taken out of the registry, the registry, the tokens
  cancelled, and the plan.\<close>

record reload_walk =
  rw_drained :: "(string \<times> nat) list"
  rw_registry :: registry
  rw_cancelled :: "nat set"
  rw_plan :: reload_plan

definition cancel_drained :: "string \<Rightarrow> reload_walk \<Rightarrow> reload_walk" where
  "cancel_drained name w =
     (case map_of (rw_drained w) name of
        None \<Rightarrow> w
      | Some g \<Rightarrow> w\<lparr>rw_drained := AList.delete name (rw_drained w), rw_cancelled := insert g (rw_cancelled w)\<rparr>)"

definition release_respawn :: "string \<Rightarrow> reload_walk \<Rightarrow> reload_walk" where
  "release_respawn name w = w\<lparr>rw_registry := (rw_registry w)\<lparr>rg_respawning := rg_respawning (rw_registry w) - {name}\<rparr>\<rparr>"

definition plan_removed :: "string \<Rightarrow> reload_walk \<Rightarrow> reload_walk" where
  "plan_removed name w = w\<lparr>rw_plan := (rw_plan w)\<lparr>pl_removed_flows := pl_removed_flows (rw_plan w) @ [name]\<rparr>\<rparr>"

definition plan_url_reset :: "bool \<Rightarrow> string \<Rightarrow> reload_walk \<Rightarrow> reload_walk" where
  "plan_url_reset changed name w =
     (if changed then w\<lparr>rw_plan := (rw_plan w)\<lparr>pl_url_resets := pl_url_resets (rw_plan w) @ [name]\<rparr>\<rparr> else w)"

fun apply_action :: "reload_walk \<Rightarrow> reload_action \<Rightarrow> reload_walk" where
  "apply_action w (Keep name) =
     (let w = w\<lparr>rw_plan := (rw_plan w)\<lparr>pl_to_keep := pl_to_keep (rw_plan w) @ [name]\<rparr>\<rparr>
      in case map_of (rw_drained w) name of
           None \<Rightarrow> w
         | Some g \<Rightarrow> w\<lparr>rw_drained := AList.delete name (rw_drained w),
                      rw_registry := (rw_registry w)\<lparr>rg_handles := AList.update name g (rg_handles (rw_registry w))\<rparr>\<rparr>)"
| "apply_action w (Remove name True) = release_respawn name (plan_removed name (cancel_drained name w))"
| "apply_action w (Remove name False) = release_respawn name (plan_removed name w)"
| "apply_action w (Disable name changed) = release_respawn name (plan_url_reset changed name (cancel_drained name w))"
| "apply_action w (Restart name changed) = release_respawn name (plan_url_reset changed name (cancel_drained name w))"
| "apply_action w (Spawn name) = w"

definition apply_actions_to_registry :: "reload_action list \<Rightarrow> registry \<Rightarrow> registry \<times> nat set \<times> reload_plan" where
  "apply_actions_to_registry actions r =
     (let w = foldl apply_action
                \<lparr>rw_drained = rg_handles r, rw_registry = r\<lparr>rg_handles := []\<rparr>, rw_cancelled = {},
                 rw_plan = \<lparr>pl_to_keep = [], pl_url_resets = [], pl_removed_flows = []\<rparr>\<rparr> actions
      in (rw_registry w, rw_cancelled w \<union> set (map snd (rw_drained w)), rw_plan w))"

definition collect_kept_credentials :: "'j flow_config list \<Rightarrow> string list \<Rightarrow> string set" where
  "collect_kept_credentials new_cfg to_keep =
     (\<Union>flow \<in> set (filter (\<lambda>f. fc_name f \<in> set to_keep) new_cfg).
        (case fc_action flow of GithubWorkflowDispatch _ _ _ _ credential_id \<Rightarrow> {credential_id}) \<union>
        (\<Union>dest \<in> set (fc_destination flow).
           (case dest of DiscordWebhook credential_id _ _ \<Rightarrow> {credential_id} | LocalMail _ _ _ \<Rightarrow> {})))"

text \<open>
  Exits the drain observes, until only the kept tasks are left or the timeout ends it (\<open>exits\<close> is
  used up). Nothing but the set of running tasks changes.
\<close>

fun drain_until_kept :: "nat \<Rightarrow> task list \<Rightarrow> task list \<Rightarrow> task list" where
  "drain_until_kept kept_task_count tasks [] = tasks"
| "drain_until_kept kept_task_count tasks (exit # exits) =
     (if length tasks > kept_task_count then drain_until_kept kept_task_count (remove1 exit tasks) exits else tasks)"

definition emit_flow_removed :: "reload_plan \<Rightarrow> string state_update list" where
  "emit_flow_removed plan = map FlowRemoved (pl_removed_flows plan @ pl_url_resets plan)"

definition spawn_new_generation :: "'octo spawn_env \<Rightarrow> 'j config \<Rightarrow> string list \<Rightarrow> ('j, 'octo) supervisor \<Rightarrow> ('j, 'octo) supervisor" where
  "spawn_new_generation env new_cfg to_keep sv =
     foldl (\<lambda>sv flow.
        if \<not> fc_enabled flow then sv
        else if fc_name flow \<in> set to_keep then sv
        else spawn_flow env new_cfg flow (on_registry (\<lambda>r. r\<lparr>rg_respawning := rg_respawning r - {fc_name flow}\<rparr>) sv))
       sv (cf_flow new_cfg)"

definition finalize_reload :: "('j, 'octo) supervisor \<Rightarrow> ('j, 'octo) supervisor" where
  "finalize_reload sv = sv\<lparr>sv_errors := (sv_errors sv)(RELOAD_SYNTHETIC_KEY := None),
     sv_flow_names := sort (map fst (rg_handles (sv_registry sv)))\<rparr>"

text \<open>
  \<open>run_reload\<close>: \<open>Inl\<close> are the formatted configuration errors, already joined; the configuration in
  force then stays.
\<close>

definition run_reload ::
  "'octo spawn_env \<Rightarrow> task list \<Rightarrow> (string + 'j config) \<Rightarrow> ('j, 'octo) supervisor \<Rightarrow> ('j, 'octo) supervisor"
where
  "run_reload env exits loaded sv =
     (case loaded of
        Inl message \<Rightarrow>
          sv\<lparr>sv_errors := record_last_error (sv_errors sv) RELOAD_SYNTHETIC_KEY (sp_now env) ''config_reload'' message None\<rparr>
      | Inr new_cfg \<Rightarrow>
         (let actions = compute_actions (cf_flow (sv_config sv)) (cf_flow new_cfg) (sv_registry sv);
              (r, cancelled, plan) = apply_actions_to_registry actions (sv_registry sv);
              sv = sv\<lparr>sv_registry := r, sv_cancelled := sv_cancelled sv \<union> cancelled\<rparr>;
              sv = sv\<lparr>sv_pool := invalidate_except (collect_kept_credentials (cf_flow new_cfg) (pl_to_keep plan)) (sv_pool sv)\<rparr>;
              sv = sv\<lparr>sv_tasks := drain_until_kept (length (pl_to_keep plan) * 2) (sv_tasks sv) exits\<rparr>;
              sv = sv\<lparr>sv_updates := sv_updates sv @ emit_flow_removed plan\<rparr>;
              sv = sv\<lparr>sv_config := new_cfg\<rparr>;
              sv = spawn_new_generation env new_cfg (pl_to_keep plan) sv
          in finalize_reload sv))"

section \<open>Lemmas\<close>

text \<open>What a configuration and a set of actions say about one name.\<close>

lemma map_of_by_name_fold:
  "map_of (foldl (\<lambda>m f. AList.update (fc_name f) f m) m config) n =
     (case find (\<lambda>f. fc_name f = n) (rev config) of Some f \<Rightarrow> Some f | None \<Rightarrow> map_of m n)"
proof (induction config rule: rev_induct)
  case Nil
  then show ?case by simp
next
  case (snoc f config)
  then show ?case by (simp add: update_conv' split: option.split)
qed

lemma map_of_by_name:
  assumes "distinct (map fc_name config)"
  shows "map_of (by_name config) n = Some f \<longleftrightarrow> f \<in> set config \<and> fc_name f = n"
proof -
  have "find (\<lambda>f. fc_name f = n) (rev config) = Some f \<longleftrightarrow> f \<in> set config \<and> fc_name f = n"
  proof
    assume "find (\<lambda>f. fc_name f = n) (rev config) = Some f"
    then show "f \<in> set config \<and> fc_name f = n" by (auto dest: find_SomeD)
  next
    assume f: "f \<in> set config \<and> fc_name f = n"
    then obtain f' where f': "find (\<lambda>f. fc_name f = n) (rev config) = Some f'"
      by (cases "find (\<lambda>f. fc_name f = n) (rev config)") (auto simp: find_None_iff)
    then have "f' \<in> set config" "fc_name f' = n" by (auto dest: find_SomeD)
    with f assms have "f' = f" by (auto simp: distinct_map dest: inj_onD)
    with f' show "find (\<lambda>f. fc_name f = n) (rev config) = Some f" by simp
  qed
  then show ?thesis by (auto simp: by_name_def map_of_by_name_fold split: option.split)
qed

fun action_name :: "reload_action \<Rightarrow> string" where
  "action_name (Keep n) = n"
| "action_name (Remove n _) = n"
| "action_name (Disable n _) = n"
| "action_name (Restart n _) = n"
| "action_name (Spawn n) = n"

lemma reload_action_for_name: "a \<in> set (reload_action_for new old live name) \<Longrightarrow> action_name a = name"
  by (auto simp: reload_action_for_def split: option.splits if_splits bool.splits)

lemma reload_action_for_single: "length (reload_action_for new old live name) \<le> 1"
  by (auto simp: reload_action_for_def split: option.splits bool.splits)

lemma in_actions_iff:
  "a \<in> set (compute_reload_actions old new live) \<longleftrightarrow>
     a \<in> set (reload_action_for (map_of new (action_name a)) (map_of old (action_name a)) (action_name a \<in> set live) (action_name a))"
proof
  assume "a \<in> set (compute_reload_actions old new live)"
  then show "a \<in> set (reload_action_for (map_of new (action_name a)) (map_of old (action_name a)) (action_name a \<in> set live) (action_name a))"
    using reload_action_for_name by (fastforce simp: compute_reload_actions_def)
next
  let ?n = "action_name a"
  assume a: "a \<in> set (reload_action_for (map_of new ?n) (map_of old ?n) (?n \<in> set live) ?n)"
  then have "?n \<in> set (map fst old @ map fst new @ live)"
  proof (rule contrapos_pp)
    assume "?n \<notin> set (map fst old @ map fst new @ live)"
    then have "map_of old ?n = None" "map_of new ?n = None" "?n \<notin> set live" by (simp_all add: map_of_eq_None_iff)
    then show "a \<notin> set (reload_action_for (map_of new ?n) (map_of old ?n) (?n \<in> set live) ?n)"
      by (simp add: reload_action_for_def)
  qed
  with a show "a \<in> set (compute_reload_actions old new live)"
    by (force simp: compute_reload_actions_def)
qed

lemma distinct_concat_singles:
  assumes "distinct ns" and "\<And>n. length (g n) \<le> 1" and "\<And>n a. a \<in> set (g n) \<Longrightarrow> f a = n"
  shows "distinct (map f (concat (map g ns)))"
  using assms(1)
proof (induction ns)
  case Nil
  then show ?case by simp
next
  case (Cons n ns)
  have "distinct (map f (g n))" using assms(2) [of n] by (cases "g n") auto
  with Cons assms(3) show ?case by fastforce
qed

lemma distinct_actions: "distinct (map action_name (compute_reload_actions old new live))"
  unfolding compute_reload_actions_def
  by (rule distinct_concat_singles, simp, rule reload_action_for_single, rule reload_action_for_name)

lemma Keep_iff:
  "Keep n \<in> set (compute_reload_actions old new live) \<longleftrightarrow>
     (\<exists>nf f. map_of new n = Some nf \<and> map_of old n = Some f \<and> n \<in> set live \<and> fc_enabled nf \<and> flow_config_unchanged f nf)"
  unfolding in_actions_iff by (auto simp: reload_action_for_def split: option.splits if_splits bool.splits)

text \<open>Which names have their state dropped.\<close>

lemma Remove_iff:
  "Remove n b \<in> set (compute_reload_actions old new live) \<longleftrightarrow>
     map_of new n = None \<and> b = (n \<in> set live) \<and> (map_of old n \<noteq> None \<or> n \<in> set live)"
  unfolding in_actions_iff by (auto simp: reload_action_for_def split: option.splits if_splits bool.splits)

lemma url_reset_iff:
  "Disable n True \<in> set (compute_reload_actions old new live) \<or> Restart n True \<in> set (compute_reload_actions old new live) \<longleftrightarrow>
     (\<exists>nf f. map_of new n = Some nf \<and> map_of old n = Some f \<and> n \<in> set live \<and> url_changed f nf)"
  unfolding in_actions_iff
  by (auto simp: reload_action_for_def flow_config_unchanged_def flow_diff_def url_changed_def
      split: option.splits if_splits bool.splits)

text \<open>The walk over the actions, name by name.\<close>

definition takes :: "reload_action \<Rightarrow> string \<Rightarrow> bool" where
  "takes a n \<longleftrightarrow> a \<in> {Keep n, Remove n True, Disable n True, Disable n False, Restart n True, Restart n False}"

lemmas action_defs = cancel_drained_def release_respawn_def plan_removed_def plan_url_reset_def

lemma apply_action_handles:
  "map_of (rg_handles (rw_registry (apply_action w a))) n =
     (if a = Keep n \<and> map_of (rw_drained w) n \<noteq> None then map_of (rw_drained w) n else map_of (rg_handles (rw_registry w)) n)"
  by (cases "(w, a)" rule: apply_action.cases) (auto simp: action_defs update_conv' Let_def split: option.splits)

lemma apply_action_drained:
  "map_of (rw_drained (apply_action w a)) n = (if takes a n then None else map_of (rw_drained w) n)"
proof (cases "(w, a)" rule: apply_action.cases)
  case (4 w name changed)
  then show ?thesis by (cases changed) (auto simp: action_defs takes_def delete_conv' split: option.splits)
next
  case (5 w name changed)
  then show ?thesis by (cases changed) (auto simp: action_defs takes_def delete_conv' split: option.splits)
qed (auto simp: action_defs takes_def delete_conv' Let_def split: option.splits)

lemma apply_action_cancelled:
  "rw_cancelled (apply_action w a) = rw_cancelled w \<union>
     {g. \<exists>n. takes a n \<and> a \<noteq> Keep n \<and> map_of (rw_drained w) n = Some g}"
proof (cases "(w, a)" rule: apply_action.cases)
  case (4 w name changed)
  then show ?thesis by (cases changed) (auto simp: action_defs takes_def split: option.splits)
next
  case (5 w name changed)
  then show ?thesis by (cases changed) (auto simp: action_defs takes_def split: option.splits)
qed (auto simp: action_defs takes_def Let_def split: option.splits)

lemma apply_action_plan:
  "pl_to_keep (rw_plan (apply_action w a)) = pl_to_keep (rw_plan w) @ (case a of Keep n \<Rightarrow> [n] | _ \<Rightarrow> [])"
  "pl_removed_flows (rw_plan (apply_action w a)) = pl_removed_flows (rw_plan w) @ (case a of Remove n _ \<Rightarrow> [n] | _ \<Rightarrow> [])"
  "pl_url_resets (rw_plan (apply_action w a)) = pl_url_resets (rw_plan w) @
     (case a of Disable n True \<Rightarrow> [n] | Restart n True \<Rightarrow> [n] | _ \<Rightarrow> [])"
  by (cases "(w, a)" rule: apply_action.cases; auto simp: action_defs Let_def split: option.splits bool.splits)+

lemma apply_action_pending [simp]: "rg_pending_exits (rw_registry (apply_action w a)) = rg_pending_exits (rw_registry w)"
  by (cases "(w, a)" rule: apply_action.cases) (auto simp: action_defs Let_def split: option.splits)

lemma takes_name: "takes a n \<Longrightarrow> action_name a = n"
  by (auto simp: takes_def)

lemma Keep_not_taken:
  assumes "distinct (map action_name (a # as))" and "Keep n \<in> set as"
  shows "\<not> takes a n"
proof
  assume "takes a n"
  then have "action_name a = n" by (rule takes_name)
  moreover have "action_name (Keep n) \<in> action_name ` set as" using assms(2) by (rule imageI)
  ultimately show False using assms(1) by simp
qed

lemma walk_handles:
  assumes "distinct (map action_name as)"
  shows "map_of (rg_handles (rw_registry (foldl apply_action w as))) n =
     (if Keep n \<in> set as \<and> map_of (rw_drained w) n \<noteq> None then map_of (rw_drained w) n else map_of (rg_handles (rw_registry w)) n)"
  using assms
proof (induction as arbitrary: w)
  case Nil
  then show ?case by simp
next
  case (Cons a as)
  note Keep_not_taken [OF Cons.prems, of n]
  with Cons show ?case by (auto simp: apply_action_handles apply_action_drained takes_def)
qed

lemma walk_cancelled:
  assumes "distinct (map action_name as)"
  shows "rw_cancelled (foldl apply_action w as) \<union> {g. \<exists>n. map_of (rw_drained (foldl apply_action w as)) n = Some g} =
    rw_cancelled w \<union> {g. \<exists>n. map_of (rw_drained w) n = Some g \<and> Keep n \<notin> set as}"
  using assms
proof (induction as arbitrary: w)
  case Nil
  then show ?case by simp
next
  case (Cons a as)
  note Keep_not_taken [OF Cons.prems]
  moreover have "takes (Keep n) n" for n by (simp add: takes_def)
  ultimately show ?case
    using Cons by (simp add: apply_action_cancelled apply_action_drained) (auto split: if_splits)
qed

lemma walk_plan:
  "set (pl_to_keep (rw_plan (foldl apply_action w as))) = set (pl_to_keep (rw_plan w)) \<union> {n. Keep n \<in> set as}"
  "set (pl_removed_flows (rw_plan (foldl apply_action w as))) = set (pl_removed_flows (rw_plan w)) \<union> {n. \<exists>b. Remove n b \<in> set as}"
  "set (pl_url_resets (rw_plan (foldl apply_action w as))) = set (pl_url_resets (rw_plan w)) \<union>
     {n. Disable n True \<in> set as \<or> Restart n True \<in> set as}"
  by (induction as arbitrary: w) (auto simp: apply_action_plan split: reload_action.splits bool.splits)

lemma map_of_values: "distinct (map fst xs) \<Longrightarrow> set (map snd xs) = {g. \<exists>n. map_of xs n = Some g}"
  by force

lemma walk_distinct:
  "distinct (map fst (rw_drained w)) \<Longrightarrow> distinct (map fst (rw_drained (foldl apply_action w as)))"
proof (induction as arbitrary: w)
  case (Cons a as)
  have "distinct (map fst (rw_drained (apply_action w a)))"
    using Cons.prems
    by (cases "(w, a)" rule: apply_action.cases) (auto simp: action_defs Let_def distinct_delete split: option.splits)
  with Cons.IH show ?case by simp
qed simp

text \<open>What one spawn does.\<close>

lemma on_registry_simps [simp]:
  "sv_registry (on_registry f sv) = f (sv_registry sv)" "sv_next_gen (on_registry f sv) = sv_next_gen sv"
  "sv_cancelled (on_registry f sv) = sv_cancelled sv" "sv_updates (on_registry f sv) = sv_updates sv"
  "sv_tasks (on_registry f sv) = sv_tasks sv" "sv_generations (on_registry f sv) = sv_generations sv"
  "sv_config (on_registry f sv) = sv_config sv" "sv_pool (on_registry f sv) = sv_pool sv" "sv_errors (on_registry f sv) = sv_errors sv"
  by (simp_all add: on_registry_def)

lemma start_tasks_simps [simp]:
  "sv_cancelled (start_tasks env c f ns r sv) = sv_cancelled sv" "sv_updates (start_tasks env c f ns r sv) = sv_updates sv"
  "sv_config (start_tasks env c f ns r sv) = sv_config sv" "sv_pool (start_tasks env c f ns r sv) = sv_pool sv"
  "sv_errors (start_tasks env c f ns r sv) = sv_errors sv" "sv_next_gen (start_tasks env c f ns r sv) = Suc (sv_next_gen sv)"
  "rg_handles (sv_registry (start_tasks env c f ns r sv)) = AList.update (fc_name f) (sv_next_gen sv) (rg_handles (sv_registry sv))"
  by (simp_all add: start_tasks_def Let_def count_pending_def insert_handle_def split: prod.split)

lemma start_tasks_generation:
  "\<exists>g. sv_generations (start_tasks env c f ns r sv) = sv_generations sv @ [g] \<and> gn_gen g = sv_next_gen sv \<and> gn_flow g = fc_name f \<and>
     fd_action (gn_dispatch g) = fc_action f \<and> gn_rate_limit_cancel g = gr_rate_limit_cancel r"
  by (simp add: start_tasks_def Let_def build_dispatcher_params_def split: prod.split)

lemma record_setup_failure_simps [simp]:
  "sv_cancelled (record_setup_failure_and_skip t n k e sv) = sv_cancelled sv"
  "sv_updates (record_setup_failure_and_skip t n k e sv) = sv_updates sv"
  "sv_config (record_setup_failure_and_skip t n k e sv) = sv_config sv" "sv_pool (record_setup_failure_and_skip t n k e sv) = sv_pool sv"
  "sv_next_gen (record_setup_failure_and_skip t n k e sv) = sv_next_gen sv"
  "sv_registry (record_setup_failure_and_skip t n k e sv) = sv_registry sv"
  "sv_generations (record_setup_failure_and_skip t n k e sv) = sv_generations sv"
  by (simp_all add: record_setup_failure_and_skip_def)

definition setup_failed :: "last_errors \<Rightarrow> string \<Rightarrow> bool" where
  "setup_failed errors n \<longleftrightarrow> (\<exists>e. errors n = Some e \<and> fle_kind e \<in> {''notifier_setup'', ''credential''})"

lemma record_setup_failure_errors:
  "n \<noteq> m \<Longrightarrow> sv_errors (record_setup_failure_and_skip t m k e sv) n = sv_errors sv n"
  "k \<in> {''notifier_setup'', ''credential''} \<Longrightarrow> setup_failed (sv_errors (record_setup_failure_and_skip t m k e sv)) m"
  by (auto simp: record_setup_failure_and_skip_def record_last_error_def setup_failed_def)

lemma spawn_flow_cases:
  assumes "pool_wf (sv_pool sv)"
  obtains (failed) pool k e where "spawn_flow env c f sv = record_setup_failure_and_skip (sp_now env) (fc_name f) k e (sv\<lparr>sv_pool := pool\<rparr>)"
      "k \<in> {''notifier_setup'', ''credential''}" "pool_wf pool" "\<And>d r. cp_by_id (sv_pool sv) d = Some r \<Longrightarrow> cp_by_id pool d = Some r"
  | (started) pool ns r where "spawn_flow env c f sv = start_tasks env c f ns r (sv\<lparr>sv_pool := pool\<rparr>)" "pool_wf pool"
      "\<And>d r. cp_by_id (sv_pool sv) d = Some r \<Longrightarrow> cp_by_id pool d = Some r" "cp_by_id pool (action_credential (fc_action f)) = Some r"
proof -
  obtain p1 r1 where b: "build_notifiers (sp_setup env) f (sv_pool sv) = (p1, r1)" by fastforce
  have p1: "cp_by_id p1 = cp_by_id (sv_pool sv)" "pool_wf p1"
    using build_notifiers_pool [OF b [unfolded build_notifiers_def]] assms by auto
  show ?thesis
  proof (cases r1)
    case (Inl e)
    with b p1 show ?thesis by (intro failed [of "''notifier_setup''" e p1]) (simp_all add: spawn_flow_def)
  next
    case (Inr ns)
    obtain p2 r2 where a: "acquire_github (su_octo_build (sp_setup env)) (su_process (sp_setup env)) (cf_request_timeout c)
        (action_credential (fc_action f)) p1 = (p2, r2)" by fastforce
    note p2 = acquire_github_pool [OF a p1(2)]
    show ?thesis
    proof (cases r2)
      case (Inl e)
      with b a Inr p1 p2 show ?thesis by (intro failed [of "''credential''" e p2]) (simp_all add: spawn_flow_def)
    next
      case r2: (Inr r)
      with b a Inr p1 p2 show ?thesis by (intro started [of ns r p2]) (simp_all add: spawn_flow_def)
    qed
  qed
qed

lemma spawn_flow_frame [simp]:
  "sv_cancelled (spawn_flow env c f sv) = sv_cancelled sv" "sv_updates (spawn_flow env c f sv) = sv_updates sv"
  "sv_config (spawn_flow env c f sv) = sv_config sv"
  by (simp_all add: spawn_flow_def split: prod.split sum.split)

lemma spawn_flow_effect:
  assumes "pool_wf (sv_pool sv)"
  shows "n \<noteq> fc_name f \<Longrightarrow> map_of (rg_handles (sv_registry (spawn_flow env c f sv))) n = map_of (rg_handles (sv_registry sv)) n \<and>
      sv_errors (spawn_flow env c f sv) n = sv_errors sv n"
    and "map_of (rg_handles (sv_registry (spawn_flow env c f sv))) (fc_name f) = Some (sv_next_gen sv) \<or>
      map_of (rg_handles (sv_registry (spawn_flow env c f sv))) (fc_name f) = map_of (rg_handles (sv_registry sv)) (fc_name f) \<and>
      setup_failed (sv_errors (spawn_flow env c f sv)) (fc_name f)"
    and "sv_next_gen sv \<le> sv_next_gen (spawn_flow env c f sv)" and "pool_wf (sv_pool (spawn_flow env c f sv))"
  using assms
  by (cases rule: spawn_flow_cases [where env = env and c = c and f = f];
      simp add: update_conv' record_setup_failure_errors)+

section \<open>The invariant\<close>

abbreviation live_names :: "('j, 'octo) supervisor \<Rightarrow> string list" where
  "live_names sv \<equiv> map fst (rg_handles (sv_registry sv))"

abbreviation handle_of :: "('j, 'octo) supervisor \<Rightarrow> string \<Rightarrow> nat option" where
  "handle_of sv n \<equiv> map_of (rg_handles (sv_registry sv)) n"

text \<open>
  A handle is of a generation that was spawned for its flow, runs the action the configuration
  has, and whose credential's quota poller is the one in the pool.
\<close>

definition handle_ok :: "'j flow_config list \<Rightarrow> 'octo credential_pool \<Rightarrow> 'j generation list \<Rightarrow> string \<Rightarrow> nat \<Rightarrow> bool" where
  "handle_ok flow_cfgs pool gens n g \<longleftrightarrow>
     (\<exists>gen \<in> set gens. gn_gen gen = g \<and> gn_flow gen = n \<and>
        (\<exists>f \<in> set flow_cfgs. fc_name f = n \<and> fc_enabled f \<and> fd_action (gn_dispatch gen) = fc_action f \<and>
           (\<exists>r. cp_by_id pool (action_credential (fc_action f)) = Some r \<and> gr_rate_limit_cancel r = gn_rate_limit_cancel gen)))"

definition supervisor_wf :: "('j, 'octo) supervisor \<Rightarrow> bool" where
  "supervisor_wf sv \<longleftrightarrow>
     distinct (live_names sv) \<and> distinct (map fc_name (cf_flow (sv_config sv))) \<and> pool_wf (sv_pool sv) \<and>
     map gn_gen (sv_generations sv) = [0..<sv_next_gen sv] \<and> sv_cancelled sv \<subseteq> {..<sv_next_gen sv} \<and>
     (\<forall>n g. handle_of sv n = Some g \<longrightarrow> g \<notin> sv_cancelled sv \<and> handle_ok (cf_flow (sv_config sv)) (sv_pool sv) (sv_generations sv) n g)"

lemma supervisor_wfD:
  assumes "supervisor_wf sv"
  shows "distinct (live_names sv)" "pool_wf (sv_pool sv)" "map gn_gen (sv_generations sv) = [0..<sv_next_gen sv]"
    "sv_cancelled sv \<subseteq> {..<sv_next_gen sv}" "\<And>n g. handle_of sv n = Some g \<Longrightarrow> g \<notin> sv_cancelled sv"
    "\<And>n g. handle_of sv n = Some g \<Longrightarrow> handle_ok (cf_flow (sv_config sv)) (sv_pool sv) (sv_generations sv) n g"
    "distinct (map fc_name (cf_flow (sv_config sv)))"
  using assms unfolding supervisor_wf_def by blast+

lemma generation_unique:
  assumes "map gn_gen gens = [0..<k]" and "x \<in> set gens" "y \<in> set gens" "gn_gen x = gn_gen y"
  shows "x = y"
proof -
  have "distinct (map gn_gen gens)" unfolding assms(1) by simp
  then show ?thesis using assms(2-4) by (auto simp: distinct_map dest: inj_onD)
qed

lemma handle_inj:
  assumes "supervisor_wf sv" "handle_of sv n = Some g" "handle_of sv m = Some g"
  shows "n = m"
  using supervisor_wfD(6) [OF assms(1,2)] supervisor_wfD(6) [OF assms(1,3)] generation_unique [OF supervisor_wfD(3) [OF assms(1)]]
  unfolding handle_ok_def by blast

lemma handle_ok_mono:
  assumes "handle_ok fs pool gens n g" and "\<And>c r. cp_by_id pool c = Some r \<Longrightarrow> cp_by_id pool' c = Some r" and "set gens \<subseteq> set gens'"
  shows "handle_ok fs pool' gens' n g"
proof -
  from assms(1) obtain gen f r where "gen \<in> set gens" "gn_gen gen = g" "gn_flow gen = n" "f \<in> set fs" "fc_name f = n" "fc_enabled f"
    "fd_action (gn_dispatch gen) = fc_action f" "cp_by_id pool (action_credential (fc_action f)) = Some r"
    "gr_rate_limit_cancel r = gn_rate_limit_cancel gen" unfolding handle_ok_def by blast
  with assms(2,3) show ?thesis unfolding handle_ok_def by (intro bexI [of _ gen] bexI [of _ f] conjI exI [of _ r]) auto
qed

lemma handle_gen_bound: "supervisor_wf sv \<Longrightarrow> handle_of sv n = Some g \<Longrightarrow> g < sv_next_gen sv"
proof -
  assume wf: "supervisor_wf sv" and "handle_of sv n = Some g"
  from supervisor_wfD(6) [OF this] obtain gen where "gen \<in> set (sv_generations sv)" "gn_gen gen = g" unfolding handle_ok_def by blast
  then have "g \<in> set (map gn_gen (sv_generations sv))" by auto
  then show ?thesis unfolding supervisor_wfD(3) [OF wf] by simp
qed

lemma wf_spawn_flow:
  assumes wf: "supervisor_wf sv" and f: "f \<in> set (cf_flow (sv_config sv))" "fc_enabled f"
  shows "supervisor_wf (spawn_flow env c f sv)"
  using supervisor_wfD(2) [OF wf]
proof (cases rule: spawn_flow_cases [where env = env and c = c and f = f])
  case (failed pool k e)
  then show ?thesis
    using supervisor_wfD [OF wf] handle_ok_mono [OF supervisor_wfD(6) [OF wf] failed(4)] unfolding supervisor_wf_def by simp
next
  case (started pool ns r)
  let ?sv = "start_tasks env c f ns r (sv\<lparr>sv_pool := pool\<rparr>)"
  obtain g where g: "sv_generations ?sv = sv_generations sv @ [g]" "gn_gen g = sv_next_gen sv" "gn_flow g = fc_name f"
    "fd_action (gn_dispatch g) = fc_action f" "gn_rate_limit_cancel g = gr_rate_limit_cancel r"
    using start_tasks_generation [of env c f ns r "sv\<lparr>sv_pool := pool\<rparr>"] by auto
  have new: "handle_ok (cf_flow (sv_config sv)) pool (sv_generations ?sv) (fc_name f) (sv_next_gen sv)"
    unfolding handle_ok_def g(1) using g f started(4) by (intro bexI [of _ g] bexI [of _ f]) auto
  have "handle_ok (cf_flow (sv_config sv)) pool (sv_generations ?sv) n h" if "handle_of sv n = Some h" for n h
    unfolding g(1) using supervisor_wfD(6) [OF wf that] started(3) by (rule handle_ok_mono) auto
  moreover have "sv_next_gen sv \<notin> sv_cancelled sv" using supervisor_wfD(4) [OF wf] by auto
  ultimately show ?thesis
    unfolding started(1) supervisor_wf_def
    using supervisor_wfD [OF wf] started(2) new g(1,2)
    by (auto simp: update_conv' distinct_update split: if_splits)
qed

lemma wf_drop_handles:
  assumes "supervisor_wf sv" and "distinct (map fst hs)" and "\<And>n g. map_of hs n = Some g \<Longrightarrow> handle_of sv n = Some g"
    and "rg_handles (sv_registry sv') = hs" and "sv_config sv' = sv_config sv" "sv_pool sv' = sv_pool sv"
      "sv_generations sv' = sv_generations sv" "sv_next_gen sv' = sv_next_gen sv"
    and "sv_cancelled sv' = sv_cancelled sv \<union> X" "X \<subseteq> {..<sv_next_gen sv}" "\<And>n g. map_of hs n = Some g \<Longrightarrow> g \<notin> X"
  shows "supervisor_wf sv'"
proof -
  have "g \<notin> sv_cancelled sv' \<and> handle_ok (cf_flow (sv_config sv')) (sv_pool sv') (sv_generations sv') n g" if "map_of hs n = Some g" for n g
    unfolding assms(5-7,9) using supervisor_wfD(5,6) [OF assms(1) assms(3) [OF that]] assms(11) [OF that] by simp
  then show ?thesis
    unfolding supervisor_wf_def assms(4-9) using supervisor_wfD(1-4,7) [OF assms(1)] assms(2,10) by simp
qed

lemma wf_flow_exit:
  assumes wf: "supervisor_wf sv"
  shows "supervisor_wf (handle_flow_exit now j sv)"
proof (cases j)
  case (JoinedExit flow role panic)
  let ?r = "rg_handles (sv_registry sv)"
  have del: "map_of (AList.delete flow ?r) n = Some g \<Longrightarrow> map_of ?r n = Some g" for n g
    by (simp add: delete_conv' split: if_splits)
  have dd: "distinct (map fst (AList.delete flow ?r))" using supervisor_wfD(1) [OF wf] by (rule distinct_delete)
  have pend: "rg_handles (decrement_pending flow r) = rg_handles r" "rg_respawning (decrement_pending flow r) = rg_respawning r" for r
    by (simp_all add: decrement_pending_def Let_def split: option.split)
  consider "panic = None" | "panic \<noteq> None" "flow \<in> rg_respawning (sv_registry sv)" | "panic \<noteq> None" "flow \<notin> rg_respawning (sv_registry sv)"
    by blast
  then show ?thesis
  proof cases
    case 1
    with JoinedExit show ?thesis
      by (intro wf_drop_handles [OF wf dd del, where X = "{}"]) (auto simp: drop_handle_def pend)
  next
    case 2
    with JoinedExit show ?thesis
      by (intro wf_drop_handles [OF wf supervisor_wfD(1) [OF wf], where X = "{}"]) (auto simp: pend)
  next
    case 3
    let ?X = "{g. map_of ?r flow = Some g}"
    have "g \<notin> ?X" if "map_of (AList.delete flow ?r) n = Some g" for n g
      using that handle_inj [OF wf, of n g flow] by (auto simp: delete_conv' split: if_splits)
    moreover have "?X \<subseteq> {..<sv_next_gen sv}" using handle_gen_bound [OF wf] by auto
    ultimately show ?thesis using 3 JoinedExit
      by (intro wf_drop_handles [OF wf dd del, where X = ?X])
        (auto simp: drop_handle_def pend cancel_gen_def Let_def split: option.split)
  qed
qed (use wf in auto)

lemma wf_frame:
  assumes "supervisor_wf sv" "rg_handles (sv_registry sv') = rg_handles (sv_registry sv)" "sv_config sv' = sv_config sv"
    "sv_pool sv' = sv_pool sv" "sv_generations sv' = sv_generations sv" "sv_next_gen sv' = sv_next_gen sv" "sv_cancelled sv' = sv_cancelled sv"
  shows "supervisor_wf sv'"
  using assms unfolding supervisor_wf_def by simp

lemma wf_respawn:
  assumes wf: "supervisor_wf sv"
  shows "supervisor_wf (handle_respawn_request env req sv)"
proof -
  let ?sv = "on_registry (\<lambda>r. r\<lparr>rg_respawning := rg_respawning r - {rq_flow req}\<rparr>) sv"
  have wf1: "supervisor_wf ?sv" by (rule wf_frame [OF wf]) simp_all
  have "supervisor_wf (spawn_flow env (sv_config sv) f ?sv)" if "find (\<lambda>f. fc_name f = rq_flow req) (cf_flow (sv_config sv)) = Some f" "fc_enabled f" for f
    using find_SomeD [OF that(1)] that(2) by (intro wf_spawn_flow [OF wf1]) simp_all
  then show ?thesis
    using wf wf1 unfolding handle_respawn_request_def Let_def
    by (auto intro: wf_frame split: option.split)
qed

text \<open>Reload: the registry after the walk, then the spawns.\<close>

definition keeps :: "'j flow_config list \<Rightarrow> 'j flow_config list \<Rightarrow> registry \<Rightarrow> string \<Rightarrow> bool" where
  "keeps old_cfg new_cfg reg n \<longleftrightarrow> n \<in> set (map fst (rg_handles reg)) \<and>
     (\<exists>f \<in> set old_cfg. \<exists>nf \<in> set new_cfg. fc_name f = n \<and> fc_name nf = n \<and> fc_enabled nf \<and> flow_config_unchanged f nf)"

lemma keeps_iff:
  assumes "distinct (map fc_name old_cfg)" and "distinct (map fc_name new_cfg)"
  shows "Keep n \<in> set (compute_actions old_cfg new_cfg reg) \<longleftrightarrow> keeps old_cfg new_cfg reg n"
  unfolding compute_actions_def Keep_iff keeps_def by (auto simp: map_of_by_name assms)

lemma applied_registry:
  assumes "apply_actions_to_registry (compute_actions old_cfg new_cfg r) r = (r', cancelled, plan)"
    and "distinct (map fst (rg_handles r))"
  defines "as \<equiv> compute_actions old_cfg new_cfg r"
  shows "map_of (rg_handles r') n = (if Keep n \<in> set as then map_of (rg_handles r) n else None)"
    and "cancelled = {g. \<exists>n. map_of (rg_handles r) n = Some g \<and> Keep n \<notin> set as}"
    and "set (pl_to_keep plan) = {n. Keep n \<in> set as}"
    and "set (pl_removed_flows plan) = {n. \<exists>b. Remove n b \<in> set as}"
    and "set (pl_url_resets plan) = {n. Disable n True \<in> set as \<or> Restart n True \<in> set as}"
    and "rg_pending_exits r' = rg_pending_exits r"
proof -
  let ?w = "\<lparr>rw_drained = rg_handles r, rw_registry = r\<lparr>rg_handles := []\<rparr>, rw_cancelled = {},
    rw_plan = \<lparr>pl_to_keep = [], pl_url_resets = [], pl_removed_flows = []\<rparr>\<rparr>"
  have d: "distinct (map action_name as)" by (simp add: as_def compute_actions_def distinct_actions)
  have res: "r' = rw_registry (foldl apply_action ?w as)" "plan = rw_plan (foldl apply_action ?w as)"
    "cancelled = rw_cancelled (foldl apply_action ?w as) \<union> set (map snd (rw_drained (foldl apply_action ?w as)))"
    using assms(1) by (simp_all add: apply_actions_to_registry_def as_def Let_def)
  show "map_of (rg_handles r') n = (if Keep n \<in> set as then map_of (rg_handles r) n else None)"
    unfolding res walk_handles [OF d] by auto
  have "distinct (map fst (rw_drained (foldl apply_action ?w as)))" using assms(2) by (intro walk_distinct) simp
  from map_of_values [OF this] show "cancelled = {g. \<exists>n. map_of (rg_handles r) n = Some g \<and> Keep n \<notin> set as}"
    using walk_cancelled [OF d, of ?w] unfolding res by simp
  show "set (pl_to_keep plan) = {n. Keep n \<in> set as}" "set (pl_removed_flows plan) = {n. \<exists>b. Remove n b \<in> set as}"
    "set (pl_url_resets plan) = {n. Disable n True \<in> set as \<or> Restart n True \<in> set as}"
    unfolding res walk_plan by simp_all
  have "rg_pending_exits (rw_registry (foldl apply_action w bs)) = rg_pending_exits (rw_registry w)" for w bs
    by (induction bs arbitrary: w) auto
  then show "rg_pending_exits r' = rg_pending_exits r" unfolding res by simp
qed

lemma walk_registry_distinct:
  "distinct (map fst (rg_handles (rw_registry w))) \<Longrightarrow> distinct (map fst (rg_handles (rw_registry (foldl apply_action w as))))"
proof (induction as arbitrary: w)
  case (Cons a as)
  have "distinct (map fst (rg_handles (rw_registry (apply_action w a))))"
    using Cons.prems
    by (cases "(w, a)" rule: apply_action.cases) (auto simp: action_defs Let_def distinct_update split: option.splits)
  with Cons.IH show ?case by simp
qed simp

text \<open>The supervisor after a successful reload, in terms of its parts.\<close>

lemma run_reload_parts:
  obtains r cancelled plan sv1 where
    "apply_actions_to_registry (compute_actions (cf_flow (sv_config sv)) (cf_flow new_cfg) (sv_registry sv)) (sv_registry sv) = (r, cancelled, plan)"
    "sv_registry sv1 = r" "sv_cancelled sv1 = sv_cancelled sv \<union> cancelled" "sv_next_gen sv1 = sv_next_gen sv"
    "sv_updates sv1 = sv_updates sv @ emit_flow_removed plan" "sv_config sv1 = new_cfg" "sv_generations sv1 = sv_generations sv"
    "sv_pool sv1 = invalidate_except (collect_kept_credentials (cf_flow new_cfg) (pl_to_keep plan)) (sv_pool sv)"
    "run_reload env exits (Inr new_cfg) sv = finalize_reload (spawn_new_generation env new_cfg (pl_to_keep plan) sv1)"
proof -
  obtain r cancelled plan where p:
    "apply_actions_to_registry (compute_actions (cf_flow (sv_config sv)) (cf_flow new_cfg) (sv_registry sv)) (sv_registry sv) = (r, cancelled, plan)"
    by (metis prod_cases3)
  let ?sv1 = "sv\<lparr>sv_registry := r, sv_cancelled := sv_cancelled sv \<union> cancelled,
    sv_pool := invalidate_except (collect_kept_credentials (cf_flow new_cfg) (pl_to_keep plan)) (sv_pool sv),
    sv_tasks := drain_until_kept (length (pl_to_keep plan) * 2) (sv_tasks sv) exits,
    sv_updates := sv_updates sv @ emit_flow_removed plan, sv_config := new_cfg\<rparr>"
  have "run_reload env exits (Inr new_cfg) sv = finalize_reload (spawn_new_generation env new_cfg (pl_to_keep plan) ?sv1)"
    using p by (auto simp: run_reload_def)
  with p show ?thesis by (intro that [of r cancelled plan ?sv1]) simp_all
qed

lemma finalize_simps [simp]:
  "sv_registry (finalize_reload sv) = sv_registry sv" "sv_cancelled (finalize_reload sv) = sv_cancelled sv"
  "sv_updates (finalize_reload sv) = sv_updates sv" "sv_next_gen (finalize_reload sv) = sv_next_gen sv"
  "sv_config (finalize_reload sv) = sv_config sv" "sv_pool (finalize_reload sv) = sv_pool sv"
  "sv_generations (finalize_reload sv) = sv_generations sv"
  "sv_errors (finalize_reload sv) = (sv_errors sv)(RELOAD_SYNTHETIC_KEY := None)"
  by (simp_all add: finalize_reload_def)

lemma handle_ok_kept:
  assumes "handle_ok old pool gens n g" and "keeps old new reg n" and "n \<in> set ks"
    and "distinct (map fc_name old)"
  shows "handle_ok new (invalidate_except (collect_kept_credentials new ks) pool) gens n g"
proof -
  from assms(1) obtain gen f r where g: "gen \<in> set gens" "gn_gen gen = g" "gn_flow gen = n" "f \<in> set old" "fc_name f = n"
    "fd_action (gn_dispatch gen) = fc_action f" "cp_by_id pool (action_credential (fc_action f)) = Some r"
    "gr_rate_limit_cancel r = gn_rate_limit_cancel gen" unfolding handle_ok_def by blast
  from assms(2) obtain f' nf where k: "f' \<in> set old" "nf \<in> set new" "fc_name f' = n" "fc_name nf = n" "fc_enabled nf"
    "flow_config_unchanged f' nf" unfolding keeps_def by blast
  have "f' = f" using assms(4) k(1,3) g(4,5) by (auto simp: distinct_map dest: inj_onD)
  with k(6) have act: "fc_action f = fc_action nf" by (simp add: flow_config_unchanged_def flow_diff_def)
  have "action_credential (fc_action nf) \<in> collect_kept_credentials new ks"
    using k(2,4) assms(3) unfolding collect_kept_credentials_def by (cases "fc_action nf") fastforce
  with g act k show ?thesis
    unfolding handle_ok_def invalidate_except_def by (intro bexI [of _ gen] bexI [of _ nf] conjI exI [of _ r]) simp_all
qed

lemma wf_walk:
  assumes wf: "supervisor_wf sv" and new: "distinct (map fc_name (cf_flow new_cfg))"
    and ap: "apply_actions_to_registry (compute_actions (cf_flow (sv_config sv)) (cf_flow new_cfg) (sv_registry sv)) (sv_registry sv) = (r, cancelled, plan)"
    and sv1: "sv_registry sv1 = r" "sv_cancelled sv1 = sv_cancelled sv \<union> cancelled" "sv_next_gen sv1 = sv_next_gen sv"
      "sv_config sv1 = new_cfg" "sv_generations sv1 = sv_generations sv"
      "sv_pool sv1 = invalidate_except (collect_kept_credentials (cf_flow new_cfg) (pl_to_keep plan)) (sv_pool sv)"
  shows "supervisor_wf sv1"
proof -
  note ar = applied_registry [OF ap supervisor_wfD(1) [OF wf], unfolded keeps_iff [OF supervisor_wfD(7) [OF wf] new]]
  have d: "distinct (map fst (rg_handles r))"
    using ap walk_registry_distinct by (auto simp: apply_actions_to_registry_def Let_def)
  have ok: "g \<notin> sv_cancelled sv \<union> cancelled \<and>
      handle_ok (cf_flow new_cfg) (invalidate_except (collect_kept_credentials (cf_flow new_cfg) (pl_to_keep plan)) (sv_pool sv)) (sv_generations sv) n g"
    if "map_of (rg_handles r) n = Some g" for n g
  proof -
    from that ar(1) [of n] have k: "keeps (cf_flow (sv_config sv)) (cf_flow new_cfg) (sv_registry sv) n" and h: "handle_of sv n = Some g"
      by (auto split: if_splits)
    have "g \<notin> cancelled" unfolding ar(2) using k h handle_inj [OF wf h] by blast
    moreover have "n \<in> set (pl_to_keep plan)" using k ar(3) by simp
    ultimately show ?thesis
      using supervisor_wfD(5) [OF wf h] handle_ok_kept [OF supervisor_wfD(6) [OF wf h] k _ supervisor_wfD(7) [OF wf]] by simp
  qed
  have "cancelled \<subseteq> {..<sv_next_gen sv}" unfolding ar(2) using handle_gen_bound [OF wf] by auto
  then show ?thesis
    unfolding supervisor_wf_def sv1 using d new ok supervisor_wfD(3,4) [OF wf] pool_wf_invalidate [OF supervisor_wfD(2) [OF wf]] by simp
qed

lemma wf_spawn_all:
  assumes "supervisor_wf sv" and "set fs \<subseteq> set (cf_flow (sv_config sv))"
  shows "supervisor_wf (foldl (\<lambda>sv flow. if \<not> fc_enabled flow then sv else if fc_name flow \<in> set ks then sv
      else spawn_flow env c flow (on_registry (\<lambda>r. r\<lparr>rg_respawning := rg_respawning r - {fc_name flow}\<rparr>) sv)) sv fs)"
  using assms
proof (induction fs arbitrary: sv)
  case (Cons f fs)
  let ?sv = "on_registry (\<lambda>r. r\<lparr>rg_respawning := rg_respawning r - {fc_name f}\<rparr>) sv"
  have "supervisor_wf ?sv" by (rule wf_frame [OF Cons.prems(1)]) simp_all
  then have "supervisor_wf (spawn_flow env c f ?sv)" if "fc_enabled f" using Cons.prems(2) that by (intro wf_spawn_flow) simp_all
  with Cons show ?case by simp
qed simp

lemma wf_reload:
  assumes "supervisor_wf sv" and "distinct (map fc_name (cf_flow new_cfg))"
  shows "supervisor_wf (run_reload env exits (Inr new_cfg) sv)"
proof -
  obtain r cancelled plan sv1 where p:
    "apply_actions_to_registry (compute_actions (cf_flow (sv_config sv)) (cf_flow new_cfg) (sv_registry sv)) (sv_registry sv) = (r, cancelled, plan)"
    "sv_registry sv1 = r" "sv_cancelled sv1 = sv_cancelled sv \<union> cancelled" "sv_next_gen sv1 = sv_next_gen sv"
    "sv_config sv1 = new_cfg" "sv_generations sv1 = sv_generations sv"
    "sv_pool sv1 = invalidate_except (collect_kept_credentials (cf_flow new_cfg) (pl_to_keep plan)) (sv_pool sv)"
    "run_reload env exits (Inr new_cfg) sv = finalize_reload (spawn_new_generation env new_cfg (pl_to_keep plan) sv1)"
    by (rule run_reload_parts [of sv new_cfg env exits]) blast
  have "supervisor_wf sv1" by (rule wf_walk [OF assms p(1-7)])
  then have "supervisor_wf (spawn_new_generation env new_cfg (pl_to_keep plan) sv1)"
    unfolding spawn_new_generation_def by (rule wf_spawn_all) (simp add: p)
  then show ?thesis unfolding p(8) by (rule wf_frame) simp_all
qed

end
