(* ===== verification/Daemon.thy ===== *)
theory Daemon
  imports Supervisor
begin

text \<open>
  The daemon's main loop (\<open>run_with_factories\<close> in \<open>src/src/flow/supervisor/run.rs\<close>) over the
  supervisor's state: start-up, the events it selects on, the reachable states, and the properties
  of the whole supervisor.
\<close>

section \<open>The main loop\<close>

text \<open>
  \<open>run_with_factories\<close> after start-up: each arm of the \<open>select\<close> as an event. Reloads come from a
  signal or a control command. \<open>Shutdown\<close> cancels the root token, of which every generation's token
  is a child, and awaits the flow tasks.
\<close>

datatype ('j, 'octo) daemon_event =
    ReloadEvent "'octo spawn_env" "task list" "string + 'j config"
  | TaskJoined instant task task_end
  | RespawnDue "'octo spawn_env" respawn_request

fun daemon_event_step :: "('j, 'octo) supervisor \<Rightarrow> ('j, 'octo) daemon_event \<Rightarrow> ('j, 'octo) supervisor" where
  "daemon_event_step sv (ReloadEvent env exits loaded) = run_reload env exits loaded sv"
| "daemon_event_step sv (TaskJoined now t e) = handle_flow_exit now (joined_of t e) (sv\<lparr>sv_tasks := remove1 t (sv_tasks sv)\<rparr>)"
| "daemon_event_step sv (RespawnDue env req) =
     handle_respawn_request env req (sv\<lparr>sv_watchers := remove1 req (sv_watchers sv)\<rparr>)"

definition daemon_start :: "'octo spawn_env \<Rightarrow> string option \<Rightarrow> 'j config \<Rightarrow> ('j, 'octo) supervisor" where
  "daemon_start env config_dir config =
     (let sv = spawn_initial_flows env config
            \<lparr>sv_config = config, sv_registry = registry_new, sv_watchers = [], sv_flow_names = [], sv_tasks = [], sv_cancelled = {},
             sv_next_gen = 0, sv_errors = Map.empty, sv_updates = [], sv_generations = [], sv_pool = credential_pool_new config_dir,
             sv_source_buckets = Map.empty\<rparr>
      in sv\<lparr>sv_flow_names := sort (map fst (rg_handles (sv_registry sv)))\<rparr>)"

definition daemon_shutdown :: "('j, 'octo) supervisor \<Rightarrow> ('j, 'octo) supervisor" where
  "daemon_shutdown sv = sv\<lparr>sv_cancelled := {..<sv_next_gen sv}, sv_tasks := []\<rparr>"

text \<open>A configuration the loader accepts has no two flows of the same name.\<close>

fun valid_event :: "('j, 'octo) daemon_event \<Rightarrow> bool" where
  "valid_event (ReloadEvent env exits (Inr cfg)) = distinct (map fc_name (cf_flow cfg))"
| "valid_event _ = True"

inductive daemon_reachable :: "('j, 'octo) supervisor \<Rightarrow> bool" where
  start: "distinct (map fc_name (cf_flow config)) \<Longrightarrow> daemon_reachable (daemon_start env config_dir config)"
| step: "daemon_reachable sv \<Longrightarrow> valid_event e \<Longrightarrow> daemon_reachable (daemon_event_step sv e)"

section \<open>Lemmas\<close>

lemma wf_start:
  assumes "distinct (map fc_name (cf_flow config))"
  shows "supervisor_wf (daemon_start env config_dir config)"
proof -
  let ?sv0 = "\<lparr>sv_config = config, sv_registry = registry_new, sv_watchers = [], sv_flow_names = [], sv_tasks = [], sv_cancelled = {},
             sv_next_gen = 0, sv_errors = Map.empty, sv_updates = [], sv_generations = [], sv_pool = credential_pool_new config_dir,
             sv_source_buckets = Map.empty\<rparr> :: ('a, 'b) supervisor"
  have "supervisor_wf (foldl (\<lambda>sv flow. if \<not> fc_enabled flow then sv else spawn_flow env config flow sv) sv fs)"
    if "supervisor_wf sv" "set fs \<subseteq> set (cf_flow (sv_config sv))" for sv fs
    using that
  proof (induction fs arbitrary: sv)
    case (Cons f fs)
    then have "supervisor_wf (spawn_flow env config f sv)" if "fc_enabled f" using that by (intro wf_spawn_flow) simp_all
    with Cons show ?case by simp
  qed simp
  moreover have "supervisor_wf ?sv0" using assms by (simp add: supervisor_wf_def registry_new_def pool_wf_new)
  ultimately have "supervisor_wf (spawn_initial_flows env config ?sv0)" unfolding spawn_initial_flows_def by simp
  then show ?thesis unfolding daemon_start_def Let_def by (rule wf_frame) simp_all
qed

lemma wf_event_step:
  assumes wf: "supervisor_wf sv" and "valid_event e"
  shows "supervisor_wf (daemon_event_step sv e)"
proof (cases e)
  case (ReloadEvent env exits loaded)
  show ?thesis
  proof (cases loaded)
    case (Inl message)
    with ReloadEvent show ?thesis by (simp add: run_reload_def) (rule wf_frame [OF wf]; simp)
  next
    case (Inr cfg)
    with ReloadEvent assms show ?thesis by (simp add: wf_reload)
  qed
next
  case (TaskJoined now t en)
  have "supervisor_wf (sv\<lparr>sv_tasks := remove1 t (sv_tasks sv)\<rparr>)" by (rule wf_frame [OF wf]) simp_all
  with TaskJoined show ?thesis by (simp add: wf_flow_exit)
next
  case (RespawnDue env req)
  have "supervisor_wf (sv\<lparr>sv_watchers := remove1 req (sv_watchers sv)\<rparr>)" by (rule wf_frame [OF wf]) simp_all
  with RespawnDue show ?thesis by (simp add: wf_respawn)
qed

lemma reachable_wf: "daemon_reachable sv \<Longrightarrow> supervisor_wf sv"
  by (induction rule: daemon_reachable.induct) (auto intro: wf_start wf_event_step)

text \<open>The handles and errors the spawns of a reload leave.\<close>

definition spawns :: "'j flow_config list \<Rightarrow> string list \<Rightarrow> string \<Rightarrow> bool" where
  "spawns flow_cfgs ks n \<longleftrightarrow> (\<exists>f \<in> set flow_cfgs. fc_name f = n \<and> fc_enabled f) \<and> n \<notin> set ks"

abbreviation spawn_unless_kept ::
  "'octo spawn_env \<Rightarrow> 'j config \<Rightarrow> string list \<Rightarrow> ('j, 'octo) supervisor \<Rightarrow> 'j flow_config \<Rightarrow> ('j, 'octo) supervisor" where
  "spawn_unless_kept env c ks \<equiv> \<lambda>sv flow. if \<not> fc_enabled flow then sv else if fc_name flow \<in> set ks then sv
      else spawn_flow env c flow (on_registry (\<lambda>r. r\<lparr>rg_respawning := rg_respawning r - {fc_name flow}\<rparr>) sv)"

lemma spawn_all_frame:
  "sv_cancelled (foldl (spawn_unless_kept env c ks) sv fs) = sv_cancelled sv"
  "sv_updates (foldl (spawn_unless_kept env c ks) sv fs) = sv_updates sv"
  "sv_config (foldl (spawn_unless_kept env c ks) sv fs) = sv_config sv"
  by (induction fs arbitrary: sv) auto

lemma spawn_all_handles:
  assumes "pool_wf (sv_pool sv)" and "distinct (map fc_name fs)"
  shows "(if spawns fs ks n
      then (\<exists>g \<ge> sv_next_gen sv. handle_of (foldl (spawn_unless_kept env c ks) sv fs) n = Some g) \<or>
        handle_of (foldl (spawn_unless_kept env c ks) sv fs) n = handle_of sv n \<and> setup_failed (sv_errors (foldl (spawn_unless_kept env c ks) sv fs)) n
      else handle_of (foldl (spawn_unless_kept env c ks) sv fs) n = handle_of sv n)
    \<and> sv_next_gen sv \<le> sv_next_gen (foldl (spawn_unless_kept env c ks) sv fs) \<and> pool_wf (sv_pool (foldl (spawn_unless_kept env c ks) sv fs))"
  using assms
proof (induction fs rule: rev_induct)
  case Nil
  then show ?case by (simp add: spawns_def)
next
  case (snoc f fs)
  let ?sv = "foldl (spawn_unless_kept env c ks) sv fs"
  let ?sv1 = "on_registry (\<lambda>r. r\<lparr>rg_respawning := rg_respawning r - {fc_name f}\<rparr>) ?sv"
  have IH: "pool_wf (sv_pool ?sv)" "sv_next_gen sv \<le> sv_next_gen ?sv" using snoc by auto
  have sp: "spawns (fs @ [f]) ks n \<longleftrightarrow> spawns fs ks n \<or> (n = fc_name f \<and> fc_enabled f \<and> n \<notin> set ks)"
    by (auto simp: spawns_def)
  have "fc_name f \<notin> fc_name ` set fs" using snoc.prems(2) by simp
  then have new: "\<not> spawns fs ks (fc_name f)" unfolding spawns_def by (metis imageI)
  show ?case
  proof (cases "\<not> fc_enabled f \<or> fc_name f \<in> set ks")
    case True
    with snoc sp show ?thesis by auto
  next
    case False
    have pw: "pool_wf (sv_pool ?sv1)" using IH by simp
    note eff = spawn_flow_effect [OF pw, where env = env and c = c and f = f]
    show ?thesis
    proof (cases "n = fc_name f")
      case True
      with snoc new have "handle_of ?sv n = handle_of sv n" by auto
      with True False sp eff IH show ?thesis by auto
    next
      case False': False
      with eff(1) [OF False'] have same: "handle_of (spawn_flow env c f ?sv1) n = handle_of ?sv n" "sv_errors (spawn_flow env c f ?sv1) n = sv_errors ?sv n"
        by simp_all
      then have "setup_failed (sv_errors (spawn_flow env c f ?sv1)) n = setup_failed (sv_errors ?sv) n" by (simp add: setup_failed_def)
      with same False False' sp eff(3,4) snoc show ?thesis by (auto split: if_splits)
    qed
  qed
qed

lemma reload_handles:
  fixes sv :: "('j, 'octo) supervisor" and env :: "'octo spawn_env" and exits :: "task list"
  assumes "supervisor_wf sv" and new: "distinct (map fc_name (cf_flow new_cfg))"
  defines "sv' \<equiv> run_reload env exits (Inr new_cfg) sv" and "kp \<equiv> keeps (cf_flow (sv_config sv)) (cf_flow new_cfg) (sv_registry sv)"
  shows "if kp n then handle_of sv' n = handle_of sv n
      else if \<exists>f \<in> set (cf_flow new_cfg). fc_name f = n \<and> fc_enabled f
      then (\<exists>g \<ge> sv_next_gen sv. handle_of sv' n = Some g) \<or>
        handle_of sv' n = None \<and> (n \<noteq> RELOAD_SYNTHETIC_KEY \<longrightarrow> setup_failed (sv_errors sv') n)
      else handle_of sv' n = None"
    and "sv_cancelled sv' = sv_cancelled sv \<union> {g. \<exists>n. handle_of sv n = Some g \<and> \<not> kp n}"
    and "\<exists>removed. sv_updates sv' = sv_updates sv @ map FlowRemoved removed \<and>
      (n \<in> set removed \<longleftrightarrow> (\<exists>b. Remove n b \<in> set (compute_actions (cf_flow (sv_config sv)) (cf_flow new_cfg) (sv_registry sv))) \<or>
        (Disable n True \<in> set (compute_actions (cf_flow (sv_config sv)) (cf_flow new_cfg) (sv_registry sv)) \<or>
         Restart n True \<in> set (compute_actions (cf_flow (sv_config sv)) (cf_flow new_cfg) (sv_registry sv))))"
    and "sv_config sv' = new_cfg"
proof -
  obtain r cancelled plan sv1 where p:
    "apply_actions_to_registry (compute_actions (cf_flow (sv_config sv)) (cf_flow new_cfg) (sv_registry sv)) (sv_registry sv) = (r, cancelled, plan)"
    "sv_registry sv1 = r" "sv_cancelled sv1 = sv_cancelled sv \<union> cancelled" "sv_next_gen sv1 = sv_next_gen sv"
    "sv_config sv1 = new_cfg" "sv_generations sv1 = sv_generations sv"
    "sv_pool sv1 = invalidate_except (collect_kept_credentials (cf_flow new_cfg) (pl_to_keep plan)) (sv_pool sv)"
    "sv_updates sv1 = sv_updates sv @ emit_flow_removed plan"
    "run_reload env exits (Inr new_cfg) sv = finalize_reload (spawn_new_generation env new_cfg (pl_to_keep plan) sv1)"
    by (rule run_reload_parts [of sv new_cfg env exits]) blast
  note wfd = supervisor_wfD [OF assms(1)]
  note ar' = applied_registry [OF p(1) wfd(1)]
  note ar = ar' [unfolded keeps_iff [OF wfd(7) new], folded kp_def]
  have fin: "sv' = finalize_reload (foldl (spawn_unless_kept env new_cfg (pl_to_keep plan)) sv1 (cf_flow new_cfg))"
    unfolding sv'_def p(9) spawn_new_generation_def by simp
  have sp: "spawns (cf_flow new_cfg) (pl_to_keep plan) n \<longleftrightarrow> (\<exists>f \<in> set (cf_flow new_cfg). fc_name f = n \<and> fc_enabled f) \<and> \<not> kp n"
    by (simp add: spawns_def ar(3))
  have kp: "kp n \<Longrightarrow> \<exists>f \<in> set (cf_flow new_cfg). fc_name f = n \<and> fc_enabled f" by (auto simp: kp_def keeps_def)
  have "pool_wf (sv_pool sv1)" unfolding p(7) by (rule pool_wf_invalidate [OF wfd(2)])
  note h = spawn_all_handles [OF this new, of "pl_to_keep plan" n env new_cfg]
  have fail: "setup_failed (sv_errors sv') n = setup_failed (sv_errors (foldl (spawn_unless_kept env new_cfg (pl_to_keep plan)) sv1 (cf_flow new_cfg))) n"
    if "n \<noteq> RELOAD_SYNTHETIC_KEY" using that by (simp add: fin setup_failed_def)
  have hs: "handle_of sv' n = handle_of (foldl (spawn_unless_kept env new_cfg (pl_to_keep plan)) sv1 (cf_flow new_cfg)) n"
    by (simp add: fin)
  show "if kp n then handle_of sv' n = handle_of sv n
      else if \<exists>f \<in> set (cf_flow new_cfg). fc_name f = n \<and> fc_enabled f
      then (\<exists>g \<ge> sv_next_gen sv. handle_of sv' n = Some g) \<or>
        handle_of sv' n = None \<and> (n \<noteq> RELOAD_SYNTHETIC_KEY \<longrightarrow> setup_failed (sv_errors sv') n)
      else handle_of sv' n = None"
    unfolding hs using h ar(1) [of n] sp fail by (auto simp: p(2,4) split: if_splits)
  show "sv_cancelled sv' = sv_cancelled sv \<union> {g. \<exists>n. handle_of sv n = Some g \<and> \<not> kp n}"
    by (simp add: fin spawn_all_frame p(3) ar(2))
  show "sv_config sv' = new_cfg" by (simp add: fin spawn_all_frame p(5))
  have "sv_updates sv' = sv_updates sv @ map FlowRemoved (pl_removed_flows plan @ pl_url_resets plan)"
    by (simp add: fin spawn_all_frame p(8) emit_flow_removed_def)
  then show "\<exists>removed. sv_updates sv' = sv_updates sv @ map FlowRemoved removed \<and>
      (n \<in> set removed \<longleftrightarrow> (\<exists>b. Remove n b \<in> set (compute_actions (cf_flow (sv_config sv)) (cf_flow new_cfg) (sv_registry sv))) \<or>
        (Disable n True \<in> set (compute_actions (cf_flow (sv_config sv)) (cf_flow new_cfg) (sv_registry sv)) \<or>
         Restart n True \<in> set (compute_actions (cf_flow (sv_config sv)) (cf_flow new_cfg) (sv_registry sv))))"
    using ar'(4,5) by (intro exI [of _ "pl_removed_flows plan @ pl_url_resets plan"]) simp
qed

section \<open>Properties\<close>

definition example_override :: "unit poll_override" where
  "example_override = \<lparr>po_source_interval = None, po_job_interval = None, po_jitter = None, po_cooldown = None\<rparr>"

definition example_flow_config :: "string \<Rightarrow> string \<Rightarrow> unit flow_config" where
  "example_flow_config name ref_name = \<lparr>fc_name = name, fc_enabled = True, fc_description = None,
     fc_source = \<lparr>src_url = ''https://example.org/r'', src_ref = ref_name, src_credential = None\<rparr>,
     fc_action = GithubWorkflowDispatch ''o/r'' ''ci.yml'' ''refs/heads/main'' [] ''pat'', fc_destination = [], fc_poll = example_override\<rparr>"

definition example_config :: "unit flow_config list \<Rightarrow> unit config" where
  "example_config fs = \<lparr>cf_poll = \<lparr>pc_source_interval = None, pc_job_interval = from_secs 30, pc_jitter = (), pc_cooldown = from_secs 300\<rparr>,
     cf_request_timeout = from_secs 30, cf_flow = fs\<rparr>"

definition example_spawn_env :: "unit spawn_env" where
  "example_spawn_env = \<lparr>sp_setup = \<lparr>su_process = example_env_with 0x180, su_url_parse = \<lambda>_. Inl ''e'', su_octo_build = \<lambda>_ _. Inr (),
     su_hostname = ''h''\<rparr>, sp_valid_hex = \<lambda>_. True, sp_mirror = default_state, sp_now = 0\<rparr>"

abbreviation example_flows :: "string \<Rightarrow> unit flow_config list" where
  "example_flows ref_name \<equiv> [example_flow_config ''a'' ref_name, example_flow_config ''b'' ''refs/heads/main'']"

definition example_supervisor :: "(unit, unit) supervisor" where
  "example_supervisor = daemon_start example_spawn_env (Some ''/etc/gcit'') (example_config (example_flows ''refs/heads/main''))"

lemma example_reachable: "daemon_reachable example_supervisor"
  unfolding example_supervisor_def
  by (rule daemon_reachable.start) (simp add: example_config_def example_flow_config_def)

definition example_pool :: "unit credential_pool" where
  "example_pool = fst (acquire_github (\<lambda>_ _. Inr ()) (example_env_with 0x180) (from_secs 30) ''pat'' (credential_pool_new (Some ''/etc/gcit'')))"

lemma example_acquire:
  "\<exists>r. acquire_github (\<lambda>_ _. Inr ()) (example_env_with 0x180) (from_secs 30) ''pat'' (credential_pool_new (Some ''/etc/gcit'')) = (example_pool, Inr r) \<and>
     acquire_github (\<lambda>_ _. Inr ()) (example_env_with 0x180) (from_secs 30) ''pat'' example_pool = (example_pool, Inr r)"
proof -
  have "cp_by_id (credential_pool_new (Some ''/etc/gcit'') :: unit credential_pool) ''pat'' = None" by (simp add: credential_pool_new_def)
  then obtain r where a: "acquire_github (\<lambda>_ _. Inr ()) (example_env_with 0x180) (from_secs 30) ''pat'' (credential_pool_new (Some ''/etc/gcit'')) = (example_pool, Inr r)"
    by (simp add: example_pool_def acquire_github_def example_resolve client_build_def Let_def)
  then have "cp_by_id example_pool ''pat'' = Some r" by (rule acquire_github_pool(3)) (simp_all add: pool_wf_new)
  with a show ?thesis by (simp add: acquire_github_def)
qed

lemma example_supervisor_handles:
  "rg_handles (sv_registry example_supervisor) = [(''a'', 0), (''b'', 1)]" "sv_next_gen example_supervisor = 2"
  "sv_cancelled example_supervisor = {}" "sv_updates example_supervisor = []"
  "sv_config example_supervisor = example_config (example_flows ''refs/heads/main'')"
proof -
  obtain r where r: "acquire_github (\<lambda>_ _. Inr ()) (example_env_with 0x180) (from_secs 30) ''pat'' (credential_pool_new (Some ''/etc/gcit'')) = (example_pool, Inr r)"
    "acquire_github (\<lambda>_ _. Inr ()) (example_env_with 0x180) (from_secs 30) ''pat'' example_pool = (example_pool, Inr r)"
    using example_acquire by blast
  show "rg_handles (sv_registry example_supervisor) = [(''a'', 0), (''b'', 1)]" "sv_next_gen example_supervisor = 2"
    "sv_cancelled example_supervisor = {}" "sv_updates example_supervisor = []"
    "sv_config example_supervisor = example_config (example_flows ''refs/heads/main'')"
    by (simp_all add: example_supervisor_def daemon_start_def spawn_initial_flows_def spawn_flow_def example_config_def example_flow_config_def
        example_spawn_env_def build_notifiers_def r registry_new_def Let_def)
qed

text \<open>
  C6. In every state the daemon reaches, a flow with a handle is enabled in the configuration in
  force, its generation was spawned for it with the action the configuration has and has not been
  cancelled, no other flow has the same generation, and the quota poller of its credential runs.
\<close>

theorem running_flows_consistent:
  assumes "daemon_reachable sv" and "handle_of sv n = Some g"
  shows "g \<notin> sv_cancelled sv \<and> (\<forall>m. handle_of sv m = Some g \<longrightarrow> m = n) \<and>
    (\<exists>gen \<in> set (sv_generations sv). gn_gen gen = g \<and> gn_flow gen = n \<and>
       gn_rate_limit_cancel gen \<notin> cp_cancelled (sv_pool sv) \<and>
       (\<exists>f \<in> set (cf_flow (sv_config sv)). fc_name f = n \<and> fc_enabled f \<and> fd_action (gn_dispatch gen) = fc_action f))"
proof -
  note wf = reachable_wf [OF assms(1)]
  from supervisor_wfD(6) [OF wf assms(2)] obtain gen f r where g: "gen \<in> set (sv_generations sv)" "gn_gen gen = g" "gn_flow gen = n"
    "f \<in> set (cf_flow (sv_config sv))" "fc_name f = n" "fc_enabled f" "fd_action (gn_dispatch gen) = fc_action f"
    "cp_by_id (sv_pool sv) (action_credential (fc_action f)) = Some r" "gr_rate_limit_cancel r = gn_rate_limit_cancel gen"
    unfolding handle_ok_def by blast
  have "gr_rate_limit_cancel r \<in> {t. t < cp_pollers (sv_pool sv) \<and> t \<notin> cp_cancelled (sv_pool sv)}"
    unfolding pool_wf_live(1) [OF supervisor_wfD(2) [OF wf]] using g(8) by (auto intro: ranI)
  with g(9) have "gn_rate_limit_cancel gen \<notin> cp_cancelled (sv_pool sv)" by simp
  with g have "\<exists>gen \<in> set (sv_generations sv). gn_gen gen = g \<and> gn_flow gen = n \<and>
       gn_rate_limit_cancel gen \<notin> cp_cancelled (sv_pool sv) \<and>
       (\<exists>f \<in> set (cf_flow (sv_config sv)). fc_name f = n \<and> fc_enabled f \<and> fd_action (gn_dispatch gen) = fc_action f)"
    by (intro bexI [of _ gen] bexI [of _ f] conjI) simp_all
  moreover have "m = n" if "handle_of sv m = Some g" for m using handle_inj [OF wf that assms(2)] .
  ultimately show ?thesis using supervisor_wfD(5) [OF wf assms(2)] by blast
qed

theorem running_flows_consistent_witness:
  "0 \<notin> sv_cancelled example_supervisor \<and> (\<exists>gen \<in> set (sv_generations example_supervisor). gn_flow gen = ''a'')"
proof -
  have "handle_of example_supervisor ''a'' = Some 0" by (simp add: example_supervisor_handles)
  from running_flows_consistent [OF example_reachable this] show ?thesis by blast
qed

text \<open>
  C7. A reload converges to the new configuration: a running flow whose shape did not change
  keeps its generation; every other enabled flow of the new configuration runs a fresh generation, or
  has none and its setup failure is what \<open>status\<close> shows; no other flow has a handle; and the token of
  every generation not kept has been cancelled.
\<close>

theorem reload_converges:
  assumes "daemon_reachable sv" and "distinct (map fc_name (cf_flow new_cfg))"
    and "run_reload env exits (Inr new_cfg) sv = sv'" and "n \<noteq> RELOAD_SYNTHETIC_KEY"
  shows "(if keeps (cf_flow (sv_config sv)) (cf_flow new_cfg) (sv_registry sv) n then handle_of sv' n = handle_of sv n
      else if \<exists>f \<in> set (cf_flow new_cfg). fc_name f = n \<and> fc_enabled f
      then (\<exists>g \<ge> sv_next_gen sv. handle_of sv' n = Some g) \<or> handle_of sv' n = None \<and> setup_failed (sv_errors sv') n
      else handle_of sv' n = None) \<and>
    (handle_of sv n = Some g \<and> \<not> keeps (cf_flow (sv_config sv)) (cf_flow new_cfg) (sv_registry sv) n \<longrightarrow> g \<in> sv_cancelled sv')"
proof (rule conjI)
  note wf = reachable_wf [OF assms(1)]
  show "if keeps (cf_flow (sv_config sv)) (cf_flow new_cfg) (sv_registry sv) n then handle_of sv' n = handle_of sv n
      else if \<exists>f \<in> set (cf_flow new_cfg). fc_name f = n \<and> fc_enabled f
      then (\<exists>g \<ge> sv_next_gen sv. handle_of sv' n = Some g) \<or> handle_of sv' n = None \<and> setup_failed (sv_errors sv') n
      else handle_of sv' n = None"
    using reload_handles(1) [OF wf assms(2), of n env exits] unfolding assms(3) using assms(4) by argo
  show "handle_of sv n = Some g \<and> \<not> keeps (cf_flow (sv_config sv)) (cf_flow new_cfg) (sv_registry sv) n \<longrightarrow> g \<in> sv_cancelled sv'"
    using reload_handles(2) [OF wf assms(2), of env exits] unfolding assms(3) by blast
qed

abbreviation example_reload :: "unit flow_config list \<Rightarrow> (unit, unit) supervisor" where
  "example_reload fs \<equiv> run_reload example_spawn_env [] (Inr (example_config fs)) example_supervisor"

theorem reload_converges_witness:
  "(\<exists>g \<ge> 2. handle_of (example_reload (example_flows ''refs/heads/dev'')) ''a'' = Some g) \<or>
     setup_failed (sv_errors (example_reload (example_flows ''refs/heads/dev''))) ''a''"
proof -
  have "\<not> keeps (example_flows ''refs/heads/main'') (example_flows ''refs/heads/dev'') (sv_registry example_supervisor) ''a''"
    by (auto simp: keeps_def example_flow_config_def flow_config_unchanged_def flow_diff_def)
  moreover have "cf_flow (example_config fs) = fs" for fs by (simp add: example_config_def)
  moreover have "\<exists>f \<in> set (example_flows ''refs/heads/dev''). fc_name f = ''a'' \<and> fc_enabled f"
    "distinct (map fc_name (example_flows ''refs/heads/dev''))" by (simp_all add: example_flow_config_def)
  moreover have "''a'' \<noteq> RELOAD_SYNTHETIC_KEY" by (simp add: RELOAD_SYNTHETIC_KEY_def)
  ultimately show ?thesis
    using reload_converges [OF example_reachable _ refl, of "example_config (example_flows ''refs/heads/dev'')" "''a''" example_spawn_env "[]"]
    unfolding example_supervisor_handles by metis
qed

text \<open>
  C35. A reload drops the persistent state of exactly the flows that left the configuration
  (known before, or still running) and of the running flows whose source URL changed.
\<close>

theorem reload_resets_state_exactly:
  assumes "daemon_reachable sv" and "distinct (map fc_name (cf_flow new_cfg))" and "run_reload env exits (Inr new_cfg) sv = sv'"
  shows "\<exists>removed. sv_updates sv' = sv_updates sv @ map FlowRemoved removed \<and>
    (n \<in> set removed \<longleftrightarrow>
       n \<notin> fc_name ` set (cf_flow new_cfg) \<and> (n \<in> fc_name ` set (cf_flow (sv_config sv)) \<or> n \<in> set (live_names sv)) \<or>
       n \<in> set (live_names sv) \<and> (\<exists>f \<in> set (cf_flow (sv_config sv)). \<exists>nf \<in> set (cf_flow new_cfg). fc_name f = n \<and> fc_name nf = n \<and>
         src_url (fc_source f) \<noteq> src_url (fc_source nf)))"
proof -
  let ?old = "cf_flow (sv_config sv)" and ?new = "cf_flow new_cfg"
  note wf = reachable_wf [OF assms(1)]
  note old = supervisor_wfD(7) [OF wf]
  have none: "map_of (by_name cfg) n = None \<longleftrightarrow> n \<notin> fc_name ` set cfg" if "distinct (map fc_name cfg)" for cfg :: "'a flow_config list"
    using map_of_by_name [OF that, of n] by (metis (no_types, lifting) image_iff not_Some_eq)
  have gone: "(\<exists>b. Remove n b \<in> set (compute_actions ?old ?new (sv_registry sv))) \<longleftrightarrow>
      map_of (by_name ?new) n = None \<and> (map_of (by_name ?old) n \<noteq> None \<or> n \<in> set (live_names sv))"
    by (simp add: compute_actions_def Remove_iff)
  have reset: "(Disable n True \<in> set (compute_actions ?old ?new (sv_registry sv)) \<or> Restart n True \<in> set (compute_actions ?old ?new (sv_registry sv))) \<longleftrightarrow>
      (\<exists>nf f. map_of (by_name ?new) n = Some nf \<and> map_of (by_name ?old) n = Some f \<and> n \<in> set (live_names sv) \<and> url_changed f nf)"
    by (simp add: compute_actions_def url_reset_iff)
  obtain removed where rm: "sv_updates sv' = sv_updates sv @ map FlowRemoved removed"
    "n \<in> set removed \<longleftrightarrow>
      (map_of (by_name ?new) n = None \<and> (map_of (by_name ?old) n \<noteq> None \<or> n \<in> set (live_names sv))) \<or>
      (\<exists>nf f. map_of (by_name ?new) n = Some nf \<and> map_of (by_name ?old) n = Some f \<and> n \<in> set (live_names sv) \<and> url_changed f nf)"
    using reload_handles(3) [OF wf assms(2), of env exits n] unfolding assms(3) gone reset by (elim exE conjE)
  have "n \<in> set removed \<longleftrightarrow>
       n \<notin> fc_name ` set ?new \<and> (n \<in> fc_name ` set ?old \<or> n \<in> set (live_names sv)) \<or>
       n \<in> set (live_names sv) \<and> (\<exists>f \<in> set ?old. \<exists>nf \<in> set ?new. fc_name f = n \<and> fc_name nf = n \<and> src_url (fc_source f) \<noteq> src_url (fc_source nf))"
    unfolding rm(2) none [OF old] none [OF assms(2)] map_of_by_name [OF old] map_of_by_name [OF assms(2)] url_changed_def by blast
  with rm(1) show ?thesis by blast
qed

theorem reload_resets_state_exactly_witness:
  "\<exists>removed. sv_updates (example_reload [example_flow_config ''b'' ''refs/heads/main'']) = map FlowRemoved removed \<and> ''a'' \<in> set removed"
proof -
  have "cf_flow (example_config fs) = fs" for fs by (simp add: example_config_def)
  moreover have "fc_name (example_flow_config m ref_name) = m" for m ref_name by (simp add: example_flow_config_def)
  ultimately show ?thesis
    using reload_resets_state_exactly [OF example_reachable _ refl,
        of "example_config [example_flow_config ''b'' ''refs/heads/main'']" example_spawn_env "[]" "''a''"]
    by (auto simp: example_supervisor_handles)
qed

text \<open>
  A late exit of an old generation orphans the running one: the exit handler drops the
  flow's handle whatever generation the exited task belonged to, so when a task that outlived the
  reload's drain returns, the next reload of an unchanged configuration starts another generation of
  the flow (or records why it cannot) without cancelling the one that is running.
\<close>

theorem late_exit_orphans_generation:
  assumes "daemon_reachable sv" and "handle_of sv f = Some g" and "f \<noteq> RELOAD_SYNTHETIC_KEY"
    and "daemon_event_step (daemon_event_step sv (TaskJoined now \<lparr>t_flow = f, t_gen = old, t_role = role\<rparr> TaskReturned))
      (ReloadEvent env exits (Inr (sv_config sv))) = sv'"
  shows "g \<notin> sv_cancelled sv' \<and> ((\<exists>g' > g. handle_of sv' f = Some g') \<or> setup_failed (sv_errors sv') f)"
proof -
  let ?e = "TaskJoined now \<lparr>t_flow = f, t_gen = old, t_role = role\<rparr> TaskReturned"
  let ?sv = "daemon_event_step sv ?e"
  have r1: "daemon_reachable ?sv" using assms(1) by (rule daemon_reachable.step) simp
  note wf = reachable_wf [OF assms(1)] and wf1 = reachable_wf [OF r1]
  have hs: "rg_handles (sv_registry ?sv) = AList.delete f (rg_handles (sv_registry sv))"
    and fr: "sv_cancelled ?sv = sv_cancelled sv" "sv_next_gen ?sv = sv_next_gen sv" "sv_config ?sv = sv_config sv"
    by (simp_all add: decrement_pending_def drop_handle_def Let_def split: option.split)
  have "f \<notin> set (live_names ?sv)" unfolding hs by (simp add: delete_keys)
  then have k: "\<not> keeps (cf_flow (sv_config ?sv)) (cf_flow (sv_config sv)) (sv_registry ?sv) f" by (simp add: keeps_def)
  obtain fc where fc: "fc \<in> set (cf_flow (sv_config sv))" "fc_name fc = f" "fc_enabled fc"
    using supervisor_wfD(6) [OF wf assms(2)] unfolding handle_ok_def by blast
  have sv': "sv' = run_reload env exits (Inr (sv_config sv)) ?sv" using assms(4) by simp
  note rh = reload_handles(1) [OF wf1 supervisor_wfD(7) [OF wf], of f env exits, folded sv']
    reload_handles(2) [OF wf1 supervisor_wfD(7) [OF wf], of env exits, folded sv']
  have "handle_of ?sv m \<noteq> Some g" for m
    unfolding hs using handle_inj [OF wf assms(2), of m] by (auto simp: delete_conv')
  then have "g \<notin> sv_cancelled sv'" unfolding rh(2) fr using supervisor_wfD(5) [OF wf assms(2)] by simp
  moreover have "(\<exists>g' \<ge> sv_next_gen sv. handle_of sv' f = Some g') \<or> setup_failed (sv_errors sv') f"
  proof -
    have ex: "\<exists>fc \<in> set (cf_flow (sv_config sv)). fc_name fc = f \<and> fc_enabled fc" using fc by blast
    from rh(1) [unfolded if_not_P [OF k] if_P [OF ex]] assms(3) show ?thesis unfolding fr(2) by blast
  qed
  ultimately show ?thesis using handle_gen_bound [OF wf assms(2)] by (meson order_less_le_trans)
qed

theorem late_exit_orphans_generation_witness:
  "0 \<notin> sv_cancelled (daemon_event_step (daemon_event_step example_supervisor (TaskJoined 0 \<lparr>t_flow = ''a'', t_gen = 7, t_role = Poll\<rparr> TaskReturned))
     (ReloadEvent example_spawn_env [] (Inr (sv_config example_supervisor))))"
proof -
  have "handle_of example_supervisor ''a'' = Some 0" "''a'' \<noteq> RELOAD_SYNTHETIC_KEY"
    by (simp_all add: example_supervisor_handles RELOAD_SYNTHETIC_KEY_def)
  from late_exit_orphans_generation [OF example_reachable this refl] show ?thesis by blast
qed

end
