(* ===== verification/Control.thy ===== *)
theory Control
  imports Daemon
begin

text \<open>
  The control surface: the protocol (\<open>src/src/control/protocol.rs\<close>), the server's connection loop
  and reload gate (\<open>src/src/control/server.rs\<close>), the client (\<open>client.rs\<close>), and the supervisor's side
  (\<open>src/src/flow/supervisor/control\<close>): status, manual triggers, reload commands. Framing and JSON
  text are the environment's (\<open>decode\<close>, \<open>encode\<close>); a JSON object is a map.
\<close>

section \<open>Protocol\<close>

type_synonym uuid = "128 word"

datatype json = JNull | JBool bool | JNum nat | JStr string | JObject "string \<rightharpoonup> json"

definition MAX_FRAME_LEN :: nat where [model_defs]: "MAX_FRAME_LEN = 64 * 1024"
definition READ_TIMEOUT_SECS :: nat where [model_defs]: "READ_TIMEOUT_SECS = 5"
definition RELOAD_WINDOW :: duration where [model_defs]: "RELOAD_WINDOW = from_secs 1"

datatype request =
    TriggerRequest uuid string bool
  | StatusRequest uuid "string option"
  | ReloadRequest uuid
  | VersionRequest uuid

fun request_id :: "request \<Rightarrow> uuid" where
  "request_id (TriggerRequest i _ _) = i"
| "request_id (StatusRequest i _) = i"
| "request_id (ReloadRequest i) = i"
| "request_id (VersionRequest i) = i"

datatype response = OkResponse uuid json | ErrorResponse uuid string

fun response_id :: "response \<Rightarrow> uuid" where
  "response_id (OkResponse i _) = i"
| "response_id (ErrorResponse i _) = i"

section \<open>Server\<close>

text \<open>The \<open>Handler\<close> trait: what each method replies, and the state it leaves.\<close>

record 's handler =
  h_trigger :: "string \<Rightarrow> bool \<Rightarrow> 's \<Rightarrow> (string + json) \<times> 's"
  h_status :: "string option \<Rightarrow> 's \<Rightarrow> (string + json) \<times> 's"
  h_reload :: "'s \<Rightarrow> (string + json) \<times> 's"
  h_version :: "'s \<Rightarrow> (string + json) \<times> 's"

text \<open>\<open>duration_since\<close> is zero for an earlier instant.\<close>

definition try_acquire :: "instant option \<Rightarrow> instant \<Rightarrow> instant option \<times> bool" where
  "try_acquire gate now =
     (case gate of
        Some prev \<Rightarrow> if nat (now - prev) < RELOAD_WINDOW then (gate, False) else (Some now, True)
      | None \<Rightarrow> (Some now, True))"

definition reply_of :: "uuid \<Rightarrow> string + json \<Rightarrow> response" where
  "reply_of i r = (case r of Inr data \<Rightarrow> OkResponse i data | Inl message \<Rightarrow> ErrorResponse i message)"

fun dispatch_request :: "'s handler \<Rightarrow> instant \<Rightarrow> request \<Rightarrow> instant option \<times> 's \<Rightarrow> response \<times> (instant option \<times> 's)" where
  "dispatch_request h now (TriggerRequest i flow dry_run) (gate, s) =
     (let (r, s') = h_trigger h flow dry_run s in (reply_of i r, (gate, s')))"
| "dispatch_request h now (StatusRequest i flow) (gate, s) =
     (let (r, s') = h_status h flow s in (reply_of i r, (gate, s')))"
| "dispatch_request h now (ReloadRequest i) (gate, s) =
     (let (gate', acquired) = try_acquire gate now
      in if \<not> acquired then (ErrorResponse i ''reload rate-limited'', (gate', s))
         else let (r, s') = h_reload h s in (reply_of i r, (gate', s')))"
| "dispatch_request h now (VersionRequest i) (gate, s) =
     (let (r, s') = h_version h s in (reply_of i r, (gate, s')))"

text \<open>
  What the connection's \<open>select\<close> gave, the handler and the time at which the request is served, and
  whether the socket takes the reply. The codec refuses a reply longer than a frame.
\<close>

datatype read_event = ReadCancelled | ReadTimedOut | ReadEof | FrameError string | Frame string

record 's connection_event =
  ce_read :: read_event
  ce_handler :: "'s handler"
  ce_now :: instant
  ce_socket_ok :: bool

definition send_response :: "(response \<Rightarrow> string) \<Rightarrow> bool \<Rightarrow> response \<Rightarrow> bool" where
  "send_response encode socket_ok resp \<longleftrightarrow> length (encode resp) \<le> MAX_FRAME_LEN \<and> socket_ok"

text \<open>The replies the loop sent, each with whether it was taken.\<close>

fun connection_loop ::
  "(string \<Rightarrow> string + request) \<Rightarrow> (response \<Rightarrow> string) \<Rightarrow> 's connection_event list \<Rightarrow> instant option \<times> 's
     \<Rightarrow> (response \<times> bool) list \<times> (instant option \<times> 's)"
where
  "connection_loop decode encode [] w = ([], w)"
| "connection_loop decode encode (ev # evs) w =
     (case ce_read ev of
        ReadCancelled \<Rightarrow> ([], w)
      | ReadTimedOut \<Rightarrow> ([], w)
      | ReadEof \<Rightarrow> ([], w)
      | FrameError e \<Rightarrow>
         (let resp = ErrorResponse 0 (''frame error: '' @ e)
          in ([(resp, send_response encode (ce_socket_ok ev) resp)], w))
      | Frame bytes \<Rightarrow>
         (let (resp, w') =
            (case decode bytes of
               Inl e \<Rightarrow> (ErrorResponse 0 (''invalid request: '' @ e), w)
             | Inr req \<Rightarrow> dispatch_request (ce_handler ev) (ce_now ev) req w);
              sent = send_response encode (ce_socket_ok ev) resp
          in if \<not> sent then ([(resp, False)], w')
             else let (rs, w'') = connection_loop decode encode evs w' in ((resp, True) # rs, w'')))"

definition handle_connection ::
  "(string \<Rightarrow> string + request) \<Rightarrow> (response \<Rightarrow> string) \<Rightarrow> u32 \<Rightarrow> string + u32 \<Rightarrow> 's connection_event list
     \<Rightarrow> instant option \<times> 's \<Rightarrow> string + (response \<times> bool) list \<times> (instant option \<times> 's)"
where
  "handle_connection decode encode our_uid peer_cred evs w =
     (case peer_cred of
        Inl e \<Rightarrow> Inl e
      | Inr peer_uid \<Rightarrow> if peer_uid \<noteq> our_uid then Inr ([], w) else Inr (connection_loop decode encode evs w))"

section \<open>Client\<close>

datatype client_event = ReplyTimedOut | ReplyClosed | ReplyFrameError string | ReplyFrame string

definition client_send ::
  "(string \<Rightarrow> string + response) \<Rightarrow> (uuid \<Rightarrow> string) \<Rightarrow> request \<Rightarrow> string option \<Rightarrow> client_event \<Rightarrow> string + response" where
  "client_send decode show_uuid req send_error next_frame =
     (case send_error of
        Some e \<Rightarrow> Inl e
      | None \<Rightarrow>
         (case next_frame of
            ReplyTimedOut \<Rightarrow> Inl (''control reply timed out after '' @ show_nat READ_TIMEOUT_SECS @ ''s'')
          | ReplyClosed \<Rightarrow> Inl ''control connection closed before response''
          | ReplyFrameError e \<Rightarrow> Inl (''frame error: '' @ e)
          | ReplyFrame bytes \<Rightarrow>
             (case decode bytes of
                Inl e \<Rightarrow> Inl e
              | Inr resp \<Rightarrow>
                  if response_id resp \<noteq> request_id req
                  then Inl (''response id mismatch: want '' @ show_uuid (request_id req) @ '' got '' @ show_uuid (response_id resp))
                  else Inr resp)))"

text \<open>The exit codes of \<open>gcit trigger\<close>, \<open>gcit reload\<close> and \<open>gcit status\<close> (\<open>src/src/cli\<close>).\<close>


definition cli_exit :: "string + response \<Rightarrow> nat" where
  "cli_exit r = (case r of Inr (OkResponse _ _) \<Rightarrow> EXIT_OK | _ \<Rightarrow> EXIT_TEMPFAIL)"

definition cli_trigger :: "bool \<Rightarrow> string \<Rightarrow> string + response \<Rightarrow> nat" where
  "cli_trigger connected flow r =
     (if flow = [] then EXIT_USAGE else if \<not> connected then EXIT_TEMPFAIL else cli_exit r)"

definition cli_reload :: "bool \<Rightarrow> string + response \<Rightarrow> nat" where
  "cli_reload connected r = (if \<not> connected then EXIT_TEMPFAIL else cli_exit r)"

section \<open>Supervisor side\<close>

text \<open>
  The handler's view of the daemon: the supervisor, the state mirror, and the signals put into the
  trigger channels of the generations. Everything else a command reads is in \<open>control_env\<close>.
\<close>

record ('j, 'octo, 'oid) daemon_control =
  dc_supervisor :: "('j, 'octo) supervisor"
  dc_mirror :: State_Apply.state
  dc_triggers :: "(nat \<times> 'oid trigger_signal) list"

datatype command_fate = CommandHandled | CommandChannelClosed | ReplyDropped

record ('j, 'octo, 'oid) control_env =
  co_fate :: command_fate
  co_spawn :: "'octo spawn_env"
  co_exits :: "task list"
  co_loaded :: "string + 'j config"
  co_now :: instant
  co_channel_open :: "nat \<Rightarrow> bool"
  co_mirror_poisoned :: bool
  co_from_hex :: "string \<Rightarrow> string + 'oid"
  co_to_hex :: "'oid \<Rightarrow> string"
  co_null :: 'oid
  co_new_uuid :: string
  co_render :: renderer
  co_to_rfc3339 :: "instant \<Rightarrow> string"
  co_version :: string

datatype control_command = ReloadCommand | TriggerCommand string bool

definition opt_rfc3339 :: "(instant \<Rightarrow> string) \<Rightarrow> instant option \<Rightarrow> json" where
  "opt_rfc3339 to_rfc3339 t = (case t of Some t \<Rightarrow> JStr (to_rfc3339 t) | None \<Rightarrow> JNull)"

definition render_one ::
  "(instant \<Rightarrow> string) \<Rightarrow> string \<Rightarrow> (string \<rightharpoonup> flow_state) \<Rightarrow> last_errors \<Rightarrow> json" where
  "render_one to_rfc3339 name flows_state errors =
     (let st = flows_state name
      in JObject
        [''state'' \<mapsto> JStr (case (errors name, st) of (Some _, _) \<Rightarrow> ''errored'' | (None, Some _) \<Rightarrow> ''running'' | (None, None) \<Rightarrow> ''starting''),
         ''last_sha'' \<mapsto> (case Option.bind st last_sha of Some s \<Rightarrow> JStr s | None \<Rightarrow> JNull),
         ''last_poll_at'' \<mapsto> opt_rfc3339 to_rfc3339 (Option.bind st last_poll_at),
         ''last_dispatched_at'' \<mapsto> opt_rfc3339 to_rfc3339 (Option.bind st last_dispatched_at),
         ''cooldown_until'' \<mapsto> opt_rfc3339 to_rfc3339 (Option.bind st cooldown_until),
         ''active_runs'' \<mapsto> JNum (case st of Some s \<Rightarrow> length (active_runs s) | None \<Rightarrow> 0),
         ''notified_runs'' \<mapsto> JNum (case st of Some s \<Rightarrow> length (notified_runs s) | None \<Rightarrow> 0),
         ''last_error'' \<mapsto>
           (case errors name of
              None \<Rightarrow> JNull
            | Some e \<Rightarrow> JObject [''at'' \<mapsto> JStr (to_rfc3339 (fle_at e)), ''kind'' \<mapsto> JStr (fle_kind e), ''message'' \<mapsto> JStr (fle_message e),
                ''retry_at'' \<mapsto> opt_rfc3339 to_rfc3339 (fle_retry_at e)])])"

definition control_status ::
  "('j, 'octo, 'oid) control_env \<Rightarrow> string option \<Rightarrow> ('j, 'octo, 'oid) daemon_control \<Rightarrow> string + json" where
  "control_status env flow dc =
     (let names = sv_flow_names (dc_supervisor dc); errors = sv_errors (dc_supervisor dc);
          flows_state = flows (dc_mirror dc); one = (\<lambda>n. render_one (co_to_rfc3339 env) n flows_state errors)
      in if co_mirror_poisoned env then Inl ''state mirror mutex poisoned''
         else case flow of
           Some f \<Rightarrow>
             if f \<notin> set names then Inl (''flow '' @ backquoted f @ '' not running'')
             else Inr (JObject [f \<mapsto> one f])
         | None \<Rightarrow>
             (let out = foldl (\<lambda>m n. m(n \<mapsto> one n)) Map.empty names
              in Inr (JObject (\<lambda>k. if out k = None \<and> errors k \<noteq> None then Some (one k) else out k))))"

definition read_last_sha ::
  "(string \<Rightarrow> string + 'oid) \<Rightarrow> bool \<Rightarrow> State_Apply.state \<Rightarrow> string \<Rightarrow> string + 'oid" where
  "read_last_sha from_hex poisoned mirror flow =
     (if poisoned then Inl ''state mirror mutex poisoned''
      else case flows mirror flow of
        None \<Rightarrow> Inl (''flow '' @ squoted flow @ '' has no recorded state yet'')
      | Some entry \<Rightarrow>
         (case last_sha entry of
            None \<Rightarrow> Inl (''flow '' @ squoted flow @ '' has no observed sha yet (manual trigger requires at least one poll cycle)'')
          | Some sha_hex \<Rightarrow>
             (case from_hex sha_hex of
                Inl e \<Rightarrow> Inl (''flow '' @ squoted flow @ '' last_sha is not valid hex: '' @ e)
              | Inr sha \<Rightarrow> Inr sha)))"

definition render_dry_run_payload :: "('j, 'octo, 'oid) control_env \<Rightarrow> 'j flow_config \<Rightarrow> string + json" where
  "render_dry_run_payload env flow =
     (case fc_action flow of GithubWorkflowDispatch repo workflow ref_name inputs _ \<Rightarrow>
       (let gcit_run_id = co_new_uuid env;
            probe_run_ctx = \<lparr>rc_flow_name = fc_name flow, rc_flow_description = fc_description flow,
              rc_url = src_url (fc_source flow), rc_ref_name = src_ref (fc_source flow), rc_sha = co_null env,
              rc_sha_short = replicate 12 (CHR ''0''), rc_repo = repo, rc_workflow = workflow, rc_run_id = 0, rc_run_url = [],
              rc_dispatched_at = co_now env, rc_gcit_run_id = gcit_run_id\<rparr>;
            data = render_context (co_to_hex env) (co_to_rfc3339 env) probe_run_ctx (empty_run_summary 0)
        in case render_inputs (\<lambda>t. co_render env t data) inputs of
             Inl e \<Rightarrow> Inl (''render inputs (dry-run): '' @ e)
           | Inr rendered_inputs \<Rightarrow>
              (let payload = build_inputs_payload rendered_inputs gcit_run_id
               in Inr (JObject [''flow'' \<mapsto> JStr (fc_name flow), ''dry_run'' \<mapsto> JBool True, ''repo'' \<mapsto> JStr repo, ''workflow'' \<mapsto> JStr workflow,
                    ''ref'' \<mapsto> JStr ref_name, ''gcit_run_id'' \<mapsto> JStr gcit_run_id,
                    ''rendered_inputs'' \<mapsto> JObject (map_option JStr \<circ> payload)]))))"

definition run_trigger ::
  "('j, 'octo, 'oid) control_env \<Rightarrow> string \<Rightarrow> bool \<Rightarrow> ('j, 'octo, 'oid) daemon_control
     \<Rightarrow> (string + json) \<times> ('j, 'octo, 'oid) daemon_control"
where
  "run_trigger env flow_name dry_run dc =
     (case find (\<lambda>f. fc_name f = flow_name) (cf_flow (sv_config (dc_supervisor dc))) of
        None \<Rightarrow> (Inl (''flow '' @ squoted flow_name @ '' not found in current config''), dc)
      | Some flow_cfg \<Rightarrow>
          if \<not> fc_enabled flow_cfg then (Inl (''flow '' @ squoted flow_name @ '' is disabled in current config''), dc)
          else if dry_run then (render_dry_run_payload env flow_cfg, dc)
          else case read_last_sha (co_from_hex env) (co_mirror_poisoned env) (dc_mirror dc) flow_name of
            Inl e \<Rightarrow> (Inl e, dc)
          | Inr sha \<Rightarrow>
             (case map_of (rg_handles (sv_registry (dc_supervisor dc))) flow_name of
                None \<Rightarrow> (Inl (''flow '' @ squoted flow_name @ '' is not currently running''), dc)
              | Some g \<Rightarrow>
                 (let signal = \<lparr>ts_observed_sha = sha, ts_observed_at = co_now env\<rparr>
                  in if \<not> co_channel_open env g then (Inl ''failed to enqueue trigger: channel closed'', dc)
                     else (Inr (JObject [''flow'' \<mapsto> JStr flow_name, ''result'' \<mapsto> JStr ''trigger enqueued'',
                             ''observed_sha'' \<mapsto> JStr (co_to_hex env sha)]),
                           dc\<lparr>dc_triggers := dc_triggers dc @ [(g, signal)]\<rparr>))))"

fun handle_control_command ::
  "('j, 'octo, 'oid) control_env \<Rightarrow> control_command \<Rightarrow> ('j, 'octo, 'oid) daemon_control
     \<Rightarrow> (string + json) \<times> ('j, 'octo, 'oid) daemon_control"
where
  "handle_control_command env ReloadCommand dc =
     (let sv = run_reload (co_spawn env) (co_exits env) (co_loaded env) (dc_supervisor dc)
      in (Inr (JObject [''flows'' \<mapsto> JNum (length (rg_handles (sv_registry sv))), ''result'' \<mapsto> JStr ''reload completed'']),
          dc\<lparr>dc_supervisor := sv\<rparr>))"
| "handle_control_command env (TriggerCommand flow dry_run) dc = run_trigger env flow dry_run dc"

definition dispatch_cmd ::
  "('j, 'octo, 'oid) control_env \<Rightarrow> control_command \<Rightarrow> ('j, 'octo, 'oid) daemon_control
     \<Rightarrow> (string + json) \<times> ('j, 'octo, 'oid) daemon_control"
where
  "dispatch_cmd env cmd dc =
     (case co_fate env of
        CommandChannelClosed \<Rightarrow> (Inl ''supervisor command channel closed'', dc)
      | ReplyDropped \<Rightarrow> (Inl ''supervisor reply dropped'', dc)
      | CommandHandled \<Rightarrow> handle_control_command env cmd dc)"

definition control_handler :: "('j, 'octo, 'oid) control_env \<Rightarrow> ('j, 'octo, 'oid) daemon_control handler" where
  "control_handler env =
     \<lparr>h_trigger = \<lambda>flow dry_run. dispatch_cmd env (TriggerCommand flow dry_run),
      h_status = \<lambda>flow dc. (control_status env flow dc, dc),
      h_reload = dispatch_cmd env ReloadCommand,
      h_version = \<lambda>dc. (Inr (JObject [''version'' \<mapsto> JStr (co_version env)]), dc)\<rparr>"

section \<open>Requests in sequence\<close>

text \<open>
  The requests of all connections share the gate and the handler's state; a step is a request with
  the handler that serves it and the time.
\<close>

type_synonym 's request_step = "'s handler \<times> instant \<times> request"

definition serve_step :: "instant option \<times> 's \<Rightarrow> 's request_step \<Rightarrow> instant option \<times> 's" where
  "serve_step w st = (case st of (h, now, req) \<Rightarrow> snd (dispatch_request h now req w))"

fun executed_reloads :: "'s request_step list \<Rightarrow> instant option \<times> 's \<Rightarrow> instant list" where
  "executed_reloads [] w = []"
| "executed_reloads ((h, now, req) # steps) w =
     (case req of ReloadRequest _ \<Rightarrow> if snd (try_acquire (fst w) now) then [now] else [] | _ \<Rightarrow> []) @
     executed_reloads steps (serve_step w (h, now, req))"

section \<open>Lemmas\<close>

lemma reply_of_id [simp]: "response_id (reply_of i r) = i"
  by (cases r) (simp_all add: reply_of_def)

lemma dispatch_response_id: "response_id (fst (dispatch_request h now req w)) = request_id req"
  by (cases w; cases req) (auto simp: Let_def split: prod.splits)

lemma dispatch_gate:
  "fst (snd (dispatch_request h now req w)) = (case req of ReloadRequest _ \<Rightarrow> fst (try_acquire (fst w) now) | _ \<Rightarrow> fst w)"
  by (cases w; cases req) (auto simp: Let_def split: prod.splits)

text \<open>The contract a handler is held to: only \<open>reload\<close> may change what \<open>core\<close> reads.\<close>

locale handler_contract =
  fixes h :: "'s handler" and core :: "'s \<Rightarrow> 'c"
  assumes trigger_keeps: "core (snd (h_trigger h flow dry_run s)) = core s"
    and status_keeps: "snd (h_status h name s) = s"
    and version_keeps: "snd (h_version h s) = s"
begin

lemma step_keeps_core:
  assumes "\<And>i. req = ReloadRequest i \<Longrightarrow> \<not> snd (try_acquire (fst w) now)"
  shows "core (snd (serve_step w (h, now, req))) = core (snd w)"
  using assms by (cases w; cases req)
    (simp_all add: serve_step_def Let_def case_prod_beta trigger_keeps status_keeps version_keeps)

lemma query_keeps_state:
  "snd (serve_step w (h, now, StatusRequest i flow)) = snd w"
  "snd (serve_step w (h, now, VersionRequest i)) = snd w"
  by (cases w; simp add: serve_step_def Let_def case_prod_beta status_keeps version_keeps)+

end

lemma run_trigger_cases:
  assumes "run_trigger env name dry_run dc = (r, dc')"
  shows "dc' = dc \<or> (\<exists>g sha. dc' = dc\<lparr>dc_triggers := dc_triggers dc @ [(g, \<lparr>ts_observed_sha = sha, ts_observed_at = co_now env\<rparr>)]\<rparr>)"
  using assms by (auto simp: run_trigger_def Let_def split: option.splits if_splits sum.splits)

lemma run_trigger_supervisor: "dc_supervisor (snd (run_trigger env name dry_run dc)) = dc_supervisor dc"
  using run_trigger_cases [of env name dry_run dc] by (cases "run_trigger env name dry_run dc") auto

interpretation ch: handler_contract "control_handler env" dc_supervisor for env :: "('j, 'octo, 'oid) control_env"
  by unfold_locales (simp_all add: control_handler_def dispatch_cmd_def run_trigger_supervisor split: command_fate.splits)

lemma gate_spacing:
  "sorted_wrt (\<lambda>a b. a + int RELOAD_WINDOW \<le> b) (executed_reloads steps w) \<and>
   (\<forall>prev t. fst w = Some prev \<longrightarrow> t \<in> set (executed_reloads steps w) \<longrightarrow> prev + int RELOAD_WINDOW \<le> t)"
proof (induction steps arbitrary: w)
  case (Cons st steps)
  obtain h now req where st: "st = (h, now, req)" by (cases st)
  let ?w = "serve_step w (h, now, req)"
  have gate: "fst ?w = (case req of ReloadRequest _ \<Rightarrow> fst (try_acquire (fst w) now) | _ \<Rightarrow> fst w)"
    by (simp add: serve_step_def dispatch_gate)
  note IH = Cons.IH [of ?w]
  show ?case
  proof (cases "\<exists>i. req = ReloadRequest i \<and> snd (try_acquire (fst w) now)")
    case True
    then obtain i where req: "req = ReloadRequest i" and acq: "snd (try_acquire (fst w) now)" by blast
    then have "fst ?w = Some now" unfolding gate by (auto simp: try_acquire_def split: option.splits if_splits)
    moreover have "prev + int RELOAD_WINDOW \<le> now" if "fst w = Some prev" for prev
      using acq that by (auto simp: try_acquire_def RELOAD_WINDOW_def from_secs_def split: if_splits)
    moreover note req acq
    ultimately show ?thesis using IH by (fastforce simp: st)
  next
    case False
    then have "fst ?w = fst w"
      unfolding gate by (cases req) (auto simp: try_acquire_def split: option.splits if_splits)
    with IH False show ?thesis by (cases req) (auto simp: st)
  qed
qed simp

definition reply_id :: "(string \<Rightarrow> string + request) \<Rightarrow> 's connection_event \<Rightarrow> uuid" where
  "reply_id decode ev = (case ce_read ev of
     Frame bytes \<Rightarrow> (case decode bytes of Inr req \<Rightarrow> request_id req | Inl _ \<Rightarrow> 0) | _ \<Rightarrow> 0)"

lemma loop_replies:
  "connection_loop decode encode evs w = (rs, w') \<Longrightarrow>
     map (response_id \<circ> fst) rs = map (reply_id decode) (take (length rs) evs) \<and> list_all snd (butlast rs)"
proof (induction evs arbitrary: w rs w')
  case (Cons ev evs)
  show ?case
  proof (cases "ce_read ev")
    case (Frame bytes)
    obtain resp w1 where r: "(case decode bytes of Inl e \<Rightarrow> (ErrorResponse 0 (''invalid request: '' @ e), w)
        | Inr req \<Rightarrow> dispatch_request (ce_handler ev) (ce_now ev) req w) = (resp, w1)" by (metis surj_pair)
    then have rid: "response_id resp = reply_id decode ev"
      using dispatch_response_id [of "ce_handler ev" "ce_now ev" _ w]
      by (auto simp: reply_id_def Frame split: sum.splits) (metis fst_conv)
    show ?thesis
    proof (cases "send_response encode (ce_socket_ok ev) resp")
      case True
      obtain rs' w2 where l: "connection_loop decode encode evs w1 = (rs', w2)" by (metis surj_pair)
      with Cons.prems Frame r True have "rs = (resp, True) # rs'" by (simp add: Let_def)
      with Cons.IH [OF l] rid show ?thesis by auto
    next
      case False
      with Cons.prems Frame r have "rs = [(resp, False)]" by (simp add: Let_def)
      with rid show ?thesis by simp
    qed
  qed (use Cons.prems in \<open>auto simp: Let_def reply_id_def\<close>)
qed simp

lemma keep_supervisor:
  assumes "executed_reloads (map (\<lambda>(env, now, req). (control_handler env, now, req)) steps) w = []"
  shows "dc_supervisor (snd (foldl serve_step w (map (\<lambda>(env, now, req). (control_handler env, now, req)) steps))) = dc_supervisor (snd w)"
  using assms
proof (induction steps arbitrary: w)
  case (Cons st steps)
  obtain env now req where st: "st = (env, now, req)" by (cases st)
  from Cons.prems have "\<not> snd (try_acquire (fst w) now)" if "req = ReloadRequest i" for i
    using that by (auto simp: st split: if_splits)
  from ch.step_keeps_core [OF this] Cons show ?case by (auto simp: st)
qed simp

lemma rejected_reload:
  "run_reload env exits (Inl message) sv =
     sv\<lparr>sv_errors := record_last_error (sv_errors sv) RELOAD_SYNTHETIC_KEY (sp_now env) ''config_reload'' message None\<rparr>"
  by (simp add: run_reload_def)

lemma status_all:
  "\<not> co_mirror_poisoned env \<Longrightarrow> \<exists>m. control_status env None dc = Inr (JObject m) \<and>
     (\<forall>n. m n = (if n \<in> set (sv_flow_names (dc_supervisor dc)) \<or> sv_errors (dc_supervisor dc) n \<noteq> None
       then Some (render_one (co_to_rfc3339 env) n (flows (dc_mirror dc)) (sv_errors (dc_supervisor dc))) else None))"
proof -
  have "foldl (\<lambda>m n. m(n \<mapsto> f n)) m0 ns k = (if k \<in> set ns then Some (f k) else m0 k)" for f :: "string \<Rightarrow> json" and m0 ns k
    by (induction ns arbitrary: m0) auto
  then show "\<not> co_mirror_poisoned env \<Longrightarrow> ?thesis" by (simp add: control_status_def Let_def)
qed

text \<open>A reload leaves the last error of every flow that the new configuration does not have.\<close>

lemma reload_keeps_foreign_errors:
  fixes sv :: "('j, 'octo) supervisor" and env :: "'octo spawn_env"
  assumes "pool_wf (sv_pool sv)" and "n \<notin> fc_name ` set (cf_flow new_cfg)" and "n \<noteq> RELOAD_SYNTHETIC_KEY"
  shows "sv_errors (run_reload env exits (Inr new_cfg) sv) n = sv_errors sv n"
proof -
  have fold: "sv_errors (foldl (spawn_unless_kept env c ks) sv fs) n = sv_errors sv n \<and> pool_wf (sv_pool (foldl (spawn_unless_kept env c ks) sv fs))"
    if "pool_wf (sv_pool sv)" "n \<notin> fc_name ` set fs" for sv :: "('j, 'octo) supervisor" and c ks fs
    using that
  proof (induction fs arbitrary: sv)
    case (Cons f fs)
    let ?sv = "on_registry (\<lambda>r. r\<lparr>rg_respawning := rg_respawning r - {fc_name f}\<rparr>) sv"
    have "pool_wf (sv_pool ?sv)" "n \<noteq> fc_name f" using Cons.prems by auto
    note e = spawn_flow_effect(1,4) [OF this(1), where env = env and c = c and f = f]
    from \<open>n \<noteq> fc_name f\<close> e(1) have "sv_errors (spawn_flow env c f ?sv) n = sv_errors sv n" by simp
    with Cons.IH [OF e(2)] Cons.IH [OF Cons.prems(1)] Cons.prems(2) show ?case by simp
  qed simp
  obtain r cancelled plan where p:
    "apply_actions_to_registry (compute_actions (cf_flow (sv_config sv)) (cf_flow new_cfg) (sv_registry sv)) (sv_registry sv) = (r, cancelled, plan)"
    by (metis prod_cases3)
  let ?sv1 = "sv\<lparr>sv_registry := r, sv_cancelled := sv_cancelled sv \<union> cancelled,
    sv_pool := invalidate_except (collect_kept_credentials (cf_flow new_cfg) (pl_to_keep plan)) (sv_pool sv),
    sv_tasks := drain_until_kept (length (pl_to_keep plan) * 2) (sv_tasks sv) exits,
    sv_updates := sv_updates sv @ emit_flow_removed plan, sv_config := new_cfg\<rparr>"
  have "pool_wf (sv_pool ?sv1)" using pool_wf_invalidate [OF assms(1)] by simp
  from fold [OF this assms(2), where c = new_cfg and ks = "pl_to_keep plan"] p assms(3) show ?thesis
    by (simp add: run_reload_def spawn_new_generation_def)
qed

section \<open>Properties\<close>

text \<open>
  Over any interleaving of requests from any number of connections, two reloads that are
  executed are at least one second apart, whatever the clock readings.
\<close>

theorem reloads_one_second_apart:
  "sorted_wrt (\<lambda>a b. a + int (from_secs 1) \<le> b) (executed_reloads steps w)"
  using gate_spacing [of steps w] by (simp add: RELOAD_WINDOW_def)

text \<open>
  Requests change the supervisor only through an executed reload: in any sequence of
  requests served by the daemon's handler in which no reload passes the gate, the supervisor stays as
  it was.
\<close>

theorem only_reloads_change_supervisor:
  assumes "executed_reloads (map (\<lambda>(env, now, req). (control_handler env, now, req)) steps) w = []"
  shows "dc_supervisor (snd (foldl serve_step w (map (\<lambda>(env, now, req). (control_handler env, now, req)) steps))) = dc_supervisor (snd w)"
  using assms by (rule keep_supervisor)

definition example_control_env :: "(unit, unit, nat) control_env" where
  "example_control_env = \<lparr>co_fate = CommandHandled, co_spawn = example_spawn_env, co_exits = [], co_loaded = Inl ''bad config'',
     co_now = 7, co_channel_open = \<lambda>_. True, co_mirror_poisoned = False, co_from_hex = \<lambda>s. Inr (length s), co_to_hex = \<lambda>_. ''aa'',
     co_null = 0, co_new_uuid = ''u'', co_render = \<lambda>t d. Inr t, co_to_rfc3339 = \<lambda>_. ''t'', co_version = ''1''\<rparr>"

definition example_control :: "(unit, unit, nat) daemon_control" where
  "example_control = \<lparr>dc_supervisor = example_supervisor,
     dc_mirror = default_state\<lparr>flows := [''a'' \<mapsto> default_flow_state\<lparr>last_sha := Some ''aa''\<rparr>]\<rparr>, dc_triggers = []\<rparr>"

theorem only_reloads_change_supervisor_witness:
  "executed_reloads (map (\<lambda>(env, now, req). (control_handler env, now, req))
       [(example_control_env, 5, StatusRequest 1 None), (example_control_env, 6, ReloadRequest 2)]) (Some 5, example_control) = [] \<and>
   dc_supervisor (snd (foldl serve_step (Some 5, example_control) (map (\<lambda>(env, now, req). (control_handler env, now, req))
       [(example_control_env, 5, StatusRequest 1 None), (example_control_env, 6, ReloadRequest 2)]))) = dc_supervisor example_control"
proof -
  have "executed_reloads (map (\<lambda>(env, now, req). (control_handler env, now, req))
       [(example_control_env, 5, StatusRequest 1 None), (example_control_env, 6, ReloadRequest 2)]) (Some 5, example_control) = []"
    by (simp add: serve_step_def try_acquire_def RELOAD_WINDOW_def from_secs_def Let_def case_prod_beta)
  with only_reloads_change_supervisor [OF this] show ?thesis by simp
qed

text \<open>
  A connection answers its frames in order, each reply carrying the id of its request (the
  nil id if the frame is no request), and nothing is sent after a reply that could not be delivered.
  A peer of another user gets no reply and changes nothing.
\<close>

theorem connection_answers_in_order:
  assumes "handle_connection decode encode our_uid (Inr peer_uid) evs w = Inr (rs, w')"
  shows "map (response_id \<circ> fst) rs = map (reply_id decode) (take (length rs) evs) \<and> list_all snd (butlast rs) \<and>
    (peer_uid = our_uid \<or> rs = [] \<and> w' = w)"
proof (cases "peer_uid = our_uid")
  case True
  with assms have "connection_loop decode encode evs w = (rs, w')" by (simp add: handle_connection_def)
  from loop_replies [OF this] True show ?thesis by simp
qed (use assms in \<open>auto simp: handle_connection_def\<close>)

definition example_connection :: "(unit, unit, nat) daemon_control connection_event list" where
  "example_connection = [\<lparr>ce_read = Frame ''v'', ce_handler = control_handler example_control_env, ce_now = 1, ce_socket_ok = True\<rparr>,
     \<lparr>ce_read = FrameError ''too long'', ce_handler = control_handler example_control_env, ce_now = 2, ce_socket_ok = True\<rparr>]"

theorem connection_answers_in_order_witness:
  "\<exists>rs w. handle_connection (\<lambda>b. Inr (VersionRequest 9)) (\<lambda>_. []) 0 (Inr 0) example_connection (None, example_control) = Inr (rs, w) \<and>
     map (response_id \<circ> fst) rs = [9, 0]"
proof -
  obtain rs w where h: "handle_connection (\<lambda>b. Inr (VersionRequest 9)) (\<lambda>_. []) 0 (Inr 0) example_connection (None, example_control) = Inr (rs, w)"
    by (simp add: handle_connection_def) (metis surj_pair)
  then have "length rs = 2"
    by (auto simp: handle_connection_def example_connection_def control_handler_def Let_def reply_of_def send_response_def MAX_FRAME_LEN_def)
  with connection_answers_in_order [OF h] h show ?thesis
    by (simp add: example_connection_def reply_id_def)
qed

text \<open>
  A manual trigger is accepted exactly if the flow is configured, enabled, has a recorded
  valid SHA, runs, and its channel is open; it then puts one signal with that SHA and the current
  time into the channel of the running generation. In every other case, and always for a dry run,
  nothing changes.
\<close>

theorem manual_trigger_exact:
  assumes "run_trigger env name dry_run dc = (r, dc')"
  shows "dc' = (case (find (\<lambda>f. fc_name f = name) (cf_flow (sv_config (dc_supervisor dc))),
        read_last_sha (co_from_hex env) (co_mirror_poisoned env) (dc_mirror dc) name, map_of (rg_handles (sv_registry (dc_supervisor dc))) name) of
      (Some f, Inr sha, Some g) \<Rightarrow>
        if fc_enabled f \<and> \<not> dry_run \<and> co_channel_open env g
        then dc\<lparr>dc_triggers := dc_triggers dc @ [(g, \<lparr>ts_observed_sha = sha, ts_observed_at = co_now env\<rparr>)]\<rparr> else dc
    | _ \<Rightarrow> dc) \<and>
    (\<not> dry_run \<longrightarrow> (isl r \<longleftrightarrow> dc' = dc))"
  using assms
  by (auto simp: run_trigger_def Let_def split: option.splits if_splits sum.splits)
    (metis append_self_conv daemon_control.select_convs(3) daemon_control.surjective daemon_control.update_convs(3) not_Cons_self2)+

theorem manual_trigger_exact_witness:
  "snd (run_trigger example_control_env ''a'' False example_control) =
     example_control\<lparr>dc_triggers := [(0, \<lparr>ts_observed_sha = 2, ts_observed_at = 7\<rparr>)]\<rparr>"
proof -
  obtain r dc' where t: "run_trigger example_control_env ''a'' False example_control = (r, dc')" by (metis surj_pair)
  have "find (\<lambda>f. fc_name f = ''a'') (cf_flow (sv_config example_supervisor)) = Some (example_flow_config ''a'' ''refs/heads/main'')"
    by (simp add: example_supervisor_handles example_config_def example_flow_config_def)
  moreover have "fc_enabled (example_flow_config ''a'' ''refs/heads/main'')" by (simp add: example_flow_config_def)
  ultimately show ?thesis
    using manual_trigger_exact [OF t] t
    by (simp add: example_control_def example_control_env_def read_last_sha_def example_supervisor_handles)
qed

text \<open>
  A reload command whose configuration is rejected is answered \<open>reload completed\<close>, and
  \<open>gcit reload\<close> exits successfully, while the configuration in force and the running flows stay and
  the errors are only recorded for \<open>gcit status\<close>.
\<close>

theorem rejected_reload_answered_completed:
  assumes "co_fate env = CommandHandled" and "co_loaded env = Inl message"
    and "dispatch_request (control_handler env) now (ReloadRequest i) (None, dc) = (resp, gate, dc')"
  shows "(\<exists>n. resp = OkResponse i (JObject [''flows'' \<mapsto> JNum n, ''result'' \<mapsto> JStr ''reload completed''])) \<and>
    cli_reload True (Inr resp) = EXIT_OK \<and>
    sv_config (dc_supervisor dc') = sv_config (dc_supervisor dc) \<and> sv_registry (dc_supervisor dc') = sv_registry (dc_supervisor dc) \<and>
    map_option fle_message (sv_errors (dc_supervisor dc') ''(reload)'') = Some message"
  using assms
  by (auto simp: control_handler_def dispatch_cmd_def try_acquire_def rejected_reload Let_def reply_of_def cli_reload_def cli_exit_def
      record_last_error_def RELOAD_SYNTHETIC_KEY_def)

theorem rejected_reload_answered_completed_witness:
  "\<exists>resp w. dispatch_request (control_handler example_control_env) 0 (ReloadRequest 3) (None, example_control) = (resp, w) \<and>
     cli_reload True (Inr resp) = EXIT_OK"
proof -
  obtain resp gate dc' where d: "dispatch_request (control_handler example_control_env) 0 (ReloadRequest 3) (None, example_control) = (resp, gate, dc')"
    by (metis surj_pair)
  have "co_fate example_control_env = CommandHandled" "co_loaded example_control_env = Inl ''bad config''"
    by (simp_all add: example_control_env_def)
  from rejected_reload_answered_completed [OF this d] d show ?thesis by blast
qed

text \<open>
  The last error of a flow outlives the flow: after a reload that removes a flow with a
  recorded error, the status of all flows still lists it as errored.
\<close>

theorem removed_flow_stays_listed:
  assumes "supervisor_wf (dc_supervisor dc)" and "co_loaded env = Inr new_cfg" and "\<not> co_mirror_poisoned env"
    and "name \<notin> fc_name ` set (cf_flow new_cfg)" and "name \<noteq> ''(reload)''" and "sv_errors (dc_supervisor dc) name \<noteq> None"
    and "handle_control_command env ReloadCommand dc = (r, dc')"
  shows "\<exists>m one. control_status env None dc' = Inr (JObject m) \<and> m name = Some (JObject one) \<and> one ''state'' = Some (JStr ''errored'')"
proof -
  from assms(2,7) have dc': "dc_supervisor dc' = run_reload (co_spawn env) (co_exits env) (Inr new_cfg) (dc_supervisor dc)"
    by (auto simp: Let_def)
  have "pool_wf (sv_pool (dc_supervisor dc))" by (rule supervisor_wfD(2) [OF assms(1)])
  from reload_keeps_foreign_errors [OF this assms(4)] assms(5,6) dc'
  have e: "sv_errors (dc_supervisor dc') name \<noteq> None" by (simp add: RELOAD_SYNTHETIC_KEY_def)
  obtain m where m: "control_status env None dc' = Inr (JObject m)"
      "m name = Some (render_one (co_to_rfc3339 env) name (flows (dc_mirror dc')) (sv_errors (dc_supervisor dc')))"
    using status_all [OF assms(3), of dc'] e by auto
  from e have "\<exists>one. render_one (co_to_rfc3339 env) name (flows (dc_mirror dc')) (sv_errors (dc_supervisor dc')) = JObject one \<and>
      one ''state'' = Some (JStr ''errored'')"
    by (auto simp: render_one_def Let_def)
  with m show ?thesis by auto
qed

theorem removed_flow_stays_listed_witness:
  "\<exists>r dc'. handle_control_command (example_control_env\<lparr>co_loaded := Inr (example_config [])\<rparr>) ReloadCommand
       (example_control\<lparr>dc_supervisor := example_supervisor\<lparr>sv_errors := [''a'' \<mapsto> \<lparr>fle_at = 0, fle_kind = ''panic'', fle_message = [], fle_retry_at = None\<rparr>]\<rparr>\<rparr>) = (r, dc') \<and>
     (\<exists>m one. control_status (example_control_env\<lparr>co_loaded := Inr (example_config [])\<rparr>) None dc' = Inr (JObject m) \<and>
       m ''a'' = Some (JObject one) \<and> one ''state'' = Some (JStr ''errored''))"
proof -
  let ?env = "example_control_env\<lparr>co_loaded := Inr (example_config [])\<rparr>"
  let ?dc = "example_control\<lparr>dc_supervisor := example_supervisor\<lparr>sv_errors := [''a'' \<mapsto> \<lparr>fle_at = 0, fle_kind = ''panic'', fle_message = [], fle_retry_at = None\<rparr>]\<rparr>\<rparr>"
  obtain r dc' where h: "handle_control_command ?env ReloadCommand ?dc = (r, dc')" by (metis surj_pair)
  have "supervisor_wf (dc_supervisor ?dc)" using wf_frame [OF reachable_wf [OF example_reachable]] by simp
  from removed_flow_stays_listed [OF this _ _ _ _ _ h, of "example_config []" "''a''"] h show ?thesis
    by (simp add: example_control_env_def example_config_def)
qed

end
