(* ===== verification/Validated_Daemon.thy ===== *)
theory Validated_Daemon
  imports Control Config_Check
begin

text \<open>
  The daemon fed by the configuration loader: start-up and every reload take the result of
  \<open>config::load\<close> (\<open>src/src/flow/supervisor/run.rs\<close>, \<open>reload/apply.rs\<close>). What the validator
  guarantees reaches the parameters of every generation of tasks, and through them the poll loop.
\<close>

section \<open>Runs on loaded configurations\<close>

text \<open>What \<open>run_reload\<close> is given: the configuration, or the errors' texts joined.\<close>

definition load_new_config :: "(string \<Rightarrow> string) \<Rightarrow> config_error list + loaded_config \<Rightarrow> string + f64 config" where
  "load_new_config debug loaded =
     (case loaded of
        Inr c \<Rightarrow> Inr (config.truncate c)
      | Inl errors \<Rightarrow> Inl (join ''; '' (map (config_error_display debug) errors)))"

inductive daemon_run :: "(f64, 'octo) supervisor \<Rightarrow> bool" where
  started: "load decode contents env = Inr c \<Longrightarrow> daemon_run (daemon_start spawn config_dir (config.truncate c))"
| reloaded: "daemon_run sv \<Longrightarrow>
    daemon_run (daemon_event_step sv (ReloadEvent spawn exits (load_new_config debug (load decode contents env))))"
| joined: "daemon_run sv \<Longrightarrow> daemon_run (daemon_event_step sv (TaskJoined now t e))"
| respawned: "daemon_run sv \<Longrightarrow> daemon_run (daemon_event_step sv (RespawnDue spawn req))"

lemma load_config_wf: "load decode contents env = Inr c \<Longrightarrow> config_wf (config.truncate c)"
proof -
  assume "load decode contents env = Inr c"
  then obtain env' raw where "validate env' raw = Inr c"
    by (auto simp: load_def load_str_def split: sum.splits)
  with validate_cases [of env' raw] have "raw_ok env' raw" "config.truncate c = config_of env' raw" by auto
  then show ?thesis using config_of_wf by metis
qed

lemma daemon_run_reachable: "daemon_run sv \<Longrightarrow> daemon_reachable sv"
proof (induction rule: daemon_run.induct)
  case (started decode contents env c spawn config_dir)
  then show ?case using load_config_wf by (intro daemon_reachable.start) (simp add: config_wf_def)
next
  case (reloaded sv spawn exits debug decode contents env)
  have "valid_event (ReloadEvent spawn exits (load_new_config debug (load decode contents env)) :: (f64, 'a) daemon_event)"
    using load_config_wf by (auto simp: load_new_config_def config_wf_def split: sum.splits)
  with reloaded show ?case by (intro daemon_reachable.step)
next
  case (joined sv now t e)
  then show ?case by (intro daemon_reachable.step) simp_all
next
  case (respawned sv spawn req)
  then show ?case by (intro daemon_reachable.step) simp_all
qed

section \<open>Parameters of the generations\<close>

definition generation_of :: "f64 config \<Rightarrow> f64 flow_config \<Rightarrow> f64 generation \<Rightarrow> bool" where
  "generation_of c f gn \<longleftrightarrow> (\<exists>strategy. gn_poll gn = build_poll_params f (effective_poll_compute (cf_poll c) (fc_poll f) strategy) \<and>
     gn_dispatch gn = build_dispatcher_params f (effective_poll_compute (cf_poll c) (fc_poll f) strategy))"

lemma spawn_flow_generations:
  assumes "pool_wf (sv_pool sv)" and "gn \<in> set (sv_generations (spawn_flow env c f sv))"
  shows "gn \<in> set (sv_generations sv) \<or> generation_of c f gn"
  using assms(1)
proof (cases rule: spawn_flow_cases [where env = env and c = c and f = f])
  case (failed pool k e)
  with assms(2) show ?thesis by (simp add: record_setup_failure_and_skip_def)
next
  case (started pool ns r)
  with assms(2) show ?thesis by (auto simp: start_tasks_def Let_def generation_of_def split: prod.splits)
qed

definition generation_bounded :: "f64 generation \<Rightarrow> bool" where
  "generation_bounded gn \<longleftrightarrow> interval_wf (source_interval (pp_effective (gn_poll gn))) \<and>
     cooldown_wf (cooldown (pp_effective (gn_poll gn))) \<and> jitter_ok (jitter (pp_effective (gn_poll gn))) \<and>
     interval_wf (fd_job_interval (gn_dispatch gn)) \<and> action_wf (fd_action (gn_dispatch gn))"

lemma generation_of_bounded:
  assumes "config_wf c" and "f \<in> set (cf_flow c)" and "generation_of c f gn"
  shows "generation_bounded gn"
proof -
  have wf: "defaults_wf (cf_poll c)" "override_wf (fc_poll f)" "action_wf (fc_action f)"
    using assms(1,2) by (auto simp: config_wf_def list_all_iff flow_wf_def)
  from effective_wf [OF wf(1,2)] wf(3) assms(3) show ?thesis
    by (auto simp: generation_of_def generation_bounded_def build_poll_params_def build_dispatcher_params_def)
qed

definition bounded :: "(f64, 'octo) supervisor \<Rightarrow> bool" where
  "bounded sv \<longleftrightarrow> config_wf (sv_config sv) \<and> pool_wf (sv_pool sv) \<and> list_all generation_bounded (sv_generations sv)"

lemma bounded_spawn:
  assumes "bounded sv" and "f \<in> set (cf_flow (sv_config sv))"
  shows "bounded (spawn_flow env (sv_config sv) f sv)"
proof -
  have p: "pool_wf (sv_pool sv)" using assms(1) by (simp add: bounded_def)
  have "generation_bounded gn" if "gn \<in> set (sv_generations (spawn_flow env (sv_config sv) f sv))" for gn
    using spawn_flow_generations [OF p that] generation_of_bounded [OF _ assms(2)] assms(1) by (auto simp: bounded_def list_all_iff)
  moreover have "sv_config (spawn_flow env (sv_config sv) f sv) = sv_config sv" by simp
  ultimately show ?thesis using assms(1) spawn_flow_effect(4) [OF p] by (simp add: bounded_def list_all_iff)
qed

lemma bounded_spawn_all:
  "bounded sv \<Longrightarrow> set fs \<subseteq> set (cf_flow (sv_config sv)) \<Longrightarrow> c = sv_config sv \<Longrightarrow> bounded (foldl (spawn_unless_kept env c ks) sv fs)"
proof (induction fs arbitrary: sv)
  case (Cons f fs)
  let ?sv = "on_registry (\<lambda>r. r\<lparr>rg_respawning := rg_respawning r - {fc_name f}\<rparr>) sv"
  have b: "bounded ?sv" "sv_config ?sv = sv_config sv" using Cons.prems(1) by (simp_all add: bounded_def on_registry_def)
  have s: "bounded (spawn_flow env c f ?sv)" using bounded_spawn [OF b(1), of f env] Cons.prems b(2) by simp
  have cfg: "sv_config (spawn_flow env c f ?sv) = sv_config sv" by simp
  show ?case
  proof (cases "\<not> fc_enabled f \<or> fc_name f \<in> set ks")
    case True
    with Cons show ?thesis by auto
  next
    case False
    with Cons.IH [OF s] Cons.prems cfg show ?thesis by simp
  qed
qed simp

lemma bounded_event:
  assumes b: "bounded sv" and e: "\<And>env exits c. e = ReloadEvent env exits (Inr c) \<Longrightarrow> config_wf c"
  shows "bounded (daemon_event_step sv e)"
proof (cases e)
  case (ReloadEvent env exits loaded)
  show ?thesis
  proof (cases loaded)
    case (Inl message)
    with ReloadEvent b show ?thesis by (simp add: rejected_reload bounded_def)
  next
    case (Inr c)
    obtain plan :: reload_plan and sv1 where p: "sv_config sv1 = c" "sv_generations sv1 = sv_generations sv"
      "sv_pool sv1 = invalidate_except (collect_kept_credentials (cf_flow c) (pl_to_keep plan)) (sv_pool sv)"
      "run_reload env exits (Inr c) sv = finalize_reload (spawn_new_generation env c (pl_to_keep plan) sv1)"
      by (rule run_reload_parts [of sv c env exits]) blast
    have "bounded sv1" using b e ReloadEvent Inr pool_wf_invalidate by (auto simp: bounded_def p)
    then have "bounded (foldl (spawn_unless_kept env c (pl_to_keep plan)) sv1 (cf_flow c))"
      by (rule bounded_spawn_all) (simp_all add: p(1))
    then show ?thesis by (simp add: ReloadEvent Inr p(4) spawn_new_generation_def bounded_def)
  qed
next
  case (TaskJoined now t en)
  have "bounded (handle_flow_exit now j sv')" if "bounded sv'" for j and sv' :: "(f64, 'a) supervisor"
    using that by (cases j) (auto simp: bounded_def Let_def on_registry_def cancel_gen_def split: respawn_decision.splits option.splits)
  moreover have "bounded (sv\<lparr>sv_tasks := remove1 t (sv_tasks sv)\<rparr>)" using b by (simp add: bounded_def)
  ultimately show ?thesis by (simp add: TaskJoined)
next
  case (RespawnDue env req)
  let ?sv = "sv\<lparr>sv_watchers := remove1 req (sv_watchers sv)\<rparr>"
  let ?sv1 = "on_registry (\<lambda>r. r\<lparr>rg_respawning := rg_respawning r - {rq_flow req}\<rparr>) ?sv"
  have b1: "bounded ?sv" "bounded ?sv1" using b by (simp_all add: bounded_def on_registry_def)
  have "bounded (spawn_flow env (sv_config sv) f ?sv1)" if "find (\<lambda>f. fc_name f = rq_flow req) (cf_flow (sv_config sv)) = Some f" for f
    using bounded_spawn [OF b1(2), of f env] find_SomeD [OF that] by (simp add: on_registry_def)
  with b1 show ?thesis
    by (auto simp: RespawnDue handle_respawn_request_def Let_def bounded_def on_registry_def split: option.splits)
qed

lemma bounded_start:
  assumes "config_wf c"
  shows "bounded (daemon_start env config_dir c)"
proof -
  let ?sv = "\<lparr>sv_config = c, sv_registry = registry_new, sv_watchers = [], sv_flow_names = [], sv_tasks = [], sv_cancelled = {},
      sv_next_gen = 0, sv_errors = Map.empty, sv_updates = [], sv_generations = [], sv_pool = credential_pool_new config_dir,
      sv_source_buckets = Map.empty\<rparr> :: (f64, 'a) supervisor"
  have "bounded (foldl (\<lambda>sv flow. if \<not> fc_enabled flow then sv else spawn_flow env c flow sv) sv fs)"
    if "bounded sv" "sv_config sv = c" "set fs \<subseteq> set (cf_flow c)" for sv :: "(f64, 'a) supervisor" and fs
    using that
  proof (induction fs arbitrary: sv)
    case (Cons f fs)
    then have "bounded (spawn_flow env c f sv)" using bounded_spawn [of sv f env] by simp
    with Cons show ?case by simp
  qed simp
  moreover have "bounded ?sv" using assms pool_wf_new by (simp add: bounded_def)
  ultimately have "bounded (spawn_initial_flows env c ?sv)" unfolding spawn_initial_flows_def by simp
  then show ?thesis by (simp add: daemon_start_def Let_def bounded_def)
qed

lemma daemon_run_bounded: "daemon_run sv \<Longrightarrow> bounded sv"
proof (induction rule: daemon_run.induct)
  case (started decode contents env c spawn config_dir)
  then show ?case using load_config_wf bounded_start by blast
next
  case (reloaded sv spawn exits debug decode contents env)
  show ?case by (rule bounded_event [OF reloaded.IH]) (use load_config_wf in \<open>auto simp: load_new_config_def split: sum.splits\<close>)
next
  case (joined sv now t e)
  show ?case by (rule bounded_event [OF joined.IH]) simp
next
  case (respawned sv spawn req)
  show ?case by (rule bounded_event [OF respawned.IH]) simp
qed

section \<open>Properties\<close>

text \<open>
  C11. Whatever is reloaded, joined or respawned: in every state of a daemon that takes its
  configurations from the loader, each generation of tasks ever started polls between every 15
  seconds and once a day, watches runs in the same range, has a jitter of at most one half, a cooldown
  that is off or at least 15 seconds, and an action whose repository, workflow and ref are valid.
\<close>

theorem validated_generations_bounded:
  assumes "daemon_run sv" and "gn \<in> set (sv_generations sv)"
  shows "from_secs 15 \<le> source_interval (pp_effective (gn_poll gn)) \<and> source_interval (pp_effective (gn_poll gn)) \<le> from_secs 86400 \<and>
    from_secs 15 \<le> fd_job_interval (gn_dispatch gn) \<and> fd_job_interval (gn_dispatch gn) \<le> from_secs 86400 \<and>
    (cooldown (pp_effective (gn_poll gn)) = 0 \<or> from_secs 15 \<le> cooldown (pp_effective (gn_poll gn))) \<and>
    (\<exists>q. jitter (pp_effective (gn_poll gn)) = Finite q \<and> 0 \<le> q \<and> q \<le> 1 / 2) \<and> action_wf (fd_action (gn_dispatch gn))"
  using daemon_run_bounded [OF assms(1)] assms(2)
  by (auto simp: bounded_def list_all_iff generation_bounded_def interval_wf_def cooldown_wf_def jitter_ok_def MIN_INTERVAL_def MAX_INTERVAL_def)

definition example_octo_env :: "unit spawn_env" where
  "example_octo_env = \<lparr>sp_setup = \<lparr>su_process = example_process, su_url_parse = \<lambda>_. Inl ''e'', su_octo_build = \<lambda>_ _. Inr (),
     su_hostname = ''h''\<rparr>, sp_valid_hex = \<lambda>_. True, sp_mirror = default_state, sp_now = 0\<rparr>"

definition example_daemon :: "(f64, unit) supervisor" where
  "example_daemon = daemon_start example_octo_env (Some ''/etc/gcit'') (config_of example_validate_env example_raw)"

lemma example_daemon_run: "daemon_run example_daemon"
proof -
  obtain c where c: "validate example_validate_env example_raw = Inr c" "config.truncate c = config_of example_validate_env example_raw"
    using example_accepted by blast
  have "load (\<lambda>_. Inr example_raw) (Inr []) example_validate_env = Inr c"
    using c(1) by (simp add: load_def load_str_def example_validate_env_def)
  from daemon_run.started [OF this, of example_octo_env "Some ''/etc/gcit''"] c(2) show ?thesis by (simp add: example_daemon_def)
qed

lemma example_daemon_generations:
  "\<exists>gn \<in> set (sv_generations example_daemon). cooldown (pp_effective (gn_poll gn)) = from_secs 300"
proof -
  have lk: "lookup_secret example_process (Some ''/etc/gcit'') cid = Inr ''github_pat_x''" for cid
    by (simp add: lookup_secret_def credentials_dir_candidate_def env_candidate_def config_dir_candidate_def try_credential_file_def
        example_process_def probe_def owner_uid_accepted_def trim_line_ends_def)
  show ?thesis
    by (simp add: example_daemon_def daemon_start_def spawn_initial_flows_def config_of_def example_raw_def flow_of_def Let_def
        spawn_flow_def build_notifiers_def build_notifier_def destination_of_def example_spanned_def text_of_def example_octo_env_def
        acquire_github_def credential_pool_new_def resolve_secret_def lk client_build_def action_of_def start_tasks_def
        case_prod_beta events_of_def local_mail_notifier_new_def validate_user_def build_poll_params_def effective_poll_compute_def
        unwrap_or_def override_of_def defaults_of_def)
qed

theorem validated_generations_bounded_witness:
  "\<exists>gn \<in> set (sv_generations example_daemon). from_secs 15 \<le> source_interval (pp_effective (gn_poll gn))"
proof -
  obtain gn where "gn \<in> set (sv_generations example_daemon)" using example_daemon_generations by blast
  with validated_generations_bounded [OF example_daemon_run this] show ?thesis by blast
qed

text \<open>
  C10. From file to dispatch: the poll loop of any generation the daemon starts from loaded
  configurations sends successive triggers at least 15 seconds apart, unless the operator turned the
  cooldown off, as long as the wall clock does not go back.
\<close>

theorem validated_triggers_spaced:
  assumes "daemon_run sv" and "gn \<in> set (sv_generations sv)" and "cooldown (pp_effective (gn_poll gn)) \<noteq> 0"
    and "run_with_executor exec (gn_poll gn) sha0 d0 errors x envs = (act, st)"
    and "sorted (map cycle_env.ce_now envs)" and "\<forall>t. d0 = Some t \<longrightarrow> (\<forall>env \<in> set envs. t \<le> cycle_env.ce_now env)"
  shows "successively (\<lambda>a b. a + int (from_secs 15) \<le> b) ((case d0 of None \<Rightarrow> [] | Some t \<Rightarrow> [t]) @ trigger_times (pl_log st))"
proof -
  have "from_secs 15 \<le> cooldown (pp_effective (gn_poll gn))"
    using daemon_run_bounded [OF assms(1)] assms(2,3)
    by (auto simp: bounded_def list_all_iff generation_bounded_def interval_wf_def cooldown_wf_def MIN_INTERVAL_def)
  moreover have "successively (\<lambda>a b. a + int (cooldown (pp_effective (gn_poll gn))) \<le> b)
      ((case d0 of None \<Rightarrow> [] | Some t \<Rightarrow> [t]) @ trigger_times (pl_log st))"
    using trace_spaced [OF run_with_executor_trace [OF assms(4)]] assms(5,6) by simp
  ultimately show ?thesis by (elim successively_mono) simp_all
qed

theorem validated_triggers_spaced_witness:
  "\<exists>gn act st. gn \<in> set (sv_generations example_daemon) \<and>
     run_with_executor (poll_one example_hex LsRemote example_source) (gn_poll gn) (Some 1) None Map.empty None
       [example_env 0 (branch_at 2), example_env 400000000000 (branch_at 3)] = (act, st) \<and>
     successively (\<lambda>a b. a + int (from_secs 15) \<le> b) (trigger_times (pl_log st))"
proof -
  obtain gn where gn: "gn \<in> set (sv_generations example_daemon)" "cooldown (pp_effective (gn_poll gn)) = from_secs 300"
    using example_daemon_generations by blast
  then have "cooldown (pp_effective (gn_poll gn)) \<noteq> 0" by (simp add: from_secs_def)
  moreover obtain act st where run: "run_with_executor (poll_one example_hex LsRemote example_source) (gn_poll gn) (Some 1) None Map.empty None
       [example_env 0 (branch_at 2), example_env 400000000000 (branch_at 3)] = (act, st)" by (metis surj_pair)
  ultimately have "successively (\<lambda>a b. a + int (from_secs 15) \<le> b)
      ((case None of None \<Rightarrow> [] | Some t \<Rightarrow> [t]) @ trigger_times (pl_log st))"
    using gn(1) by (intro validated_triggers_spaced [OF example_daemon_run _ _ run]) (simp_all add: example_env_def)
  with gn(1) run show ?thesis by auto
qed

end
