(* ===== verification/State_Writer.thy ===== *)
theory State_Writer
  imports State_Apply Atomic_File
begin

text \<open>
  The thread that owns the state file (\<open>src/src/state/writer.rs\<close>, \<open>run\<close> and \<open>run_mirrored\<close>)
  and the loader that reads it back at startup (\<open>src/src/state/mod.rs\<close>, \<open>load_or_init\<close>).
  Each wake-up of the writer hands it a batch of at most \<open>BATCH_LIMIT\<close> queued updates; the
  environment of a batch is the temporary name the \<open>tempfile\<close> crate picks, which of the write
  steps fail, and whether the mirror's mutex is poisoned. \<open>ser\<close> and the parsers stand for
  \<open>serde_json\<close>.
\<close>

section \<open>The writer\<close>

definition BATCH_LIMIT :: nat where
  [model_defs]: "BATCH_LIMIT = 64"

definition STATE_FILE_MODE :: nat where
  [model_defs]: "STATE_FILE_MODE = 384"

record io_env =
  io_tmp :: path
  io_fails :: "aw_op \<Rightarrow> bool"
  io_poisoned :: bool

record writer =
  w_state :: state
  w_dirty :: bool
  w_fs :: fs
  w_mirror :: state

text \<open>\<open>atomic_write_json(&path, &state, STATE_FILE_MODE)\<close>\<close>

definition persist :: "(state \<Rightarrow> string option) \<Rightarrow> path \<Rightarrow> io_env \<Rightarrow> state \<Rightarrow> fs \<Rightarrow> fs \<times> (aw_op option + unit)" where
  "persist ser path io s d = atomic_write_json ser (io_fails io) (io_tmp io) path s STATE_FILE_MODE d"

text \<open>One iteration of the loop of \<open>run\<close>: apply the whole batch, then try to persist.\<close>

definition run_batch ::
  "('oid \<Rightarrow> string) \<Rightarrow> (state \<Rightarrow> string option) \<Rightarrow> path \<Rightarrow> writer \<Rightarrow> 'oid state_update list \<times> io_env \<Rightarrow> writer"
where
  "run_batch to_hex ser path w b =
     (let (buffer, io) = b;
          s = foldl (apply_update to_hex) (w_state w) buffer;
          w = w\<lparr>w_state := s, w_dirty := True\<rparr>
      in case persist ser path io s (w_fs w) of
           (d, Inr _) \<Rightarrow> w\<lparr>w_fs := d, w_dirty := False\<rparr>
         | (d, Inl _) \<Rightarrow> w\<lparr>w_fs := d\<rparr>)"

text \<open>
  \<open>blocking_recv_many\<close> returns 0 exactly when every sender is gone and the queue is empty: an
  empty batch ends the loop. After it, a dirty state gets one last write.
\<close>

fun run_loop ::
  "(writer \<Rightarrow> 'oid state_update list \<times> io_env \<Rightarrow> writer) \<Rightarrow> writer \<Rightarrow> ('oid state_update list \<times> io_env) list \<Rightarrow> writer"
where
  "run_loop body w [] = w"
| "run_loop body w (b # bs) = (if fst b = [] then w else run_loop body (body w b) bs)"

definition run ::
  "('oid \<Rightarrow> string) \<Rightarrow> (state \<Rightarrow> string option) \<Rightarrow> path \<Rightarrow> ('oid state_update list \<times> io_env) list \<Rightarrow> io_env \<Rightarrow> writer \<Rightarrow> writer"
where
  "run to_hex ser path bs io w0 =
     (let w = run_loop (run_batch to_hex ser path) (w0\<lparr>w_dirty := False\<rparr>) bs
      in if w_dirty w then w\<lparr>w_fs := fst (persist ser path io (w_state w) (w_fs w))\<rparr> else w)"

text \<open>\<open>run_mirrored\<close>: the same, publishing the state to the mirror after each successful write.\<close>

definition run_mirrored_batch ::
  "('oid \<Rightarrow> string) \<Rightarrow> (state \<Rightarrow> string option) \<Rightarrow> path \<Rightarrow> writer \<Rightarrow> 'oid state_update list \<times> io_env \<Rightarrow> writer"
where
  "run_mirrored_batch to_hex ser path w b =
     (let (buffer, io) = b;
          s = foldl (apply_update to_hex) (w_state w) buffer;
          w = w\<lparr>w_state := s, w_dirty := True\<rparr>
      in case persist ser path io s (w_fs w) of
           (d, Inr _) \<Rightarrow>
             let w = w\<lparr>w_fs := d, w_dirty := False\<rparr>
             in if io_poisoned io then w else w\<lparr>w_mirror := s\<rparr>
         | (d, Inl _) \<Rightarrow> w\<lparr>w_fs := d\<rparr>)"

definition run_mirrored ::
  "('oid \<Rightarrow> string) \<Rightarrow> (state \<Rightarrow> string option) \<Rightarrow> path \<Rightarrow> ('oid state_update list \<times> io_env) list \<Rightarrow> io_env \<Rightarrow> writer \<Rightarrow> writer"
where
  "run_mirrored to_hex ser path bs io w0 =
     (let w = run_loop (run_mirrored_batch to_hex ser path) (w0\<lparr>w_dirty := False\<rparr>) bs
      in if w_dirty w
         then (case persist ser path io (w_state w) (w_fs w) of
                 (d, Inl _) \<Rightarrow> w\<lparr>w_fs := d\<rparr>
               | (d, Inr _) \<Rightarrow> if io_poisoned io then w\<lparr>w_fs := d\<rparr>
                              else w\<lparr>w_fs := d, w_mirror := w_state w\<rparr>)
         else w)"

text \<open>\<open>spawn_with_mirror\<close> seeds the mirror with the initial state before the thread starts.\<close>

definition spawn_with_mirror ::
  "('oid \<Rightarrow> string) \<Rightarrow> (state \<Rightarrow> string option) \<Rightarrow> path \<Rightarrow> ('oid state_update list \<times> io_env) list \<Rightarrow> io_env \<Rightarrow> state \<Rightarrow> fs \<Rightarrow> writer"
where
  "spawn_with_mirror to_hex ser path bs io s d =
     run_mirrored to_hex ser path bs io \<lparr>w_state = s, w_dirty = False, w_fs = d, w_mirror = s\<rparr>"

section \<open>The loader\<close>

datatype read_result = FileNotFound | OpenFailed | ReadFailed | FileText string

text \<open>One constructor per message template of \<open>StateError::LoadIo\<close> and \<open>StateError::Load\<close>.\<close>

datatype load_error =
    LoadIo_CannotOpen | LoadIo_Read
  | Load_ParseJson | Load_MissingSchema | Load_SchemaNotUnsigned | Load_Unsupported nat | Load_Deserialize

definition u32_try_from :: "nat \<Rightarrow> u32 option" where
  "u32_try_from n = (if n < 2 ^ 32 then Some (of_nat n) else None)"

text \<open>
  \<open>probe\<close> deserializes the \<open>SchemaProbe\<close> (\<open>Some None\<close>: no \<open>schema\<close> field), \<open>as_u64\<close> reads a JSON
  value as an unsigned integer, \<open>parse\<close> deserializes the full \<open>State\<close>.
\<close>

definition load_or_init ::
  "(string \<Rightarrow> 'json option option) \<Rightarrow> ('json \<Rightarrow> nat option) \<Rightarrow> (string \<Rightarrow> state option) \<Rightarrow> read_result \<Rightarrow> load_error + state"
where
  "load_or_init probe as_u64 parse r =
     (case r of
        FileNotFound \<Rightarrow> Inr default_state
      | OpenFailed \<Rightarrow> Inl LoadIo_CannotOpen
      | ReadFailed \<Rightarrow> Inl LoadIo_Read
      | FileText buf \<Rightarrow>
         (case probe buf of
            None \<Rightarrow> Inl Load_ParseJson
          | Some None \<Rightarrow> Inl Load_MissingSchema
          | Some (Some raw_schema) \<Rightarrow>
             (case as_u64 raw_schema of
                None \<Rightarrow> Inl Load_SchemaNotUnsigned
              | Some n \<Rightarrow>
                 if u32_try_from n \<noteq> Some SCHEMA_VERSION then Inl (Load_Unsupported n)
                 else (case parse buf of None \<Rightarrow> Inl Load_Deserialize | Some s \<Rightarrow> Inr s))))"

definition read_path :: "fs \<Rightarrow> path \<Rightarrow> read_result" where
  "read_path d p = (case now d p of None \<Rightarrow> FileNotFound | Some f \<Rightarrow> FileText (f_data f))"

section \<open>Lemmas\<close>

abbreviation updates_of :: "('oid state_update list \<times> io_env) list \<Rightarrow> 'oid state_update list" where
  "updates_of bs \<equiv> concat (map fst bs)"

text \<open>What the channel delivers: the sent updates in order, cut into non-empty batches.\<close>

definition batches :: "('oid state_update list \<times> io_env) list \<Rightarrow> bool" where
  "batches bs \<longleftrightarrow> list_all (\<lambda>b. fst b \<noteq> [] \<and> length (fst b) \<le> BATCH_LIMIT) bs"

lemma batches_Cons [simp]:
  "batches (b # bs) \<longleftrightarrow> fst b \<noteq> [] \<and> length (fst b) \<le> BATCH_LIMIT \<and> batches bs"
  by (auto simp: batches_def)

lemma batches_Nil [simp]: "batches []"
  by (simp add: batches_def)

lemma run_loop_batches: "batches bs \<Longrightarrow> run_loop body w bs = foldl body w bs"
  by (induction bs arbitrary: w) auto

lemma persist_ok:
  assumes "io_tmp io \<noteq> path" and "persist ser path io s d = (d', Inr u)"
  shows "ser s \<noteq> None \<and> now d' path = Some \<lparr>f_data = the (ser s), f_mode = STATE_FILE_MODE, f_synced = True\<rparr>"
  using assms atomic_write_ok_dest(1) [of "io_tmp io" path "io_fails io" "the (ser s)" STATE_FILE_MODE d]
  by (auto simp: persist_def atomic_write_json_def split: option.splits prod.splits sum.splits)

lemma persist_total:
  assumes "ser s \<noteq> None" and "\<And>op. \<not> io_fails io op"
  shows "\<exists>d'. persist ser path io s d = (d', Inr ())"
  using assms atomic_write_ok_iff [of "io_fails io" "io_tmp io" path "the (ser s)" STATE_FILE_MODE d]
  by (auto simp: persist_def atomic_write_json_def split: option.splits prod.splits sum.splits)

lemma persist_crash:
  assumes "io_tmp io \<noteq> path"
  shows "crash_contents (fst (persist ser path io s d)) path \<subseteq> crash_contents d path \<union> Some ` set_option (ser s)"
proof (cases "ser s")
  case None
  then show ?thesis by (simp add: persist_def atomic_write_json_def)
next
  case (Some b)
  let ?w = "atomic_write (io_fails io) (io_tmp io) path b STATE_FILE_MODE d"
  have "fst (persist ser path io s d) = fst ?w"
    using Some by (simp add: persist_def atomic_write_json_def split: prod.split sum.split)
  moreover have "crash_contents (fst ?w) path \<subseteq> crash_contents d path \<union> {Some b}"
    using aw_states [OF assms atomic_write_in_trace] crash_old_dest crash_new_dest by blast
  ultimately show ?thesis using Some by simp
qed

text \<open>Whether it succeeds or not, a write leaves the old file or the complete new one.\<close>

lemma persist_now:
  assumes "io_tmp io \<noteq> path"
  shows "now (fst (persist ser path io s d)) path = now d path \<or>
    (ser s \<noteq> None \<and> now (fst (persist ser path io s d)) path =
       Some \<lparr>f_data = the (ser s), f_mode = STATE_FILE_MODE, f_synced = True\<rparr>)"
proof (cases "ser s")
  case None
  then show ?thesis by (simp add: persist_def atomic_write_json_def)
next
  case (Some b)
  let ?w = "atomic_write (io_fails io) (io_tmp io) path b STATE_FILE_MODE d"
  have "fst (persist ser path io s d) = fst ?w"
    using Some by (simp add: persist_def atomic_write_json_def split: prod.split sum.split)
  then show ?thesis
    using Some aw_states [OF assms atomic_write_in_trace [of "io_fails io" "io_tmp io" path b STATE_FILE_MODE d]]
    by (auto simp: old_dest_def new_dest_def)
qed

lemma run_batch_state [simp]:
  "w_state (run_batch h ser p w b) = foldl (apply_update h) (w_state w) (fst b)"
  by (simp add: run_batch_def split_beta Let_def split: sum.split prod.split)

lemma foldl_run_batch_state:
  "w_state (foldl (run_batch h ser p) w bs) = foldl (apply_update h) (w_state w) (updates_of bs)"
  by (induction bs arbitrary: w) simp_all

text \<open>The two writers differ in the mirror only.\<close>

definition same_but_mirror :: "writer \<Rightarrow> writer \<Rightarrow> bool" where
  "same_but_mirror v w \<longleftrightarrow> w_state v = w_state w \<and> w_dirty v = w_dirty w \<and> w_fs v = w_fs w"

lemma same_but_mirror_batch:
  "same_but_mirror v w \<Longrightarrow> same_but_mirror (run_mirrored_batch h ser p v b) (run_batch h ser p w b)"
  by (auto simp: same_but_mirror_def run_mirrored_batch_def run_batch_def Let_def split_beta
      split: sum.split prod.split)

lemma same_but_mirror_loop:
  "same_but_mirror v w \<Longrightarrow>
    same_but_mirror (run_loop (run_mirrored_batch h ser p) v bs) (run_loop (run_batch h ser p) w bs)"
  by (induction bs arbitrary: v w) (auto intro: same_but_mirror_batch)

lemma run_batch_fs:
  "w_fs (run_batch h ser p w b) =
     fst (persist ser p (snd b) (foldl (apply_update h) (w_state w) (fst b)) (w_fs w))"
  by (simp add: run_batch_def split_beta Let_def split: sum.split prod.split)

lemma run_batch_clean:
  assumes "io_tmp (snd b) \<noteq> p" and "\<not> w_dirty (run_batch h ser p w b)"
  shows "now (w_fs (run_batch h ser p w b)) p =
    Some \<lparr>f_data = the (ser (w_state (run_batch h ser p w b))), f_mode = STATE_FILE_MODE, f_synced = True\<rparr>"
proof (cases "persist ser p (snd b) (foldl (apply_update h) (w_state w) (fst b)) (w_fs w)")
  case (Pair d r)
  with assms(2) have "\<exists>u. r = Inr u"
    by (auto simp: run_batch_def split_beta Let_def split: sum.splits)
  then obtain u where "r = Inr u" ..
  with persist_ok [OF assms(1)] Pair show ?thesis
    by (simp add: run_batch_def split_beta Let_def)
qed

lemma foldl_run_batch_clean:
  assumes "\<And>b. b \<in> set bs \<Longrightarrow> io_tmp (snd b) \<noteq> p" and "bs \<noteq> []"
    and "\<not> w_dirty (foldl (run_batch h ser p) w bs)"
  shows "now (w_fs (foldl (run_batch h ser p) w bs)) p =
    Some \<lparr>f_data = the (ser (w_state (foldl (run_batch h ser p) w bs))), f_mode = STATE_FILE_MODE, f_synced = True\<rparr>"
proof -
  obtain bs' b where bs: "bs = bs' @ [b]" using assms(2) by (metis rev_exhaust)
  with assms show ?thesis using run_batch_clean [of b p h ser "foldl (run_batch h ser p) w bs'"] by simp
qed

text \<open>All states the writer passes through, one per batch.\<close>

abbreviation state_after :: "('oid \<Rightarrow> string) \<Rightarrow> state \<Rightarrow> ('oid state_update list \<times> io_env) list \<Rightarrow> nat \<Rightarrow> state" where
  "state_after to_hex s bs k \<equiv> foldl (apply_update to_hex) s (updates_of (take k bs))"

lemma foldl_run_batch_crash:
  assumes "\<And>b. b \<in> set bs \<Longrightarrow> io_tmp (snd b) \<noteq> p"
  shows "crash_contents (w_fs (foldl (run_batch h ser p) w bs)) p \<subseteq>
    crash_contents (w_fs w) p \<union> (\<Union>k \<le> length bs. Some ` set_option (ser (state_after h (w_state w) bs k)))"
  using assms
proof (induction bs rule: rev_induct)
  case Nil
  show ?case by simp
next
  case (snoc b bs)
  let ?v = "foldl (run_batch h ser p) w bs"
  have "crash_contents (w_fs (run_batch h ser p ?v b)) p \<subseteq> crash_contents (w_fs ?v) p
      \<union> Some ` set_option (ser (state_after h (w_state w) (bs @ [b]) (length (bs @ [b]))))"
    using persist_crash [of "snd b" p ser] snoc.prems
    by (simp add: run_batch_fs foldl_run_batch_state)
  moreover have "crash_contents (w_fs ?v) p \<subseteq> crash_contents (w_fs w) p
      \<union> (\<Union>k \<le> length bs. Some ` set_option (ser (state_after h (w_state w) (bs @ [b]) k)))"
    using snoc by simp
  moreover have "{..length (bs @ [b])} = insert (length (bs @ [b])) {..length bs}" by auto
  ultimately show ?case by (simp only: foldl_append foldl.simps UN_insert) blast
qed

lemma run_final_complete:
  assumes "batches bs" and "bs \<noteq> []" and "\<And>b. b \<in> set bs \<Longrightarrow> io_tmp (snd b) \<noteq> path"
    and "io_tmp io \<noteq> path" and "\<And>op. \<not> io_fails io op"
    and "ser (foldl (apply_update to_hex) (w_state w) (updates_of bs)) = Some bytes"
  shows "now (w_fs (run to_hex ser path bs io w)) path =
    Some \<lparr>f_data = bytes, f_mode = STATE_FILE_MODE, f_synced = True\<rparr>"
proof -
  let ?v = "foldl (run_batch to_hex ser path) (w\<lparr>w_dirty := False\<rparr>) bs"
  have st: "w_state ?v = foldl (apply_update to_hex) (w_state w) (updates_of bs)"
    by (simp add: foldl_run_batch_state)
  show ?thesis
  proof (cases "w_dirty ?v")
    case True
    obtain d' where "persist ser path io (w_state ?v) (w_fs ?v) = (d', Inr ())"
      using persist_total [of ser "w_state ?v" io path "w_fs ?v"] assms(5,6) st by auto
    with persist_ok [OF assms(4) this] True assms(1,6) st show ?thesis
      by (simp add: run_def run_loop_batches Let_def)
  next
    case False
    with foldl_run_batch_clean [of bs path] assms(1,2,3,6) st show ?thesis
      by (simp add: run_def run_loop_batches Let_def)
  qed
qed

text \<open>
  The mirror lags the file: it is the state after \<open>k\<close> batches while the file holds the
  serialization of the state after \<open>j \<ge> k\<close> batches.
\<close>

definition mirror_behind_file ::
  "('oid \<Rightarrow> string) \<Rightarrow> (state \<Rightarrow> string option) \<Rightarrow> path \<Rightarrow> state \<Rightarrow> ('oid state_update list \<times> io_env) list \<Rightarrow> writer \<Rightarrow> bool"
where
  "mirror_behind_file h ser p s bs w \<longleftrightarrow>
     (\<exists>k j. k \<le> j \<and> j \<le> length bs \<and> w_mirror w = state_after h s bs k \<and>
       (k = 0 \<or> (ser (state_after h s bs j) \<noteq> None \<and> now (w_fs w) p =
         Some \<lparr>f_data = the (ser (state_after h s bs j)), f_mode = STATE_FILE_MODE, f_synced = True\<rparr>)))"

lemma mirrored_batch_state [simp]:
  "w_state (run_mirrored_batch h ser p w b) = foldl (apply_update h) (w_state w) (fst b)"
  by (simp add: run_mirrored_batch_def split_beta Let_def split: sum.split prod.split)

lemma mirrored_batch_fs:
  "w_fs (run_mirrored_batch h ser p w b) =
     fst (persist ser p (snd b) (foldl (apply_update h) (w_state w) (fst b)) (w_fs w))"
  by (simp add: run_mirrored_batch_def split_beta Let_def split: sum.split prod.split)

lemma mirrored_batch_mirror:
  assumes "io_tmp (snd b) \<noteq> p"
  shows "w_mirror (run_mirrored_batch h ser p w b) = w_mirror w \<or>
    (w_mirror (run_mirrored_batch h ser p w b) = foldl (apply_update h) (w_state w) (fst b) \<and>
     ser (foldl (apply_update h) (w_state w) (fst b)) \<noteq> None \<and>
     now (w_fs (run_mirrored_batch h ser p w b)) p = Some \<lparr>f_data =
       the (ser (foldl (apply_update h) (w_state w) (fst b))), f_mode = STATE_FILE_MODE, f_synced = True\<rparr>)"
proof (cases "persist ser p (snd b) (foldl (apply_update h) (w_state w) (fst b)) (w_fs w)")
  case (Pair d r)
  show ?thesis
  proof (cases r)
    case (Inl e)
    with Pair show ?thesis by (simp add: run_mirrored_batch_def split_beta Let_def)
  next
    case (Inr u)
    with Pair persist_ok [OF assms, of ser _ _ d u] show ?thesis
      by (simp add: run_mirrored_batch_def split_beta Let_def)
  qed
qed

lemma mirrored_fold_state:
  "w_state (foldl (run_mirrored_batch h ser p) w bs) = foldl (apply_update h) (w_state w) (updates_of bs)"
  by (induction bs arbitrary: w) simp_all

lemma mirror_behind_file_step:
  assumes "io_tmp (snd b) \<noteq> p" and "mirror_behind_file h ser p s bs w"
    and "w_state w = state_after h s bs (length bs)"
  shows "mirror_behind_file h ser p s (bs @ [b]) (run_mirrored_batch h ser p w b)"
proof -
  let ?w' = "run_mirrored_batch h ser p w b"
  let ?file = "\<lambda>j. Some \<lparr>f_data = the (ser (state_after h s (bs @ [b]) j)), f_mode = STATE_FILE_MODE, f_synced = True\<rparr>"
  let ?n = "length (bs @ [b])"
  have new: "foldl (apply_update h) (w_state w) (fst b) = state_after h s (bs @ [b]) ?n"
    using assms(3) by simp
  obtain k j where kj: "k \<le> j" "j \<le> length bs" "w_mirror w = state_after h s (bs @ [b]) k"
    and f: "k = 0 \<or> (ser (state_after h s (bs @ [b]) j) \<noteq> None \<and> now (w_fs w) p = ?file j)"
    using assms(2) by (auto simp: mirror_behind_file_def)
  from mirrored_batch_mirror [OF assms(1), of h ser w] show ?thesis
  proof
    assume m: "w_mirror ?w' = w_mirror w"
    have "now (w_fs ?w') p = now (w_fs w) p \<or> (ser (state_after h s (bs @ [b]) ?n) \<noteq> None \<and> now (w_fs ?w') p = ?file ?n)"
      using persist_now [OF assms(1), of ser "state_after h s (bs @ [b]) ?n" "w_fs w"]
      by (simp only: mirrored_batch_fs new)
    then show ?thesis
    proof
      assume "now (w_fs ?w') p = now (w_fs w) p"
      with m kj f show ?thesis unfolding mirror_behind_file_def
        by (intro exI [of _ k] exI [of _ j]) auto
    next
      assume "ser (state_after h s (bs @ [b]) ?n) \<noteq> None \<and> now (w_fs ?w') p = ?file ?n"
      with m kj show ?thesis unfolding mirror_behind_file_def
        by (intro exI [of _ k] exI [of _ ?n]) auto
    qed
  next
    assume "w_mirror ?w' = foldl (apply_update h) (w_state w) (fst b) \<and>
      ser (foldl (apply_update h) (w_state w) (fst b)) \<noteq> None \<and>
      now (w_fs ?w') p = Some \<lparr>f_data = the (ser (foldl (apply_update h) (w_state w) (fst b))),
        f_mode = STATE_FILE_MODE, f_synced = True\<rparr>"
    then show ?thesis unfolding new mirror_behind_file_def
      by (intro exI [of _ ?n]) simp
  qed
qed

lemma mirror_behind_file_fold:
  assumes "\<And>b. b \<in> set bs \<Longrightarrow> io_tmp (snd b) \<noteq> p" and "w_mirror w = w_state w"
  shows "mirror_behind_file h ser p (w_state w) bs (foldl (run_mirrored_batch h ser p) w bs)"
  using assms(1)
proof (induction bs rule: rev_induct)
  case Nil
  show ?case using assms(2) by (simp add: mirror_behind_file_def)
next
  case (snoc b bs)
  then show ?case
    using mirror_behind_file_step [of b p h ser "w_state w" bs "foldl (run_mirrored_batch h ser p) w bs"]
    by (simp add: mirrored_fold_state)
qed

section \<open>Properties\<close>

text \<open>
  C5. Nothing is lost while the last write works: whatever writes failed before, if the writer
  received at least one update and the final attempt does not fail, the state file holds, with
  mode 0600, the serialization of the initial state with every received update applied in order.
\<close>

theorem writer_persists_everything:
  assumes "batches bs" and "bs \<noteq> []" and "\<And>b. b \<in> set bs \<Longrightarrow> io_tmp (snd b) \<noteq> path"
    and "io_tmp io \<noteq> path" and "\<And>op. \<not> io_fails io op"
    and "ser (foldl (apply_update to_hex) (w_state w) (updates_of bs)) = Some bytes"
  shows "now (w_fs (run to_hex ser path bs io w)) path =
    Some \<lparr>f_data = bytes, f_mode = STATE_FILE_MODE, f_synced = True\<rparr>"
  using assms by (rule run_final_complete)

definition good_io :: io_env where
  "good_io = \<lparr>io_tmp = ''t'', io_fails = (\<lambda>_. False), io_poisoned = False\<rparr>"

definition bad_io :: io_env where
  "bad_io = \<lparr>io_tmp = ''t'', io_fails = (\<lambda>op. op = WriteAll), io_poisoned = False\<rparr>"

definition fresh_writer :: writer where
  "fresh_writer = \<lparr>w_state = default_state, w_dirty = False, w_fs = example_fs, w_mirror = default_state\<rparr>"

theorem writer_persists_everything_witness:
  "now (w_fs (run (\<lambda>x. x) (\<lambda>_. Some ''new'') ''s'' [([PollTimestamp ''ci'' 3], bad_io)] good_io fresh_writer)) ''s''
     = Some \<lparr>f_data = ''new'', f_mode = STATE_FILE_MODE, f_synced = True\<rparr>"
  by (rule writer_persists_everything) (auto simp: bad_io_def good_io_def BATCH_LIMIT_def)

text \<open>
  The state file is always a whole snapshot: after any batches with any write failures, a
  power loss finds at its path what was there before the writer started or the serialization of
  the state after some number of complete batches, never a torn or mixed file.
\<close>

theorem writer_file_always_snapshot:
  assumes "batches bs" and "\<And>b. b \<in> set bs \<Longrightarrow> io_tmp (snd b) \<noteq> path" and "io_tmp io \<noteq> path"
    and "c \<in> crash_contents (w_fs (run to_hex ser path bs io w)) path"
  shows "c \<in> crash_contents (w_fs w) path \<or>
    (\<exists>k b. k \<le> length bs \<and> ser (state_after to_hex (w_state w) bs k) = Some b \<and> c = Some b)"
proof -
  let ?v = "foldl (run_batch to_hex ser path) (w\<lparr>w_dirty := False\<rparr>) bs"
  have "crash_contents (w_fs (run to_hex ser path bs io w)) path \<subseteq>
      crash_contents (w_fs ?v) path \<union> Some ` set_option (ser (w_state ?v))"
    using persist_crash [OF assms(3), of ser "w_state ?v" "w_fs ?v"] assms(1)
    by (auto simp: run_def run_loop_batches Let_def)
  moreover have "w_state ?v = state_after to_hex (w_state w) bs (length bs)"
    by (simp add: foldl_run_batch_state)
  moreover have "crash_contents (w_fs ?v) path \<subseteq> crash_contents (w_fs w) path
      \<union> (\<Union>k \<le> length bs. Some ` set_option (ser (state_after to_hex (w_state w) bs k)))"
    using foldl_run_batch_crash [of bs path to_hex ser "w\<lparr>w_dirty := False\<rparr>"] assms(2) by simp
  moreover have "Some ` set_option (ser (state_after to_hex (w_state w) bs (length bs)))
      \<subseteq> (\<Union>k \<le> length bs. Some ` set_option (ser (state_after to_hex (w_state w) bs k)))"
    by (rule UN_upper) simp
  ultimately have "c \<in> crash_contents (w_fs w) path
      \<union> (\<Union>k \<le> length bs. Some ` set_option (ser (state_after to_hex (w_state w) bs k)))"
    using assms(4) by (metis (no_types, lifting) Un_iff subsetD)
  then show ?thesis by (auto simp: elem_set)
qed

theorem writer_file_always_snapshot_witness:
  "Some ''new'' \<in> crash_contents (w_fs (run (\<lambda>x. x) (\<lambda>_. Some ''new'') ''s''
       [([PollTimestamp ''ci'' 3], good_io)] good_io fresh_writer)) ''s''
   \<and> (Some ''new'' \<in> crash_contents example_fs ''s'' \<or> (\<exists>k b. k \<le> Suc 0 \<and> Some ''new'' = Some b))"
proof -
  let ?bs = "[([PollTimestamp ''ci'' 3], good_io)] :: (string state_update list \<times> io_env) list"
  let ?w = "run (\<lambda>x. x) (\<lambda>_. Some ''new'') ''s'' ?bs good_io fresh_writer"
  have "now (w_fs ?w) ''s'' = Some \<lparr>f_data = ''new'', f_mode = STATE_FILE_MODE, f_synced = True\<rparr>"
    by (rule run_final_complete) (auto simp: good_io_def BATCH_LIMIT_def)
  then have "Some ''new'' \<in> crash_contents (w_fs ?w) ''s''"
    by (simp add: crash_contents_def survivors_def)
  then show ?thesis
    using writer_file_always_snapshot [of ?bs "''s''" good_io "Some ''new''" "\<lambda>x. x" "\<lambda>_. Some ''new''" fresh_writer]
    by (auto simp: good_io_def BATCH_LIMIT_def fresh_writer_def)
qed

text \<open>
  \<open>gcit status\<close> never shows what is not on disk: at every moment of the mirrored loop the
  mirror is the state after some \<open>k\<close> batches, and unless that is the loaded state itself the
  file at that moment holds the serialization of the state after at least \<open>k\<close> batches.
\<close>

theorem mirror_never_ahead_of_file:
  assumes "batches bs" and "\<And>b. b \<in> set bs \<Longrightarrow> io_tmp (snd b) \<noteq> path" and "w_mirror w = w_state w"
  shows "mirror_behind_file to_hex ser path (w_state w) bs
    (run_loop (run_mirrored_batch to_hex ser path) w bs)"
  using mirror_behind_file_fold [of bs path w to_hex ser] assms by (simp add: run_loop_batches)

theorem mirror_never_ahead_of_file_witness:
  "mirror_behind_file (\<lambda>x. x) (\<lambda>_. Some ''new'') ''s'' default_state
     [([PollTimestamp ''ci'' 3], bad_io), ([PollTimestamp ''ci'' 4], good_io)]
     (run_loop (run_mirrored_batch (\<lambda>x. x) (\<lambda>_. Some ''new'') ''s'') fresh_writer
       [([PollTimestamp ''ci'' 3], bad_io), ([PollTimestamp ''ci'' 4], good_io)])"
proof -
  let ?bs = "[([PollTimestamp ''ci'' 3], bad_io), ([PollTimestamp ''ci'' 4], good_io)] :: (string state_update list \<times> io_env) list"
  have "mirror_behind_file (\<lambda>x. x) (\<lambda>_. Some ''new'') ''s'' (w_state fresh_writer) ?bs
     (run_loop (run_mirrored_batch (\<lambda>x. x) (\<lambda>_. Some ''new'') ''s'') fresh_writer ?bs)"
    by (rule mirror_never_ahead_of_file) (auto simp: bad_io_def good_io_def fresh_writer_def BATCH_LIMIT_def)
  moreover have "w_state fresh_writer = default_state" by (simp add: fresh_writer_def)
  ultimately show ?thesis by (simp only:)
qed

text \<open>
  Publishing to the mirror does not change what is written: the mirrored writer leaves the
  same in-memory state and the same file system as the plain one.
\<close>

theorem run_mirrored_same_disk:
  "w_state (run_mirrored to_hex ser path bs io w) = w_state (run to_hex ser path bs io w)
   \<and> w_fs (run_mirrored to_hex ser path bs io w) = w_fs (run to_hex ser path bs io w)"
proof -
  let ?m = "run_loop (run_mirrored_batch to_hex ser path) (w\<lparr>w_dirty := False\<rparr>) bs"
  let ?r = "run_loop (run_batch to_hex ser path) (w\<lparr>w_dirty := False\<rparr>) bs"
  have "same_but_mirror ?m ?r" by (rule same_but_mirror_loop) (simp add: same_but_mirror_def)
  then show ?thesis
    by (auto simp: same_but_mirror_def run_mirrored_def run_def Let_def split: prod.split sum.split)
qed

text \<open>
  Restart recovers everything: with a serializer and parsers that agree on the final state,
  loading the file the writer left returns exactly the initial state with all updates applied.
\<close>

theorem restart_recovers_state:
  fixes to_hex :: "'oid \<Rightarrow> string"
  defines "fin \<equiv> \<lambda>w bs. foldl (apply_update to_hex) (w_state w) (updates_of bs)"
  assumes "wf_state (w_state w)" and "batches bs" and "bs \<noteq> []"
    and "\<And>b. b \<in> set bs \<Longrightarrow> io_tmp (snd b) \<noteq> path"
    and "io_tmp io \<noteq> path" and "\<And>op. \<not> io_fails io op"
    and ser: "ser (fin w bs) = Some bytes"
    and parse: "parse bytes = Some (fin w bs)"
    and probe: "probe bytes = Some (Some j)" "as_u64 j = Some (unat (schema (fin w bs)))"
  shows "load_or_init probe as_u64 parse (read_path (w_fs (run to_hex ser path bs io w)) path)
    = Inr (fin w bs)"
proof -
  have "wf_state (fin w bs)" unfolding fin_def by (rule state_inv.run_inv) (rule assms(2))
  then have "schema (fin w bs) = SCHEMA_VERSION" by (simp add: wf_state_def)
  moreover have "now (w_fs (run to_hex ser path bs io w)) path =
      Some \<lparr>f_data = bytes, f_mode = STATE_FILE_MODE, f_synced = True\<rparr>"
    using assms(3-7) ser unfolding fin_def by (rule run_final_complete)
  ultimately show ?thesis using parse probe
    by (simp add: load_or_init_def read_path_def u32_try_from_def SCHEMA_VERSION_def)
qed

theorem restart_recovers_state_witness:
  "load_or_init (\<lambda>_. Some (Some ())) (\<lambda>_. Some 1)
     (\<lambda>_. Some (foldl (apply_update (\<lambda>x. x)) default_state [PollTimestamp ''ci'' 3]))
     (read_path (w_fs (run (\<lambda>x. x) (\<lambda>_. Some ''new'') ''s'' [([PollTimestamp ''ci'' 3], bad_io)] good_io fresh_writer)) ''s'')
   = Inr (foldl (apply_update (\<lambda>x. x)) default_state [PollTimestamp ''ci'' 3])"
proof -
  let ?bs = "[([PollTimestamp ''ci'' 3], bad_io)] :: (string state_update list \<times> io_env) list"
  let ?fin = "foldl (apply_update (\<lambda>x. x)) (w_state fresh_writer) (updates_of ?bs)"
  have "load_or_init (\<lambda>_. Some (Some ())) (\<lambda>_. Some 1) (\<lambda>_. Some ?fin)
      (read_path (w_fs (run (\<lambda>x. x) (\<lambda>_. Some ''new'') ''s'' ?bs good_io fresh_writer)) ''s'') = Inr ?fin"
    by (rule restart_recovers_state [where bytes = "''new''" and j = "()"])
       (auto simp: bad_io_def good_io_def fresh_writer_def BATCH_LIMIT_def apply_defs default_state_def
         SCHEMA_VERSION_def wf_state_def)
  moreover have "?fin = foldl (apply_update (\<lambda>x. x)) default_state [PollTimestamp ''ci'' 3]"
    by (simp add: fresh_writer_def)
  ultimately show ?thesis by (simp only:)
qed

text \<open>
  The loader accepts a file exactly when its schema probe reads version 1 and the full
  document deserializes; a file of any other schema version is refused with that version, and
  only a missing file starts fresh.
\<close>

theorem load_accepts_only_current_schema:
  "load_or_init probe as_u64 parse r = Inr s \<longleftrightarrow>
     (r = FileNotFound \<and> s = default_state) \<or>
     (\<exists>buf raw. r = FileText buf \<and> probe buf = Some (Some raw) \<and> as_u64 raw = Some 1 \<and> parse buf = Some s)"
proof -
  have "u32_try_from n = Some SCHEMA_VERSION \<longleftrightarrow> n = 1" for n
  proof -
    have "n = 1" if "n < 2 ^ 32" "(of_nat n :: u32) = 1"
    proof -
      have "unat (of_nat n :: u32) = n" using that(1) by (simp add: unat_of_nat take_bit_nat_eq_self)
      with that(2) show ?thesis by simp
    qed
    then show ?thesis by (auto simp: u32_try_from_def SCHEMA_VERSION_def)
  qed
  then show ?thesis
    by (auto simp: load_or_init_def split: read_result.splits option.splits if_splits)
qed

end
