(* ===== verification/Startup.thy ===== *)
theory Startup
  imports Validated_Daemon State_Writer Install
begin

text \<open>
  Start and end of the daemon: the paths of the state file and of the instance lock with the errors
  of \<open>src/src/state/mod.rs\<close>, the control listener of \<open>src/src/systemd/socket.rs\<close>, and the sequence of
  \<open>run_with_factories\<close> in \<open>src/src/flow/supervisor/run.rs\<close> around the main loop. Several daemons on
  one machine are a step relation over the kernel's table of lock files.
\<close>

section \<open>Paths of the state file and the lock\<close>

definition STATE_FILENAME :: string where [model_defs]: "STATE_FILENAME = ''state.json''"
definition LOCK_FILENAME :: string where [model_defs]: "LOCK_FILENAME = ''gcit.lock''"

datatype state_error =
    RelativeStateDirectory path | RelativeRuntimeDirectory path | NoStateDirectory | NoRuntimeDirectory
  | CreateStateDirectory path string | CreateRuntimeDirectory path string
  | StateLoad path load_error
  | LockOpen path string | LockHeld path | LockAcquireFailed path string

text \<open>The texts of a load error; \<open>detail\<close> is what the failed call or the JSON value prints.\<close>

fun load_message :: "(load_error \<Rightarrow> string) \<Rightarrow> load_error \<Rightarrow> string" where
  "load_message detail LoadIo_CannotOpen = ''cannot open: '' @ detail LoadIo_CannotOpen"
| "load_message detail LoadIo_Read = ''read: '' @ detail LoadIo_Read"
| "load_message detail Load_ParseJson = ''parse JSON: '' @ detail Load_ParseJson"
| "load_message detail Load_MissingSchema =
     ''missing required field '' @ backquoted ''schema'' @ '' (was the file written by an older gcit?)''"
| "load_message detail Load_SchemaNotUnsigned =
     ''field '' @ backquoted ''schema'' @ '' must be an unsigned integer, got: '' @ detail Load_SchemaNotUnsigned"
| "load_message detail (Load_Unsupported n) =
     ''schema version '' @ show_nat n @ '' is unsupported; this gcit only handles schema '' @ show_nat (unat SCHEMA_VERSION)"
| "load_message detail Load_Deserialize = ''deserialize state: '' @ detail Load_Deserialize"

definition is_load_io :: "load_error \<Rightarrow> bool" where
  "is_load_io e \<longleftrightarrow> e = LoadIo_CannotOpen \<or> e = LoadIo_Read"

fun state_error_display :: "(load_error \<Rightarrow> string) \<Rightarrow> state_error \<Rightarrow> string" where
  "state_error_display detail (RelativeStateDirectory p) = ''STATE_DIRECTORY must be absolute, got: '' @ p"
| "state_error_display detail (RelativeRuntimeDirectory p) = ''RUNTIME_DIRECTORY must be absolute, got: '' @ p"
| "state_error_display detail NoStateDirectory =
     ''cannot resolve state directory: $STATE_DIRECTORY is unset and no XDG / HOME fallback is available''"
| "state_error_display detail NoRuntimeDirectory =
     ''cannot resolve runtime directory: $RUNTIME_DIRECTORY is unset and no XDG_RUNTIME_DIR fallback is available''"
| "state_error_display detail (CreateStateDirectory p e) = ''cannot create state directory '' @ p @ '': '' @ e"
| "state_error_display detail (CreateRuntimeDirectory p e) = ''cannot create runtime directory '' @ p @ '': '' @ e"
| "state_error_display detail (StateLoad p e) =
     ''state file at '' @ p @ '': '' @ load_message detail e @
     (if is_load_io e then []
      else '' (back up the file and remove it to start fresh on schema '' @ show_nat (unat SCHEMA_VERSION) @
        ''; all flow tracking state is lost; the daemon will re-poll fresh)'')"
| "state_error_display detail (LockOpen p e) = ''cannot open instance lock '' @ p @ '': '' @ e"
| "state_error_display detail (LockHeld p) =
     ''another gcit instance is running ('' @ p @ '' is already locked); exit the other instance or remove the lock file if it is stale''"
| "state_error_display detail (LockAcquireFailed p e) = ''instance-lock acquire on '' @ p @ '' failed: '' @ e"

text \<open>A variable that is set to the empty string counts as unset.\<close>

definition set_var :: "(string \<Rightarrow> string option) \<Rightarrow> string \<Rightarrow> string option" where
  "set_var var name = (case var name of Some v \<Rightarrow> if v = [] then None else Some v | None \<Rightarrow> None)"

definition is_absolute :: "path \<Rightarrow> bool" where
  "is_absolute p \<longleftrightarrow> starts_with p ''/''"

definition resolve_state_path :: "(string \<Rightarrow> string option) \<Rightarrow> state_error + path" where
  "resolve_state_path var =
     (case set_var var ''STATE_DIRECTORY'' of
        Some p \<Rightarrow> if \<not> is_absolute p then Inl (RelativeStateDirectory p) else Inr (path_join p STATE_FILENAME)
      | None \<Rightarrow>
         (case set_var var ''XDG_STATE_HOME'' of
            Some p \<Rightarrow> Inr (path_join (path_join p ''gcit'') STATE_FILENAME)
          | None \<Rightarrow>
             (case set_var var ''HOME'' of
                Some h \<Rightarrow> Inr (path_join (path_join (path_join (path_join h ''.local'') ''state'') ''gcit'') STATE_FILENAME)
              | None \<Rightarrow> Inl NoStateDirectory)))"

text \<open>\<open>fs::create_dir_all\<close> of the parent, where there is one; \<open>mkdir\<close> answers with the error.\<close>

definition create_parent :: "(path \<Rightarrow> string option) \<Rightarrow> (path \<Rightarrow> string \<Rightarrow> state_error) \<Rightarrow> path \<Rightarrow> state_error + unit" where
  "create_parent mkdir failed p =
     (case path_parent p of
        None \<Rightarrow> Inr ()
      | Some parent \<Rightarrow>
          if parent = [] then Inr () else (case mkdir parent of Some e \<Rightarrow> Inl (failed parent e) | None \<Rightarrow> Inr ()))"

definition state_path :: "(string \<Rightarrow> string option) \<Rightarrow> (path \<Rightarrow> string option) \<Rightarrow> state_error + path" where
  "state_path var mkdir =
     (case resolve_state_path var of
        Inl e \<Rightarrow> Inl e
      | Inr p \<Rightarrow> (case create_parent mkdir CreateStateDirectory p of Inl e \<Rightarrow> Inl e | Inr _ \<Rightarrow> Inr p))"

definition lock_path :: "(string \<Rightarrow> string option) \<Rightarrow> state_error + path" where
  "lock_path var =
     (case set_var var ''RUNTIME_DIRECTORY'' of
        Some p \<Rightarrow> if \<not> is_absolute p then Inl (RelativeRuntimeDirectory p) else Inr (path_join p LOCK_FILENAME)
      | None \<Rightarrow>
         (case set_var var ''XDG_RUNTIME_DIR'' of
            Some p \<Rightarrow> Inr (path_join (path_join p ''gcit'') LOCK_FILENAME)
          | None \<Rightarrow> Inl NoRuntimeDirectory))"

section \<open>The lock file\<close>

text \<open>
  The kernel's view of lock files: which inode a path names, and which process holds the exclusive
  \<open>flock\<close> of an inode. \<open>open\<close> with \<open>create\<close> makes a fresh inode where there is none; the lock goes away
  with the process, the file does not.
\<close>

record kernel =
  kn_files :: "path \<Rightarrow> nat option"
  kn_next :: nat
  kn_locks :: "nat \<Rightarrow> nat option"

definition open_create :: "path \<Rightarrow> kernel \<Rightarrow> nat \<times> kernel" where
  "open_create p k =
     (case kn_files k p of
        Some i \<Rightarrow> (i, k)
      | None \<Rightarrow> (kn_next k, k\<lparr>kn_files := (kn_files k)(p \<mapsto> kn_next k), kn_next := Suc (kn_next k)\<rparr>))"

definition open_instance_lock_file ::
  "(path \<Rightarrow> string option) \<Rightarrow> string option \<Rightarrow> path \<Rightarrow> kernel \<Rightarrow> (state_error + nat) \<times> kernel" where
  "open_instance_lock_file mkdir open_fails p k =
     (case create_parent mkdir CreateRuntimeDirectory p of
        Inl e \<Rightarrow> (Inl e, k)
      | Inr _ \<Rightarrow>
         (case open_fails of
            Some e \<Rightarrow> (Inl (LockOpen p e), k)
          | None \<Rightarrow> (let (i, k) = open_create p k in (Inr i, k))))"

text \<open>\<open>try_write\<close>: \<open>None\<close> is \<open>WouldBlock\<close>.\<close>

definition try_write :: "nat \<Rightarrow> string option \<Rightarrow> nat \<Rightarrow> kernel \<Rightarrow> (string option + unit) \<times> kernel" where
  "try_write pid lock_fails i k =
     (case lock_fails of
        Some e \<Rightarrow> (Inl (Some e), k)
      | None \<Rightarrow> if kn_locks k i \<noteq> None then (Inl None, k) else (Inr (), k\<lparr>kn_locks := (kn_locks k)(i \<mapsto> pid)\<rparr>))"

definition release_locks :: "nat \<Rightarrow> kernel \<Rightarrow> kernel" where
  "release_locks pid k = k\<lparr>kn_locks := (\<lambda>i. if kn_locks k i = Some pid then None else kn_locks k i)\<rparr>"

section \<open>The control listener\<close>

datatype accept_error = InheritedFd string | FallbackBind string | AlreadyListening path

fun accept_error_display :: "accept_error \<Rightarrow> string" where
  "accept_error_display (InheritedFd e) = ''control listener (inherited fd): '' @ e"
| "accept_error_display (FallbackBind e) = ''control listener (fallback bind): '' @ e"
| "accept_error_display (AlreadyListening p) = p @ '': another gcit daemon is already listening; refusing to start''"

datatype listener = Inherited int | Bound path

text \<open>What the calls on the socket answer: errors as texts, and whether a peer accepts at the path.\<close>

record socket_env =
  so_inherit :: "int \<Rightarrow> string option"
  so_mkdir :: "path \<Rightarrow> string option"
  so_exists :: "path \<Rightarrow> bool"
  so_connect :: "path \<Rightarrow> bool"
  so_bind :: "path \<Rightarrow> string option"

text \<open>The result, with the files that were removed on the way.\<close>

definition accept_control_socket_from_fds ::
  "socket_env \<Rightarrow> (int \<times> string) list \<Rightarrow> path \<Rightarrow> path list \<times> (accept_error + listener)" where
  "accept_control_socket_from_fds env listen_fds default_path =
     (case find (\<lambda>(_, name). name = ''control'') listen_fds of
        Some (fd, _) \<Rightarrow>
          ([], case so_inherit env fd of Some e \<Rightarrow> Inl (InheritedFd e) | None \<Rightarrow> Inr (Inherited fd))
      | None \<Rightarrow>
         (case (case path_parent default_path of Some parent \<Rightarrow> so_mkdir env parent | None \<Rightarrow> None) of
            Some e \<Rightarrow> ([], Inl (FallbackBind e))
          | None \<Rightarrow>
              if so_exists env default_path \<and> so_connect env default_path
              then ([], Inl (AlreadyListening default_path))
              else (if so_exists env default_path then [default_path] else [],
                    case so_bind env default_path of Some e \<Rightarrow> Inl (FallbackBind e) | None \<Rightarrow> Inr (Bound default_path))))"

section \<open>Start of the daemon\<close>

record daemon_params =
  dp_config_path :: path
  dp_default_control_socket :: path
  dp_listen_fds :: "(int \<times> string) list"

datatype daemon_error =
    ConfigErr "config_error list" | StateErr state_error | ControlListener string | SignalSetup string | HttpClient string

fun daemon_error_display :: "(string \<Rightarrow> string) \<Rightarrow> (load_error \<Rightarrow> string) \<Rightarrow> daemon_error \<Rightarrow> string" where
  "daemon_error_display debug detail (ConfigErr errs) =
     ''config: '' @ show_nat (length errs) @ '' error(s):'' @ [CHR 0x0A] @
     concat (map (\<lambda>e. ''  - '' @ config_error_display debug e @ [CHR 0x0A]) errs)"
| "daemon_error_display debug detail (StateErr e) = ''state: '' @ state_error_display detail e"
| "daemon_error_display debug detail (ControlListener s) = ''control listener: '' @ s"
| "daemon_error_display debug detail (SignalSetup s) = ''signal setup: '' @ s"
| "daemon_error_display debug detail (HttpClient s) = ''http client construction: '' @ s"

text \<open>
  What the process finds when it starts: its variables, the loaded configuration, the answers of the
  calls on directories, lock, state file, sockets and signals, and what the spawned flows need.
\<close>

record ('json, 'octo) boot_env =
  be_var :: "string \<Rightarrow> string option"
  be_loaded :: "path \<Rightarrow> config_error list + loaded_config"
  be_canonical :: "path \<Rightarrow> path option"
  be_mkdir :: "path \<Rightarrow> string option"
  be_open_fails :: "string option"
  be_lock_fails :: "string option"
  be_read :: "path \<Rightarrow> read_result"
  be_probe :: "string \<Rightarrow> 'json option option"
  be_as_u64 :: "'json \<Rightarrow> nat option"
  be_parse :: "string \<Rightarrow> State_Apply.state option"
  be_client :: "duration \<Rightarrow> string option"
  be_setup :: "'octo setup_env"
  be_valid_hex :: "string \<Rightarrow> bool"
  be_now :: instant
  be_socket :: socket_env
  be_signals :: "string option"

definition load_initial_config :: "('json, 'octo) boot_env \<Rightarrow> path \<Rightarrow> daemon_error + loaded_config" where
  "load_initial_config env config_path =
     (case be_loaded env config_path of Inr c \<Rightarrow> Inr c | Inl errs \<Rightarrow> Inl (ConfigErr errs))"

text \<open>The part before the lock is taken: configuration, lock path, lock file.\<close>

definition boot_open ::
  "('json, 'octo) boot_env \<Rightarrow> daemon_params \<Rightarrow> kernel \<Rightarrow> (daemon_error + loaded_config \<times> path \<times> nat) \<times> kernel" where
  "boot_open env params k =
     (case load_initial_config env (dp_config_path params) of
        Inl e \<Rightarrow> (Inl e, k)
      | Inr config \<Rightarrow>
         (case lock_path (be_var env) of
            Inl e \<Rightarrow> (Inl (StateErr e), k)
          | Inr p \<Rightarrow>
             (case open_instance_lock_file (be_mkdir env) (be_open_fails env) p k of
                (Inl e, k) \<Rightarrow> (Inl (StateErr e), k)
              | (Inr i, k) \<Rightarrow> (Inr (config, p, i), k))))"

definition boot_lock :: "('json, 'octo) boot_env \<Rightarrow> nat \<Rightarrow> path \<Rightarrow> nat \<Rightarrow> kernel \<Rightarrow> (daemon_error + unit) \<times> kernel" where
  "boot_lock env pid p i k =
     (case try_write pid (be_lock_fails env) i k of
        (Inr _, k) \<Rightarrow> (Inr (), k)
      | (Inl None, k) \<Rightarrow> (Inl (StateErr (LockHeld p)), k)
      | (Inl (Some e), k) \<Rightarrow> (Inl (StateErr (LockAcquireFailed p e)), k))"

text \<open>\<open>setup_state_writer\<close>: the path, the loaded state, and the mirror the writer starts with.\<close>

definition setup_state_writer :: "('json, 'octo) boot_env \<Rightarrow> daemon_error + path \<times> State_Apply.state" where
  "setup_state_writer env =
     (case state_path (be_var env) (be_mkdir env) of
        Inl e \<Rightarrow> Inl (StateErr e)
      | Inr p \<Rightarrow>
         (case load_or_init (be_probe env) (be_as_u64 env) (be_parse env) (be_read env p) of
            Inl e \<Rightarrow> Inl (StateErr (StateLoad p e))
          | Inr s \<Rightarrow> Inr (p, s)))"

text \<open>\<open>CredentialPool::with_config_path\<close>: the directory of the canonical path.\<close>

definition credential_config_dir :: "('json, 'octo) boot_env \<Rightarrow> path \<Rightarrow> string option" where
  "credential_config_dir env config_path = path_parent (unwrap_or (be_canonical env config_path) config_path)"

definition build_shared_http_resources :: "('json, 'octo) boot_env \<Rightarrow> loaded_config \<Rightarrow> path \<Rightarrow> daemon_error + string option" where
  "build_shared_http_resources env config config_path =
     (case be_client env (cf_request_timeout config) of
        Some e \<Rightarrow> Inl (HttpClient e)
      | None \<Rightarrow> Inr (credential_config_dir env config_path))"

definition install_signal_handlers :: "('json, 'octo) boot_env \<Rightarrow> daemon_error + unit" where
  "install_signal_handlers env = (case be_signals env of Some e \<Rightarrow> Inl (SignalSetup e) | None \<Rightarrow> Inr ())"

definition bind_control_listener :: "('json, 'octo) boot_env \<Rightarrow> daemon_params \<Rightarrow> path list \<times> (daemon_error + listener)" where
  "bind_control_listener env params =
     (case accept_control_socket_from_fds (be_socket env) (dp_listen_fds params) (dp_default_control_socket params) of
        (removed, Inl e) \<Rightarrow> (removed, Inl (ControlListener (accept_error_display e)))
      | (removed, Inr l) \<Rightarrow> (removed, Inr l))"

text \<open>What the start does that others can see, in order.\<close>

datatype 'octo boot_event =
    LoadedState path State_Apply.state
  | SpawnedFlows "(f64, 'octo) supervisor"
  | RemovedSocket path
  | Listening listener
  | NotifiedReady

text \<open>The part after the lock is taken, up to the main loop.\<close>

definition boot_rest ::
  "('json, 'octo) boot_env \<Rightarrow> daemon_params \<Rightarrow> loaded_config \<Rightarrow> 'octo boot_event list \<times> (daemon_error + path \<times> (f64, 'octo) supervisor)"
where
  "boot_rest env params config =
     (case setup_state_writer env of
        Inl e \<Rightarrow> ([], Inl e)
      | Inr (p, s) \<Rightarrow>
         (case build_shared_http_resources env config (dp_config_path params) of
            Inl e \<Rightarrow> ([LoadedState p s], Inl e)
          | Inr config_dir \<Rightarrow>
             (let sv = daemon_start \<lparr>sp_setup = be_setup env, sp_valid_hex = be_valid_hex env, sp_mirror = s, sp_now = be_now env\<rparr>
                         config_dir (config.truncate config);
                  (removed, bound) = bind_control_listener env params;
                  so_far = [LoadedState p s, SpawnedFlows sv] @ map RemovedSocket removed
              in case bound of
                   Inl e \<Rightarrow> (so_far, Inl e)
                 | Inr l \<Rightarrow>
                    (case install_signal_handlers env of
                       Inl e \<Rightarrow> (so_far @ [Listening l], Inl e)
                     | Inr _ \<Rightarrow> (so_far @ [Listening l, NotifiedReady], Inr (p, sv))))))"

text \<open>
  The whole run of one process: start, main loop over the events up to the signal that ends it,
  cancellation and drain of the tasks. The lock guard is dropped on every way out.
\<close>

definition run_with_factories ::
  "('json, 'octo) boot_env \<Rightarrow> daemon_params \<Rightarrow> nat \<Rightarrow> (f64, 'octo) daemon_event list \<Rightarrow> kernel
     \<Rightarrow> 'octo boot_event list \<times> (daemon_error + (f64, 'octo) supervisor) \<times> kernel"
where
  "run_with_factories env params pid events k =
     (case boot_open env params k of
        (Inl e, k) \<Rightarrow> ([], Inl e, k)
      | (Inr (config, p, i), k) \<Rightarrow>
         (case boot_lock env pid p i k of
            (Inl e, k) \<Rightarrow> ([], Inl e, k)
          | (Inr _, k) \<Rightarrow>
             (case boot_rest env params config of
                (tr, Inl e) \<Rightarrow> (tr, Inl e, release_locks pid k)
              | (tr, Inr (_, sv)) \<Rightarrow>
                  (tr, Inr (daemon_shutdown (foldl daemon_event_step sv events)), release_locks pid k))))"

section \<open>Several daemons on one machine\<close>

text \<open>
  Each process goes through the start in three steps, between which others may act: it opens the lock
  file, takes the lock, and does the rest. It may end at any time; the kernel then drops its lock.
  With \<open>removal\<close> an operator may delete lock files, as the text of \<open>LockHeld\<close> suggests.
\<close>

datatype ('json, 'octo) phase =
    Opened "('json, 'octo) boot_env" daemon_params loaded_config path nat
  | Locked "('json, 'octo) boot_env" daemon_params loaded_config path nat
  | Running "('json, 'octo) boot_env" daemon_params path nat path "(f64, 'octo) supervisor"

record ('json, 'octo) machine =
  mc_kernel :: kernel
  mc_procs :: "nat \<Rightarrow> ('json, 'octo) phase option"

definition machine_start :: "('json, 'octo) machine" where
  "machine_start = \<lparr>mc_kernel = \<lparr>kn_files = Map.empty, kn_next = 0, kn_locks = Map.empty\<rparr>, mc_procs = Map.empty\<rparr>"

definition put_proc :: "nat \<Rightarrow> ('json, 'octo) phase \<Rightarrow> kernel \<Rightarrow> ('json, 'octo) machine \<Rightarrow> ('json, 'octo) machine" where
  "put_proc pid ph k m = m\<lparr>mc_kernel := k, mc_procs := (mc_procs m)(pid \<mapsto> ph)\<rparr>"

definition end_proc :: "nat \<Rightarrow> kernel \<Rightarrow> ('json, 'octo) machine \<Rightarrow> ('json, 'octo) machine" where
  "end_proc pid k m = m\<lparr>mc_kernel := release_locks pid k, mc_procs := (mc_procs m)(pid := None)\<rparr>"

inductive machine_step :: "bool \<Rightarrow> ('json, 'octo) machine \<Rightarrow> ('json, 'octo) machine \<Rightarrow> bool" for removal :: bool where
  opened: "mc_procs m pid = None \<Longrightarrow> boot_open env params (mc_kernel m) = (Inr (c, p, i), k) \<Longrightarrow>
    machine_step removal m (put_proc pid (Opened env params c p i) k m)"
| open_failed: "mc_procs m pid = None \<Longrightarrow> boot_open (env :: ('json, 'octo) boot_env) params (mc_kernel m) = (Inl e, k) \<Longrightarrow>
    machine_step removal m (end_proc pid k m)"
| locked: "mc_procs m pid = Some (Opened env params c p i) \<Longrightarrow> boot_lock env pid p i (mc_kernel m) = (Inr (), k) \<Longrightarrow>
    machine_step removal m (put_proc pid (Locked env params c p i) k m)"
| lock_failed: "mc_procs m pid = Some (Opened env params c p i) \<Longrightarrow> boot_lock env pid p i (mc_kernel m) = (Inl e, k) \<Longrightarrow>
    machine_step removal m (end_proc pid k m)"
| started: "mc_procs m pid = Some (Locked env params c p i) \<Longrightarrow> boot_rest env params c = (tr, Inr (sp, sv)) \<Longrightarrow>
    machine_step removal m (put_proc pid (Running env params p i sp sv) (mc_kernel m) m)"
| event: "mc_procs m pid = Some (Running env params p i sp sv) \<Longrightarrow>
    machine_step removal m (put_proc pid (Running env params p i sp (daemon_event_step sv e)) (mc_kernel m) m)"
| ended: "mc_procs m pid = Some ph \<Longrightarrow> machine_step removal m (end_proc pid (mc_kernel m) m)"
| removed: "removal \<Longrightarrow> machine_step removal m (m\<lparr>mc_kernel := (mc_kernel m)\<lparr>kn_files := (kn_files (mc_kernel m))(p := None)\<rparr>\<rparr>)"

abbreviation machine_reachable :: "bool \<Rightarrow> ('json, 'octo) machine \<Rightarrow> bool" where
  "machine_reachable removal m \<equiv> (machine_step removal)\<^sup>*\<^sup>* machine_start m"

text \<open>The lock file a process has open, and the one it has locked.\<close>

fun lock_file :: "('json, 'octo) phase \<Rightarrow> path \<times> nat" where
  "lock_file (Opened env params c p i) = (p, i)"
| "lock_file (Locked env params c p i) = (p, i)"
| "lock_file (Running env params p i sp sv) = (p, i)"

fun held_inode :: "('json, 'octo) phase \<Rightarrow> nat option" where
  "held_inode (Opened env params c p i) = None"
| "held_inode (Locked env params c p i) = Some i"
| "held_inode (Running env params p i sp sv) = Some i"

text \<open>The environment of a process is one in which the steps it has taken succeed.\<close>

fun phase_ok :: "('json, 'octo) phase \<Rightarrow> bool" where
  "phase_ok (Opened env params c p i) \<longleftrightarrow> (\<exists>k k'. boot_open env params k = (Inr (c, p, i), k'))"
| "phase_ok (Locked env params c p i) \<longleftrightarrow> (\<exists>k k'. boot_open env params k = (Inr (c, p, i), k')) \<and> be_lock_fails env = None"
| "phase_ok (Running env params p i sp sv) \<longleftrightarrow>
     (\<exists>c k k' tr sv0. boot_open env params k = (Inr (c, p, i), k') \<and> boot_rest env params c = (tr, Inr (sp, sv0))) \<and>
     be_lock_fails env = None"

definition machine_inv :: "bool \<Rightarrow> ('json, 'octo) machine \<Rightarrow> bool" where
  "machine_inv removal m \<longleftrightarrow>
     (\<forall>i pid. kn_locks (mc_kernel m) i = Some pid \<longleftrightarrow> (\<exists>ph. mc_procs m pid = Some ph \<and> held_inode ph = Some i)) \<and>
     (\<forall>pid ph. mc_procs m pid = Some ph \<longrightarrow> phase_ok ph \<and> snd (lock_file ph) < kn_next (mc_kernel m)) \<and>
     (\<forall>p i. kn_files (mc_kernel m) p = Some i \<longrightarrow> i < kn_next (mc_kernel m)) \<and>
     (\<not> removal \<longrightarrow> (\<forall>pid ph. mc_procs m pid = Some ph \<longrightarrow>
        kn_files (mc_kernel m) (fst (lock_file ph)) = Some (snd (lock_file ph))))"

section \<open>Lemmas: starting\<close>

lemma boot_open_cases:
  assumes "boot_open env params k = (r, k')"
  obtains (failed) e where "r = Inl e" "k' = k"
    | (opened) c p i where "r = Inr (c, p, i)" "be_loaded env (dp_config_path params) = Inr c" "lock_path (be_var env) = Inr p"
        "create_parent (be_mkdir env) CreateRuntimeDirectory p = Inr ()" "be_open_fails env = None" "open_create p k = (i, k')"
  using assms that
  by (auto simp: boot_open_def load_initial_config_def open_instance_lock_file_def split: sum.splits option.splits prod.splits)

lemma boot_open_again:
  assumes "boot_open env params k = (Inr (c, p, i), k')" and "open_create p k2 = (j, k3)"
  shows "boot_open env params k2 = (Inr (c, p, j), k3)"
  using assms
  by (auto simp: boot_open_def load_initial_config_def open_instance_lock_file_def split: sum.splits option.splits prod.splits)

lemma boot_lock_cases:
  assumes "boot_lock env pid p i k = (r, k')"
  obtains (failed) e where "r = Inl e" "k' = k"
    | (locked) "r = Inr ()" "be_lock_fails env = None" "kn_locks k i = None" "k' = k\<lparr>kn_locks := (kn_locks k)(i \<mapsto> pid)\<rparr>"
  using assms that by (auto simp: boot_lock_def try_write_def split: option.splits if_splits)

lemma boot_lock_free:
  "be_lock_fails env = None \<Longrightarrow> kn_locks k i = None \<Longrightarrow> boot_lock env pid p i k = (Inr (), k\<lparr>kn_locks := (kn_locks k)(i \<mapsto> pid)\<rparr>)"
  by (simp add: boot_lock_def try_write_def)

lemma open_create_effect:
  assumes "open_create p k = (i, k')"
  shows "kn_files k' p = Some i" and "kn_locks k' = kn_locks k" and "kn_next k \<le> kn_next k'"
    and "kn_files k q = Some j \<Longrightarrow> kn_files k' q = Some j"
    and "(\<forall>p i. kn_files k p = Some i \<longrightarrow> i < kn_next k) \<Longrightarrow> i < kn_next k' \<and> (\<forall>p i. kn_files k' p = Some i \<longrightarrow> i < kn_next k')"
  using assms by (auto simp: open_create_def less_Suc_eq split: option.splits if_splits)

lemma release_locks_simps [simp]:
  "kn_files (release_locks pid k) = kn_files k" "kn_next (release_locks pid k) = kn_next k"
  "kn_locks (release_locks pid k) i = Some q \<longleftrightarrow> kn_locks k i = Some q \<and> q \<noteq> pid"
  by (auto simp: release_locks_def)

section \<open>Lemmas: the machine\<close>

text \<open>The parts of the invariant by name.\<close>

lemma machine_invD:
  assumes "machine_inv removal m"
  shows "kn_locks (mc_kernel m) i = Some pid \<longleftrightarrow> (\<exists>ph. mc_procs m pid = Some ph \<and> held_inode ph = Some i)"
    and "mc_procs m pid = Some ph \<Longrightarrow> phase_ok ph \<and> snd (lock_file ph) < kn_next (mc_kernel m)"
    and "kn_files (mc_kernel m) p = Some i \<Longrightarrow> i < kn_next (mc_kernel m)"
    and "\<not> removal \<Longrightarrow> mc_procs m pid = Some ph \<Longrightarrow> kn_files (mc_kernel m) (fst (lock_file ph)) = Some (snd (lock_file ph))"
  using assms by (auto simp: machine_inv_def)

lemma inv_end:
  assumes "machine_inv removal m"
  shows "machine_inv removal (end_proc pid (mc_kernel m) m)"
  using assms by (auto simp: machine_inv_def end_proc_def)

lemma inv_opened:
  assumes inv: "machine_inv removal m" and "mc_procs m pid = None" and bo: "boot_open env params (mc_kernel m) = (Inr (c, p, i), k)"
  shows "machine_inv removal (put_proc pid (Opened env params c p i) k m)"
proof -
  from bo have oc: "open_create p (mc_kernel m) = (i, k)" by (cases rule: boot_open_cases) simp_all
  note eff = open_create_effect [OF oc]
  have "phase_ok (Opened env params c p i)" using bo by auto
  moreover have "i < kn_next k" "\<forall>p i. kn_files k p = Some i \<longrightarrow> i < kn_next k" using eff(5) inv by (auto simp: machine_inv_def)
  ultimately show ?thesis using inv assms(2) eff(1-4)
    by (fastforce simp: machine_inv_def put_proc_def)
qed

text \<open>A process that already has the file open moves on.\<close>

lemma inv_moved:
  assumes inv: "machine_inv removal m" and "mc_procs m pid = Some ph" and "lock_file ph' = lock_file ph" and "phase_ok ph'"
    and "held_inode ph = None \<and> kn_locks (mc_kernel m) (snd (lock_file ph)) = None \<and> held_inode ph' = Some (snd (lock_file ph)) \<and>
           k = (mc_kernel m)\<lparr>kn_locks := (kn_locks (mc_kernel m))(snd (lock_file ph) \<mapsto> pid)\<rparr> \<or>
         held_inode ph' = held_inode ph \<and> k = mc_kernel m"
  shows "machine_inv removal (put_proc pid ph' k m)"
  using assms(5)
proof (elim disjE conjE)
  assume *: "held_inode ph = None" "kn_locks (mc_kernel m) (snd (lock_file ph)) = None" "held_inode ph' = Some (snd (lock_file ph))"
    "k = (mc_kernel m)\<lparr>kn_locks := (kn_locks (mc_kernel m))(snd (lock_file ph) \<mapsto> pid)\<rparr>"
  have "held_inode ph0 \<noteq> Some (snd (lock_file ph))" if "mc_procs m q = Some ph0" for q ph0
    using machine_invD(1) [OF inv, of "snd (lock_file ph)" q] *(2) that by auto
  with * inv assms(2-4) show ?thesis by (auto simp: machine_inv_def put_proc_def)
next
  assume "held_inode ph' = held_inode ph" "k = mc_kernel m"
  with inv assms(2-4) show ?thesis by (auto simp: machine_inv_def put_proc_def)
qed

lemma inv_step:
  assumes step: "machine_step removal m m'" and inv: "machine_inv removal m"
  shows "machine_inv removal m'"
  using step
proof cases
  case (opened pid env params c p i k)
  with inv show ?thesis by (simp add: inv_opened)
next
  case (open_failed pid env params e k)
  then have "k = mc_kernel m" by (auto elim: boot_open_cases)
  with open_failed inv show ?thesis by (simp add: inv_end)
next
  case (locked pid env params c p i k)
  have "phase_ok (Opened env params c p i)" by (simp only: machine_invD(2) [OF inv locked(2)])
  moreover from locked(3) have "be_lock_fails env = None" "kn_locks (mc_kernel m) i = None"
    "k = (mc_kernel m)\<lparr>kn_locks := (kn_locks (mc_kernel m))(i \<mapsto> pid)\<rparr>" by (cases rule: boot_lock_cases, simp_all)+
  ultimately show ?thesis unfolding locked(1) by (intro inv_moved [OF inv locked(2)]) simp_all
next
  case (lock_failed pid env params c p i e k)
  then have "k = mc_kernel m" by (auto elim: boot_lock_cases)
  with lock_failed inv show ?thesis by (simp add: inv_end)
next
  case (started pid env params c p i tr sp sv)
  have "phase_ok (Locked env params c p i)" by (simp only: machine_invD(2) [OF inv started(2)])
  with started(3) have "phase_ok (Running env params p i sp sv)" by auto
  then show ?thesis unfolding started(1) by (intro inv_moved [OF inv started(2)]) simp_all
next
  case (event pid env params p i sp sv e)
  have "phase_ok (Running env params p i sp sv)" by (simp only: machine_invD(2) [OF inv event(2)])
  then show ?thesis unfolding event(1) by (intro inv_moved [OF inv event(2)]) simp_all
next
  case (ended pid ph)
  with inv show ?thesis by (simp add: inv_end)
next
  case (removed p)
  with inv show ?thesis by (auto simp: machine_inv_def)
qed

lemma reachable_inv: "machine_reachable removal m \<Longrightarrow> machine_inv removal m"
proof (induction rule: rtranclp_induct)
  case base
  show ?case by (simp add: machine_inv_def machine_start_def)
next
  case (step m m')
  then show ?case by (metis inv_step)
qed

lemma start_reaches:
  assumes "mc_procs m pid = None" and "boot_open env params (mc_kernel m) = (Inr (c, p, i), k)" and "be_lock_fails env = None"
    and "kn_locks k i = None" and "boot_rest env params c = (tr, Inr (sp, sv))"
  shows "(machine_step removal)\<^sup>*\<^sup>* m (put_proc pid (Running env params p i sp sv) (k\<lparr>kn_locks := (kn_locks k)(i \<mapsto> pid)\<rparr>) m)"
proof -
  define k' where "k' = k\<lparr>kn_locks := (kn_locks k)(i \<mapsto> pid)\<rparr>"
  define m1 m2 m3 where "m1 = put_proc pid (Opened env params c p i) k m" and "m2 = put_proc pid (Locked env params c p i) k' m1"
    and "m3 = put_proc pid (Running env params p i sp sv) (mc_kernel m2) m2"
  have "machine_step removal m m1" unfolding m1_def using assms(1,2) by (rule machine_step.opened)
  moreover have "machine_step removal m1 m2" unfolding m2_def
    by (rule machine_step.locked [where env = env and params = params])
      (simp_all add: m1_def put_proc_def k'_def boot_lock_free [OF assms(3,4)])
  moreover have "machine_step removal m2 m3" unfolding m3_def
    by (rule machine_step.started [OF _ assms(5)]) (simp add: m2_def put_proc_def)
  ultimately have "(machine_step removal)\<^sup>*\<^sup>* m m3" by (meson rtranclp.rtrancl_into_rtrancl rtranclp.rtrancl_refl)
  moreover have "m3 = put_proc pid (Running env params p i sp sv) k' m" by (simp add: m3_def m2_def m1_def put_proc_def)
  ultimately show ?thesis by (simp add: k'_def)
qed

section \<open>Lemmas: what a run starts with\<close>

definition seeded :: "'octo spawn_env \<Rightarrow> ('j, 'octo) supervisor \<Rightarrow> bool" where
  "seeded env sv \<longleftrightarrow> (\<forall>gn \<in> set (sv_generations sv).
     gn_last_sha gn = read_persisted_last_sha (sp_valid_hex env) (sp_mirror env) (gn_flow gn) \<and>
     gn_last_dispatched_at gn = read_persisted_last_dispatched_at (sp_mirror env) (gn_flow gn))"

lemma seeded_frame [simp]:
  "seeded env (sv\<lparr>sv_pool := pool\<rparr>) = seeded env sv" "seeded env (sv\<lparr>sv_flow_names := ns\<rparr>) = seeded env sv"
  "seeded env (record_setup_failure_and_skip t n k e sv) = seeded env sv"
  by (simp_all add: seeded_def record_setup_failure_and_skip_def)

lemma seeded_start_tasks: "seeded env sv \<Longrightarrow> seeded env (start_tasks env c f ns r sv)"
  by (simp add: seeded_def start_tasks_def Let_def case_prod_beta)

lemma seeded_spawn: "seeded env sv \<Longrightarrow> seeded env (spawn_flow env c f sv)"
  unfolding spawn_flow_def by (simp add: seeded_start_tasks split: prod.split sum.split)

lemma seeded_start: "seeded env (daemon_start env dir c)"
proof -
  have fold: "seeded env (foldl (\<lambda>sv flow. if \<not> fc_enabled flow then sv else spawn_flow env c flow sv) sv fs)" if "seeded env sv" for sv fs
    using that
  proof (induction fs arbitrary: sv)
    case (Cons f fs)
    from Cons.prems show ?case using Cons.IH [OF seeded_spawn [OF Cons.prems]] Cons.IH [OF Cons.prems] by simp
  qed simp
  show ?thesis unfolding daemon_start_def spawn_initial_flows_def Let_def seeded_frame
    by (rule fold) (simp add: seeded_def)
qed

abbreviation boot_spawn_env :: "('json, 'octo) boot_env \<Rightarrow> State_Apply.state \<Rightarrow> 'octo spawn_env" where
  "boot_spawn_env env s \<equiv> \<lparr>sp_setup = be_setup env, sp_valid_hex = be_valid_hex env, sp_mirror = s, sp_now = be_now env\<rparr>"

lemma boot_rest_spawned:
  assumes "boot_rest env params c = (tr, r)" and "SpawnedFlows sv \<in> set tr"
  obtains sp s dir tr' where "resolve_state_path (be_var env) = Inr sp"
    and "load_or_init (be_probe env) (be_as_u64 env) (be_parse env) (be_read env sp) = Inr s"
    and "sv = daemon_start (boot_spawn_env env s) dir (config.truncate c)"
    and "tr = LoadedState sp s # SpawnedFlows sv # tr'"
    and "(\<exists>e. r = Inl (ControlListener e)) \<or> (\<exists>e. r = Inl (SignalSetup e)) \<or> r = Inr (sp, sv)"
  using assms that
  by (auto simp: boot_rest_def setup_state_writer_def state_path_def build_shared_http_resources_def bind_control_listener_def
      install_signal_handlers_def Let_def split: sum.splits option.splits prod.splits)

lemma run_spawned:
  assumes "run_with_factories env params pid events k = (tr, r, k')" and "SpawnedFlows sv \<in> set tr"
  obtains c p i k1 r' where "be_loaded env (dp_config_path params) = Inr c" "lock_path (be_var env) = Inr p"
    "open_create p k = (i, k1)" "kn_locks k i = None" "k' = release_locks pid (k1\<lparr>kn_locks := (kn_locks k)(i \<mapsto> pid)\<rparr>)"
    "boot_rest env params c = (tr, r')" "\<And>e. r' = Inl e \<Longrightarrow> r = Inl e" "isl r = isl r'"
proof -
  obtain o1 k1 where o1: "boot_open env params k = (o1, k1)" by (metis surj_pair)
  then show thesis
  proof (cases rule: boot_open_cases)
    case (failed e)
    with assms o1 show thesis by (simp add: run_with_factories_def)
  next
    case (opened c p i)
    obtain o2 k2 where o2: "boot_lock env pid p i k1 = (o2, k2)" by (metis surj_pair)
    then show thesis
    proof (cases rule: boot_lock_cases)
      case (failed e)
      with assms o1 opened o2 show thesis by (simp add: run_with_factories_def)
    next
      case locked
      obtain tr' r' where rest: "boot_rest env params c = (tr', r')" by (metis surj_pair)
      have "kn_locks k1 = kn_locks k" using open_create_effect(2) [OF opened(6)] .
      then show thesis using assms(1) o1 opened o2 locked rest
        by (intro that [of c p i k1 r']) (auto simp: run_with_factories_def split: sum.splits)
    qed
  qed
qed

section \<open>Properties\<close>

text \<open>
  C4. One daemon per lock path: in every state the machine can reach while nobody deletes lock
  files, two daemons whose variables give the same lock path are the same process, whatever the
  interleaving of their starts.
\<close>

theorem instance_lock_exclusive:
  assumes "machine_reachable False m"
    and "mc_procs m a = Some (Running env1 params1 p1 i1 sp1 sv1)" and "mc_procs m b = Some (Running env2 params2 p2 i2 sp2 sv2)"
    and "lock_path (be_var env1) = lock_path (be_var env2)"
  shows "a = b"
proof -
  note inv = reachable_inv [OF assms(1)]
  have "lock_path (be_var env1) = Inr p1" "lock_path (be_var env2) = Inr p2"
    using machine_invD(2) [OF inv assms(2)] machine_invD(2) [OF inv assms(3)] by (auto elim!: boot_open_cases)
  then have "p1 = p2" using assms(4) by simp
  then have "i1 = i2"
    using machine_invD(4) [OF inv _ assms(2)] machine_invD(4) [OF inv _ assms(3)] by simp
  moreover have "kn_locks (mc_kernel m) i1 = Some a" "kn_locks (mc_kernel m) i2 = Some b"
    using assms(2,3) by (auto simp: machine_invD(1) [OF inv])
  ultimately show ?thesis by simp
qed


text \<open>
  Flows start only behind the lock and from the state file: if a run spawns its flows, the lock
  of its path was free and nobody else's, the state file had been loaded before, and every task pair is
  the one \<open>daemon_start\<close> makes of the configuration with that state as the mirror. A run that fails after
  that failed to listen or to install its signal handlers. No run leaves a lock behind.
\<close>

theorem flows_start_behind_lock:
  assumes "run_with_factories env params pid events k = (tr, r, k')" and "SpawnedFlows sv \<in> set tr"
    and "\<forall>i. kn_locks k i \<noteq> Some pid"
  shows "(\<exists>p i. lock_path (be_var env) = Inr p \<and> kn_files k' p = Some i \<and> kn_locks k i = None) \<and> kn_locks k' = kn_locks k \<and>
    (\<exists>c sp s dir tr'. be_loaded env (dp_config_path params) = Inr c \<and> resolve_state_path (be_var env) = Inr sp \<and>
       load_or_init (be_probe env) (be_as_u64 env) (be_parse env) (be_read env sp) = Inr s \<and>
       tr = LoadedState sp s # SpawnedFlows sv # tr' \<and> sv = daemon_start (boot_spawn_env env s) dir (config.truncate c)) \<and>
    (\<forall>e. r = Inl e \<longrightarrow> (\<exists>t. e = ControlListener t \<or> e = SignalSetup t))"
proof -
  from run_spawned [OF assms(1,2)] obtain c p i k1 r' where c: "be_loaded env (dp_config_path params) = Inr c"
    and p: "lock_path (be_var env) = Inr p" "open_create p k = (i, k1)" "kn_locks k i = None"
    and k': "k' = release_locks pid (k1\<lparr>kn_locks := (kn_locks k)(i \<mapsto> pid)\<rparr>)"
    and rest: "boot_rest env params c = (tr, r')" and r: "\<And>e. r' = Inl e \<Longrightarrow> r = Inl e" "isl r = isl r'" by metis
  have "kn_locks k' j = kn_locks k j" for j using assms(3) p(3) by (simp add: k' release_locks_def)
  then have "kn_locks k' = kn_locks k" by (rule ext)
  moreover have "kn_files k' p = Some i" using open_create_effect(1) [OF p(2)] by (simp add: k')
  moreover from boot_rest_spawned [OF rest assms(2)] obtain sp s dir tr' where "resolve_state_path (be_var env) = Inr sp"
    "load_or_init (be_probe env) (be_as_u64 env) (be_parse env) (be_read env sp) = Inr s"
    "sv = daemon_start (boot_spawn_env env s) dir (config.truncate c)" "tr = LoadedState sp s # SpawnedFlows sv # tr'"
    "(\<exists>e. r' = Inl (ControlListener e)) \<or> (\<exists>e. r' = Inl (SignalSetup e)) \<or> r' = Inr (sp, sv)" by metis
  ultimately show ?thesis using c p(1,3) r by (intro conjI) (blast, assumption, blast, auto)
qed

text \<open>
  C3. A restart does not dispatch again: let the writer of one daemon end with a working disk. Every
  flow the next daemon starts on that state file begins with the SHA and the dispatch time the
  previous one recorded last, and its poll loop sends no trigger as long as the ref is still there.
\<close>

theorem restart_does_not_redispatch:
  assumes "wf_state s0" and "batches bs" and "bs \<noteq> []" and "\<And>b. b \<in> set bs \<Longrightarrow> io_tmp (snd b) \<noteq> path"
    and "io_tmp io \<noteq> path" and "\<And>op. \<not> io_fails io op"
    and fin: "fin = foldl (apply_update to_hex) s0 (updates_of bs)" and "ser fin = Some bytes"
    and "resolve_state_path (be_var env) = Inr path"
    and "be_read env path = read_path (w_fs (spawn_with_mirror to_hex ser path bs io s0 d)) path"
    and "be_parse env bytes = Some fin" and "be_probe env bytes = Some (Some j)" and "be_as_u64 env j = Some (unat (schema fin))"
    and "run_with_factories env params pid events k = (tr, r, k')" and "SpawnedFlows sv \<in> set tr" and "gn \<in> set (sv_generations sv)"
    and "flows fin (gn_flow gn) = Some entry" and "last_sha entry = Some (to_hex sha)" and "be_valid_hex env (to_hex sha)"
    and "map_option to_hex sha0 = gn_last_sha gn" and "inj to_hex"
    and "run_with_executor exec (gn_poll gn) sha0 (gn_last_dispatched_at gn) errors x envs = (act, st)"
    and "list_all (only_resolves exec sha) envs"
  shows "sha0 = Some sha \<and> gn_last_dispatched_at gn = last_dispatched_at entry \<and> trigger_shas (pl_log st) = []"
proof -
  let ?w = "\<lparr>w_state = s0, w_dirty = False, w_fs = d, w_mirror = s0\<rparr>"
  have "now (w_fs (run to_hex ser path bs io ?w)) path = Some \<lparr>f_data = bytes, f_mode = STATE_FILE_MODE, f_synced = True\<rparr>"
    by (rule run_final_complete) (use assms(2-6,8) fin in simp_all)
  then have read: "be_read env path = FileText bytes"
    using assms(10) run_mirrored_same_disk [of to_hex ser path bs io ?w] by (simp add: spawn_with_mirror_def read_path_def)
  have "wf_state fin" unfolding fin by (rule state_inv.run_inv) (rule assms(1))
  then have "load_or_init (be_probe env) (be_as_u64 env) (be_parse env) (be_read env path) = Inr fin"
    using assms(11-13) read by (simp add: load_or_init_def u32_try_from_def wf_state_def SCHEMA_VERSION_def)
  moreover from run_spawned [OF assms(14,15)] obtain c r' where "boot_rest env params c = (tr, r')" by metis
  from boot_rest_spawned [OF this assms(15)] obtain sp s dir where "resolve_state_path (be_var env) = Inr sp"
    "load_or_init (be_probe env) (be_as_u64 env) (be_parse env) (be_read env sp) = Inr s"
    "sv = daemon_start (boot_spawn_env env s) dir (config.truncate c)" by metis
  ultimately have "seeded (boot_spawn_env env fin) sv" using assms(9) by (simp add: seeded_start)
  then have gn: "gn_last_sha gn = Some (to_hex sha)" "gn_last_dispatched_at gn = last_dispatched_at entry"
    using assms(16-19) by (simp_all add: seeded_def read_persisted_last_sha_def read_persisted_last_dispatched_at_def)
  then have "sha0 = Some sha" using assms(20,21) by (auto dest: injD)
  moreover from this same_sha_loop [OF assms(22) [unfolded run_with_executor_def], of sha] assms(23)
  have "trigger_shas (pl_log st) = []" by (simp add: initial_loop_def)
  ultimately show ?thesis using gn(2) by simp
qed

section \<open>Examples\<close>

definition example_boot :: "State_Apply.state \<Rightarrow> (unit, unit) boot_env" where
  "example_boot s = \<lparr>be_var = [''RUNTIME_DIRECTORY'' \<mapsto> ''/run/gcit'', ''STATE_DIRECTORY'' \<mapsto> ''/var/lib/gcit''],
     be_loaded = \<lambda>_. Inr example_loaded, be_canonical = Some, be_mkdir = \<lambda>_. None, be_open_fails = None, be_lock_fails = None,
     be_read = \<lambda>_. FileText ''new'', be_probe = \<lambda>_. Some (Some ()), be_as_u64 = \<lambda>_. Some 1, be_parse = \<lambda>_. Some s,
     be_client = \<lambda>_. None, be_setup = sp_setup example_octo_env, be_valid_hex = \<lambda>_. True, be_now = 0,
     be_socket = \<lparr>so_inherit = \<lambda>_. None, so_mkdir = \<lambda>_. None, so_exists = \<lambda>_. True, so_connect = \<lambda>_. False, so_bind = \<lambda>_. None\<rparr>,
     be_signals = None\<rparr>"

definition example_daemon_params :: daemon_params where
  "example_daemon_params = \<lparr>dp_config_path = ''/etc/gcit/config.toml'', dp_default_control_socket = ''/run/gcit/control.sock'',
     dp_listen_fds = [(3, ''control'')]\<rparr>"

definition example_started :: "State_Apply.state \<Rightarrow> (f64, unit) supervisor" where
  "example_started s = daemon_start (boot_spawn_env (example_boot s) s) (Some ''/etc/gcit'') (config.truncate example_loaded)"

lemma example_boot_paths:
  "lock_path (be_var (example_boot s)) = Inr ''/run/gcit/gcit.lock''"
  "resolve_state_path (be_var (example_boot s)) = Inr ''/var/lib/gcit/state.json''"
  by (simp_all add: example_boot_def lock_path_def resolve_state_path_def set_var_def is_absolute_def path_join_def model_defs)

lemma example_boot_fields:
  "be_loaded (example_boot s) p = Inr example_loaded" "be_mkdir (example_boot s) p = None" "be_open_fails (example_boot s) = None"
  "be_lock_fails (example_boot s) = None"
  by (simp_all add: example_boot_def)

lemma example_boot_open:
  "open_create ''/run/gcit/gcit.lock'' k = (i, k') \<Longrightarrow>
   boot_open (example_boot s) example_daemon_params k = (Inr (example_loaded, ''/run/gcit/gcit.lock'', i), k')"
  by (simp add: boot_open_def load_initial_config_def example_boot_paths example_boot_fields open_instance_lock_file_def
      create_parent_def path_parent_def)

lemma example_boot_rest:
  "boot_rest (example_boot s) example_daemon_params example_loaded =
     ([LoadedState ''/var/lib/gcit/state.json'' s, SpawnedFlows (example_started s), Listening (Inherited 3), NotifiedReady],
      Inr (''/var/lib/gcit/state.json'', example_started s))"
  by (simp add: boot_rest_def setup_state_writer_def state_path_def example_boot_paths example_started_def)
     (simp add: example_boot_def example_daemon_params_def create_parent_def path_parent_def load_or_init_def u32_try_from_def SCHEMA_VERSION_def
      build_shared_http_resources_def credential_config_dir_def unwrap_or_def bind_control_listener_def
      accept_control_socket_from_fds_def install_signal_handlers_def parent_or_root_def Let_def)

abbreviation example_running :: "(unit, unit) phase" where
  "example_running \<equiv> Running (example_boot default_state) example_daemon_params ''/run/gcit/gcit.lock'' 0 ''/var/lib/gcit/state.json''
     (example_started default_state)"

definition example_machine :: "(unit, unit) machine" where
  "example_machine = put_proc 1 example_running
     \<lparr>kn_files = [''/run/gcit/gcit.lock'' \<mapsto> 0], kn_next = 1, kn_locks = [0 \<mapsto> 1]\<rparr> machine_start"

lemma example_machine_reachable: "machine_reachable removal example_machine"
proof -
  let ?k = "\<lparr>kn_files = [''/run/gcit/gcit.lock'' \<mapsto> 0], kn_next = 1, kn_locks = Map.empty\<rparr> :: kernel"
  have "open_create ''/run/gcit/gcit.lock'' (mc_kernel (machine_start :: (unit, unit) machine)) = (0, ?k)"
    by (simp add: open_create_def machine_start_def)
  from start_reaches [OF _ example_boot_open [OF this] example_boot_fields(4) _ example_boot_rest, of 1 removal default_state]
  show ?thesis by (simp add: example_machine_def machine_start_def)
qed

lemma example_machine_procs: "mc_procs example_machine 1 = Some example_running" "mc_procs example_machine 2 = None"
  by (simp_all add: example_machine_def put_proc_def machine_start_def)

theorem instance_lock_exclusive_witness:
  "mc_procs example_machine 1 = Some example_running \<and>
   \<not> (\<exists>b env params p i sp sv. b \<noteq> 1 \<and> mc_procs example_machine b = Some (Running env params p i sp sv) \<and>
        lock_path (be_var env) = Inr ''/run/gcit/gcit.lock'')"
proof -
  have "b = 1" if "mc_procs example_machine b = Some (Running env params p i sp sv)" "lock_path (be_var env) = Inr ''/run/gcit/gcit.lock''"
    for b env params p i sp sv
    by (rule instance_lock_exclusive [OF example_machine_reachable that(1) example_machine_procs(1)]) (simp add: that(2) example_boot_paths)
  then show ?thesis using example_machine_procs(1) by blast
qed


abbreviation fresh_kernel :: kernel where
  "fresh_kernel \<equiv> \<lparr>kn_files = Map.empty, kn_next = 0, kn_locks = Map.empty\<rparr>"

lemma example_run:
  "\<exists>k'. run_with_factories (example_boot s) example_daemon_params 1 [] fresh_kernel =
     ([LoadedState ''/var/lib/gcit/state.json'' s, SpawnedFlows (example_started s), Listening (Inherited 3), NotifiedReady],
      Inr (daemon_shutdown (example_started s)), k')"
proof -
  have oc: "open_create ''/run/gcit/gcit.lock'' fresh_kernel = (0, \<lparr>kn_files = [''/run/gcit/gcit.lock'' \<mapsto> 0], kn_next = 1, kn_locks = Map.empty\<rparr>)"
    by (simp add: open_create_def)
  show ?thesis
    by (simp add: run_with_factories_def example_boot_open [OF oc] boot_lock_free example_boot_fields example_boot_rest)
qed

theorem flows_start_behind_lock_witness:
  "\<exists>tr r k'. run_with_factories (example_boot default_state) example_daemon_params 1 [] fresh_kernel = (tr, r, k') \<and>
     SpawnedFlows (example_started default_state) \<in> set tr \<and> kn_locks k' = Map.empty"
proof -
  obtain tr r k' where run: "run_with_factories (example_boot default_state) example_daemon_params 1 [] fresh_kernel = (tr, r, k')"
    "SpawnedFlows (example_started default_state) \<in> set tr" using example_run [of default_state] by auto
  from flows_start_behind_lock [OF this] have "kn_locks k' = Map.empty" by simp
  with run show ?thesis by blast
qed

lemma example_started_generation: "\<exists>gn \<in> set (sv_generations (example_started s)). gn_flow gn = ''a''"
proof -
  have lk: "lookup_secret example_process (Some ''/etc/gcit'') cid = Inr ''github_pat_x''" for cid
    by (simp add: lookup_secret_def credentials_dir_candidate_def env_candidate_def config_dir_candidate_def try_credential_file_def
        example_process_def probe_def owner_uid_accepted_def trim_line_ends_def)
  show ?thesis
    by (simp add: example_started_def daemon_start_def spawn_initial_flows_def example_loaded_def config.truncate_def example_raw_def flow_of_def Let_def
        spawn_flow_def build_notifiers_def build_notifier_def destination_of_def example_spanned_def text_of_def example_octo_env_def example_boot_def
        acquire_github_def credential_pool_new_def resolve_secret_def lk client_build_def action_of_def start_tasks_def
        case_prod_beta events_of_def local_mail_notifier_new_def validate_user_def)
qed

definition example_oid_hex :: "nat \<Rightarrow> string" where
  "example_oid_hex n = replicate n (CHR ''a'')"

definition example_batches :: "(nat state_update list \<times> io_env) list" where
  "example_batches = [([PollObservation ''a'' 2 0 (Some 0) (Some 10)], good_io)]"

definition example_fin :: State_Apply.state where
  "example_fin = foldl (apply_update example_oid_hex) default_state (updates_of example_batches)"

lemma example_fin_entry: "\<exists>entry. flows example_fin ''a'' = Some entry \<and> last_sha entry = Some (example_oid_hex 2)"
  by (simp add: example_fin_def example_batches_def apply_defs default_state_def default_flow_state_def)

lemma example_batches_ok: "batches example_batches" "example_batches \<noteq> []" "b \<in> set example_batches \<Longrightarrow> io_tmp (snd b) \<noteq> ''/var/lib/gcit/state.json''"
  "io_tmp good_io \<noteq> ''/var/lib/gcit/state.json''" "\<not> io_fails good_io op"
  by (auto simp: example_batches_def good_io_def BATCH_LIMIT_def)

theorem restart_does_not_redispatch_witness:
  "\<exists>gn \<in> set (sv_generations (example_started example_fin)). gn_flow gn = ''a'' \<and>
     trigger_shas (pl_log (snd (run_with_executor (poll_one example_hex LsRemote example_source) (gn_poll gn) (Some 2)
       (gn_last_dispatched_at gn) Map.empty None [example_env 60 (branch_at 2)]))) = []"
proof -
  let ?run = "\<lambda>gn. run_with_executor (poll_one example_hex LsRemote example_source) (gn_poll gn) (Some 2)
       (gn_last_dispatched_at gn) Map.empty None [example_env 60 (branch_at 2)]"
  obtain gn where gn: "gn \<in> set (sv_generations (example_started example_fin))" "gn_flow gn = ''a''"
    using example_started_generation by blast
  obtain entry where entry: "flows example_fin ''a'' = Some entry" "last_sha entry = Some (example_oid_hex 2)" using example_fin_entry by blast
  obtain tr r k' where run: "run_with_factories (example_boot example_fin) example_daemon_params 1 [] fresh_kernel = (tr, r, k')"
    "SpawnedFlows (example_started example_fin) \<in> set tr" using example_run [of example_fin] by auto
  have wf: "wf_state default_state" by (simp add: wf_state_def default_state_def)
  have now: "now (w_fs (run example_oid_hex (\<lambda>_. Some ''new'') ''/var/lib/gcit/state.json'' example_batches good_io
       \<lparr>w_state = default_state, w_dirty = False, w_fs = example_fs, w_mirror = default_state\<rparr>)) ''/var/lib/gcit/state.json'' =
     Some \<lparr>f_data = ''new'', f_mode = STATE_FILE_MODE, f_synced = True\<rparr>"
    by (rule run_final_complete) (use example_batches_ok in simp_all)
  have inj: "inj example_oid_hex" by (rule injI) (metis example_oid_hex_def length_replicate)
  have fin: "wf_state example_fin" unfolding example_fin_def by (rule state_inv.run_inv) (rule wf)
  have "Some (2 :: nat) = Some 2 \<and> gn_last_dispatched_at gn = last_dispatched_at entry \<and> trigger_shas (pl_log (snd (?run gn))) = []"
  proof (rule restart_does_not_redispatch [where ?s0.0 = default_state and bs = example_batches and path = "''/var/lib/gcit/state.json''"
        and io = good_io and fin = example_fin and to_hex = example_oid_hex and ser = "\<lambda>_. Some ''new''" and bytes = "''new''"
        and env = "example_boot example_fin" and d = example_fs and j = "()" and params = example_daemon_params and sv = "example_started example_fin"
        and gn = gn and entry = entry and exec = "poll_one example_hex LsRemote example_source" and errors = Map.empty and x = None
        and envs = "[example_env 60 (branch_at 2)]" and act = "fst (?run gn)"])
    show "be_read (example_boot example_fin) ''/var/lib/gcit/state.json'' =
      read_path (w_fs (spawn_with_mirror example_oid_hex (\<lambda>_. Some ''new'') ''/var/lib/gcit/state.json'' example_batches good_io default_state example_fs))
        ''/var/lib/gcit/state.json''"
      using now run_mirrored_same_disk [of example_oid_hex "\<lambda>_. Some ''new''" "''/var/lib/gcit/state.json''" example_batches good_io]
      by (simp add: spawn_with_mirror_def read_path_def example_boot_def)
    show "list_all (only_resolves (poll_one example_hex LsRemote example_source) 2) [example_env 60 (branch_at 2)]"
      by (simp add: only_resolves_def poll_one.simps example_defs ls_remote_inline_def ls_remote_outcome_def)
    show "run_with_factories (example_boot example_fin) example_daemon_params 1 [] fresh_kernel = (tr, r, k')" by (rule run)
    show "example_fin = foldl (apply_update example_oid_hex) default_state (updates_of example_batches)" by (rule example_fin_def)
    have "gn_last_sha gn = Some (example_oid_hex 2)"
      using seeded_start [of "boot_spawn_env (example_boot example_fin) example_fin" "Some ''/etc/gcit''" "config.truncate example_loaded"] gn entry
      by (simp add: seeded_def example_started_def read_persisted_last_sha_def example_boot_def)
    then show "map_option example_oid_hex (Some 2) = gn_last_sha gn" by simp
  qed (use wf fin inj gn entry run(2) example_batches_ok in \<open>simp_all add: example_boot_paths wf_state_def SCHEMA_VERSION_def, simp_all add: example_boot_def\<close>)
  with gn show ?thesis by blast
qed

end
