(* ===== verification/Command_Line.thy ===== *)
theory Command_Line
  imports Startup Control
begin

text \<open>
  The binary's entry point (\<open>src/src/bin/gcit.rs\<close>): which configuration file, control socket, scope and
  log filter a command line stands for, and which command is called with them; the log setup of
  \<open>src/src/log/mod.rs\<close>; and \<open>gcit status\<close> (\<open>src/src/cli/status.rs\<close>). \<open>clap\<close> is a parameter.
\<close>

section \<open>The command line\<close>

datatype status_format = FormatText | FormatJson
datatype template_kind = KindDiscord | KindLocalMail
datatype shell = Bash | Zsh | Fish | Elvish | PowerShell | OtherShell

datatype cmd =
    CmdRun bool
  | CmdCheck
  | CmdInstall bool bool bool bool bool
  | CmdUninstall bool bool bool
  | CmdReload
  | CmdStatus "string option" status_format
  | CmdTrigger string bool
  | CmdValidateTemplate path "template_kind option"
  | CmdCompletions shell

record cli =
  cli_config :: path
  cli_log_filter :: "string option"
  cli_control_socket :: "path option"
  cli_cmd :: "cmd option"

text \<open>What \<open>clap\<close> makes of the arguments; \<open>Parsed\<close> tells whether \<open>--config\<close> was given.\<close>

datatype clap_error = DisplayHelp | DisplayVersion | DisplayHelpOnMissingArgumentOrSubcommand | OtherClapError
datatype clap_result = ClapFailed clap_error | FromMatchesFailed | Parsed bool cli

record process =
  pr_var :: "string \<Rightarrow> string option"
  pr_euid :: nat
  pr_exists :: "path \<Rightarrow> bool"
  pr_log_peek :: "path \<Rightarrow> string option option option"
  pr_filter_error :: "string \<Rightarrow> string option"
  pr_journald_error :: "string option"
  pr_init_error :: "string option"

definition DEFAULT_CONFIG :: path where [model_defs]: "DEFAULT_CONFIG = ''/etc/gcit/config.toml''"

definition user_default_config :: "(string \<Rightarrow> string option) \<Rightarrow> path option" where
  "user_default_config var =
     (case set_var var ''XDG_CONFIG_HOME'' of
        Some p \<Rightarrow> Some (path_join (path_join p ''gcit'') ''config.toml'')
      | None \<Rightarrow>
         (case set_var var ''HOME'' of
            None \<Rightarrow> None
          | Some home \<Rightarrow> Some (path_join (path_join (path_join home ''.config'') ''gcit'') ''config.toml'')))"

fun user_install_scope :: "cmd option \<Rightarrow> bool" where
  "user_install_scope (Some (CmdInstall user _ _ _ _)) = user"
| "user_install_scope (Some (CmdUninstall user _ _)) = user"
| "user_install_scope _ = False"

definition resolve_effective_config_path :: "process \<Rightarrow> cli \<Rightarrow> bool \<Rightarrow> path" where
  "resolve_effective_config_path pr c config_explicit =
     (if \<not> config_explicit \<and> (user_install_scope (cli_cmd c) \<or> pr_euid pr \<noteq> 0)
      then unwrap_or (user_default_config (pr_var pr)) (cli_config c)
      else cli_config c)"

fun config_consuming :: "cmd option \<Rightarrow> bool" where
  "config_consuming (Some (CmdRun _)) = True"
| "config_consuming (Some CmdCheck) = True"
| "config_consuming (Some (CmdInstall _ _ _ _ _)) = True"
| "config_consuming _ = False"

definition emit_config_mismatch_hint_if_applicable :: "process \<Rightarrow> cli \<Rightarrow> bool \<Rightarrow> path \<Rightarrow> console list" where
  "emit_config_mismatch_hint_if_applicable pr c config_explicit config_path =
     (let swap_fired = \<not> config_explicit \<and> pr_euid pr \<noteq> 0 \<and> \<not> user_install_scope (cli_cmd c)
      in if config_consuming (cli_cmd c) \<and> swap_fired \<and> \<not> pr_exists pr config_path \<and> pr_exists pr DEFAULT_CONFIG
         then [Err (''gcit: no user-scope config at '' @ config_path @ '' (you are not running as root, so gcit defaulted '' @
                 ''to the user-scope path); a system-scope config exists at /etc/gcit/config.toml '' @ em_dash @ '' '' @
                 ''pass '' @ backquoted ''--config /etc/gcit/config.toml'' @ '' to validate it, or run as root.'')]
         else [])"

definition parse_cli_and_resolve_config :: "process \<Rightarrow> clap_result \<Rightarrow> console list \<times> (nat + cli \<times> path)" where
  "parse_cli_and_resolve_config pr parsed =
     (case parsed of
        ClapFailed kind \<Rightarrow>
          ([], Inl (if kind \<in> {DisplayHelp, DisplayVersion, DisplayHelpOnMissingArgumentOrSubcommand} then EXIT_OK else EXIT_USAGE))
      | FromMatchesFailed \<Rightarrow> ([], Inl EXIT_USAGE)
      | Parsed config_explicit c \<Rightarrow>
         (let config_path = resolve_effective_config_path pr c config_explicit
          in (emit_config_mismatch_hint_if_applicable pr c config_explicit config_path, Inr (c, config_path))))"

section \<open>Logging\<close>

definition DEFAULT_FILTER :: string where [model_defs]: "DEFAULT_FILTER = ''info,gcit=debug''"

text \<open>\<open>log::init\<close>: the error, if any. In daemon mode only the journal will do.\<close>

definition log_init :: "process \<Rightarrow> string option \<Rightarrow> bool \<Rightarrow> string option" where
  "log_init pr flt foreground =
     (case pr_filter_error pr (unwrap_or flt DEFAULT_FILTER) of
        Some e \<Rightarrow> Some e
      | None \<Rightarrow>
          if foreground then pr_init_error pr
          else (case pr_journald_error pr of
                  Some e \<Rightarrow> Some (''journald layer unavailable in daemon mode: '' @ e @ '' (try --foreground for stderr logs)'')
                | None \<Rightarrow> pr_init_error pr))"

text \<open>\<open>pr_log_peek\<close>: the file read and decoded, its \<open>log\<close> table, and the filter in it.\<close>

definition peek_filter_from_config :: "process \<Rightarrow> path \<Rightarrow> string option" where
  "peek_filter_from_config pr config_path =
     (case pr_log_peek pr config_path of Some (Some flt) \<Rightarrow> flt | _ \<Rightarrow> None)"

definition init_log_or_fail :: "process \<Rightarrow> string option \<Rightarrow> bool \<Rightarrow> console list \<times> nat option" where
  "init_log_or_fail pr log_filter foreground =
     (case log_init pr log_filter foreground of
        Some e \<Rightarrow> ([Err (''gcit: log init failed: '' @ e)], Some EXIT_CONFIG)
      | None \<Rightarrow> ([], None))"

definition resolve_log_filter :: "process \<Rightarrow> string option \<Rightarrow> path \<Rightarrow> string option" where
  "resolve_log_filter pr cli_flag config_path =
     (case cli_flag of Some flag \<Rightarrow> Some flag | None \<Rightarrow> peek_filter_from_config pr config_path)"

section \<open>Routing\<close>

text \<open>\<open>None\<close> is the branch the code calls unreachable: \<open>clap\<close> requires one of the two flags.\<close>

definition pick_scope :: "bool \<Rightarrow> bool \<Rightarrow> install_scope option" where
  "pick_scope user system = (if system then Some SystemScope else if user then Some UserScope else None)"

definition resolve_socket :: "(string \<Rightarrow> string option) \<Rightarrow> path option \<Rightarrow> path" where
  "resolve_socket var explicit =
     (case explicit of
        Some p \<Rightarrow> p
      | None \<Rightarrow>
         (case set_var var ''XDG_RUNTIME_DIR'' of
            Some rt \<Rightarrow> path_join (path_join rt ''gcit'') ''control.sock''
          | None \<Rightarrow> ''/run/gcit/control.sock''))"

text \<open>The command that runs, with its arguments, or the exit code when none does.\<close>

datatype routed =
    RunDaemon daemon_params
  | RunCheck path
  | RunInstall path "install_scope option" bool bool bool
  | RunUninstall "install_scope option" bool
  | RunReload path
  | RunStatus path "string option" status_format
  | RunTrigger path string bool
  | RunValidateTemplate path "template_kind option"
  | WriteCompletions shell

definition logged :: "process \<Rightarrow> string option \<Rightarrow> bool \<Rightarrow> routed \<Rightarrow> console list \<times> (nat + routed)" where
  "logged pr log_filter foreground target =
     (case init_log_or_fail pr log_filter foreground of
        (ls, Some code) \<Rightarrow> (ls, Inl code)
      | (ls, None) \<Rightarrow> (ls, Inr target))"

definition route_run :: "process \<Rightarrow> bool \<Rightarrow> path \<Rightarrow> path option \<Rightarrow> (int \<times> string) list \<Rightarrow> string option \<Rightarrow> console list \<times> (nat + routed)" where
  "route_run pr foreground config_path control_socket listen_fds log_filter =
     logged pr (resolve_log_filter pr log_filter config_path) foreground
       (RunDaemon \<lparr>dp_config_path = config_path, dp_default_control_socket = resolve_socket (pr_var pr) control_socket,
         dp_listen_fds = listen_fds\<rparr>)"

definition route_check :: "process \<Rightarrow> path \<Rightarrow> string option \<Rightarrow> console list \<times> (nat + routed)" where
  "route_check pr config_path log_filter =
     logged pr (resolve_log_filter pr log_filter config_path) True (RunCheck config_path)"

definition route_install :: "process \<Rightarrow> bool \<Rightarrow> bool \<Rightarrow> bool \<Rightarrow> bool \<Rightarrow> bool \<Rightarrow> path \<Rightarrow> string option \<Rightarrow> console list \<times> (nat + routed)" where
  "route_install pr user system dry_run non_interactive force config_path log_filter =
     logged pr (resolve_log_filter pr log_filter config_path) True
       (RunInstall config_path (pick_scope user system) (\<not> non_interactive) force dry_run)"

definition route_uninstall :: "process \<Rightarrow> bool \<Rightarrow> bool \<Rightarrow> bool \<Rightarrow> string option \<Rightarrow> console list \<times> (nat + routed)" where
  "route_uninstall pr user system force log_filter = logged pr log_filter True (RunUninstall (pick_scope user system) force)"

definition route_reload :: "process \<Rightarrow> path option \<Rightarrow> string option \<Rightarrow> console list \<times> (nat + routed)" where
  "route_reload pr control_socket log_filter = logged pr log_filter True (RunReload (resolve_socket (pr_var pr) control_socket))"

definition route_status :: "process \<Rightarrow> string option \<Rightarrow> status_format \<Rightarrow> path option \<Rightarrow> string option \<Rightarrow> console list \<times> (nat + routed)" where
  "route_status pr flow fmt control_socket log_filter =
     logged pr log_filter True (RunStatus (resolve_socket (pr_var pr) control_socket) flow fmt)"

definition route_trigger :: "process \<Rightarrow> string \<Rightarrow> bool \<Rightarrow> path option \<Rightarrow> string option \<Rightarrow> console list \<times> (nat + routed)" where
  "route_trigger pr flow dry_run control_socket log_filter =
     logged pr log_filter True (RunTrigger (resolve_socket (pr_var pr) control_socket) flow dry_run)"

definition route_validate_template :: "process \<Rightarrow> path \<Rightarrow> template_kind option \<Rightarrow> string option \<Rightarrow> console list \<times> (nat + routed)" where
  "route_validate_template pr template kind log_filter = logged pr log_filter True (RunValidateTemplate template kind)"

fun completions_install_hint :: "shell \<Rightarrow> string" where
  "completions_install_hint Bash =
     ''Redirect to '' @ [CHR 0x7E] @ ''/.local/share/bash-completion/completions/gcit (per-user) or /etc/bash_completion.d/gcit (system).''"
| "completions_install_hint Zsh =
     ''Redirect to a directory on $fpath named _gcit; for example '' @ [CHR 0x7E] @ ''/.zsh/completions/_gcit then add '' @
     backquoted (''fpath+=('' @ [CHR 0x7E] @ ''/.zsh/completions)'') @ '' before '' @ backquoted ''compinit'' @ '' in '' @ [CHR 0x7E] @ ''/.zshrc.''"
| "completions_install_hint Fish = ''Redirect to '' @ [CHR 0x7E] @ ''/.config/fish/completions/gcit.fish.''"
| "completions_install_hint Elvish =
     ''Redirect to '' @ [CHR 0x7E] @ ''/.config/elvish/lib/gcit.elv and add '' @ backquoted ''use gcit'' @ '' to '' @ [CHR 0x7E] @
     ''/.config/elvish/rc.elv.''"
| "completions_install_hint PowerShell =
     ''Redirect to a .ps1 file (e.g. '' @ [CHR 0x7E] @ ''/.config/powershell/gcit.ps1) and dot-source it from $PROFILE.''"
| "completions_install_hint OtherShell = ''Redirect to your shell'' @ [CHR 0x27] @ ''s completion-load path.''"

definition route_completions :: "(shell \<Rightarrow> string) \<Rightarrow> (shell \<Rightarrow> string) \<Rightarrow> shell \<Rightarrow> console list \<times> nat" where
  "route_completions generate shell_name shell =
     ([Out (generate shell),
       Err (''gcit: '' @ shell_name shell @ '' completion script written to stdout. '' @ completions_install_hint shell)], EXIT_OK)"

definition route_cmd :: "process \<Rightarrow> (int \<times> string) list \<Rightarrow> cli \<Rightarrow> path \<Rightarrow> console list \<times> (nat + routed)" where
  "route_cmd pr listen_fds c config_path =
     (let socket = cli_control_socket c; lf = cli_log_filter c
      in case cli_cmd c of
           None \<Rightarrow> ([Err (''gcit: no subcommand. See '' @ backquoted ''gcit --help'' @ ''.'')], Inl EXIT_USAGE)
         | Some (CmdRun foreground) \<Rightarrow> route_run pr foreground config_path socket listen_fds lf
         | Some CmdCheck \<Rightarrow> route_check pr config_path lf
         | Some (CmdInstall user system dry_run non_interactive force) \<Rightarrow>
             route_install pr user system dry_run non_interactive force config_path lf
         | Some (CmdUninstall user system force) \<Rightarrow> route_uninstall pr user system force lf
         | Some CmdReload \<Rightarrow> route_reload pr socket lf
         | Some (CmdStatus flow fmt) \<Rightarrow> route_status pr flow fmt socket lf
         | Some (CmdTrigger flow dry_run) \<Rightarrow> route_trigger pr flow dry_run socket lf
         | Some (CmdValidateTemplate template kind) \<Rightarrow> route_validate_template pr template kind lf
         | Some (CmdCompletions shell) \<Rightarrow> ([], Inr (WriteCompletions shell)))"

definition async_main :: "process \<Rightarrow> (int \<times> string) list \<Rightarrow> clap_result \<Rightarrow> console list \<times> (nat + routed)" where
  "async_main pr listen_fds parsed =
     (case parse_cli_and_resolve_config pr parsed of
        (ls, Inl code) \<Rightarrow> (ls, Inl code)
      | (ls, Inr (c, config_path)) \<Rightarrow> (let (ls', r) = route_cmd pr listen_fds c config_path in (ls @ ls', r)))"

text \<open>The exit code of \<open>gcit run\<close>, with the text of a failed start.\<close>

definition run_exit :: "(daemon_error \<Rightarrow> string) \<Rightarrow> daemon_error + 'a \<Rightarrow> console list \<times> nat" where
  "run_exit display r =
     (case r of Inr _ \<Rightarrow> ([], EXIT_OK) | Inl e \<Rightarrow> ([Err (''gcit run: '' @ display e)], EXIT_SOFTWARE))"

section \<open>\<open>gcit status\<close>\<close>

fun as_str :: "json \<Rightarrow> string option" where
  "as_str (JStr s) = Some s"
| "as_str _ = None"

fun as_u64 :: "json \<Rightarrow> nat option" where
  "as_u64 (JNum n) = Some n"
| "as_u64 _ = None"

fun json_get :: "string \<Rightarrow> json \<Rightarrow> json option" where
  "json_get k (JObject m) = m k"
| "json_get k _ = None"

definition text_field :: "string \<Rightarrow> string \<Rightarrow> json \<Rightarrow> string list" where
  "text_field label key value =
     (case Option.bind (json_get key value) as_str of Some s \<Rightarrow> [label @ s] | None \<Rightarrow> [])"

definition count_field :: "string \<Rightarrow> string \<Rightarrow> json \<Rightarrow> string list" where
  "count_field label key value =
     (case Option.bind (json_get key value) as_u64 of Some n \<Rightarrow> if n > 0 then [label @ show_nat n] else [] | None \<Rightarrow> [])"

definition error_lines :: "json \<Rightarrow> string list" where
  "error_lines value =
     (case json_get ''last_error'' value of
        Some (JObject err) \<Rightarrow>
          (let field = (\<lambda>k d. unwrap_or (Option.bind (err k) as_str) d)
           in (''  last_error['' @ field ''kind'' ''?'' @ ''] '' @ field ''at'' ''?'' @ '': '' @ field ''message'' []) #
              text_field ''    retry_at: '' ''retry_at'' (JObject err))
      | _ \<Rightarrow> [])"

definition flow_lines :: "string \<Rightarrow> json \<Rightarrow> string list" where
  "flow_lines flow value =
     (let state = unwrap_or (Option.bind (json_get ''state'' value) as_str) ''(unknown)''
      in ((if is_synthetic_daemon_key flow then ''[daemon] '' else []) @ flow @ '': '' @ state) #
         text_field ''  last_sha: '' ''last_sha'' value @ text_field ''  last_poll_at: '' ''last_poll_at'' value @
         count_field ''  active_runs: '' ''active_runs'' value @ count_field ''  notified_runs: '' ''notified_runs'' value @
         error_lines value)"

text \<open>An object's entries come in the order of their keys. \<open>print\<close> is the compact text of a JSON value.\<close>

definition render_text :: "(json \<Rightarrow> string) \<Rightarrow> json \<Rightarrow> string list" where
  "render_text print data =
     (case data of
        JObject m \<Rightarrow>
          if m = Map.empty then [''(no flows)'']
          else concat (map (\<lambda>k. flow_lines k (the (m k))) (sorted_list_of_set (dom m)))
      | _ \<Rightarrow> [print data])"

definition status_run ::
  "(json \<Rightarrow> string) \<Rightarrow> (json \<Rightarrow> string + string) \<Rightarrow> path \<Rightarrow> string + unit \<Rightarrow> (string + response) \<Rightarrow> status_format \<Rightarrow> console list \<times> nat"
where
  "status_run print pretty socket_path conn reply fmt =
     (case conn of
        Inl e \<Rightarrow> ([Err (''gcit status: cannot connect to '' @ socket_path @ '': '' @ e @ '' (is the daemon running?)'')], EXIT_TEMPFAIL)
      | Inr _ \<Rightarrow>
         (case reply of
            Inr (OkResponse _ data) \<Rightarrow>
             (case fmt of
                FormatJson \<Rightarrow>
                 (case pretty data of
                    Inr s \<Rightarrow> ([Out s], EXIT_OK)
                  | Inl e \<Rightarrow> ([Err (''gcit status: serialize: '' @ e)], EXIT_TEMPFAIL))
              | FormatText \<Rightarrow> (map Out (render_text print data), EXIT_OK))
          | Inr (ErrorResponse _ message) \<Rightarrow> ([Err (''gcit status: '' @ message)], EXIT_TEMPFAIL)
          | Inl e \<Rightarrow> ([Err (''gcit status: transport error: '' @ e)], EXIT_TEMPFAIL)))"

section \<open>Lemmas\<close>

lemma path_join_end: "p \<noteq> [] \<Longrightarrow> last p \<noteq> CHR ''/'' \<Longrightarrow> q \<noteq> [] \<Longrightarrow> hd q \<noteq> CHR ''/'' \<Longrightarrow> path_join p q = p @ ''/'' @ q"
  by (cases p rule: rev_cases; cases q) (auto simp: path_join_def)

lemma path_join_last: "q \<noteq> [] \<Longrightarrow> path_join p q \<noteq> [] \<and> last (path_join p q) = last q"
  by (auto simp: path_join_def)

lemma path_join_extends: "\<not> starts_with q ''/'' \<Longrightarrow> \<exists>u. path_join p q = p @ u"
  by (simp add: path_join_def)

text \<open>Joining relative names one after the other appends them with separators.\<close>

lemma path_join_two:
  assumes "q \<noteq> []" "hd q \<noteq> CHR ''/''" "last q \<noteq> CHR ''/''" "r \<noteq> []" "hd r \<noteq> CHR ''/''"
  shows "path_join (path_join p q) r = path_join p q @ ''/'' @ r"
  using assms path_join_last [of q p] by (simp add: path_join_end)

lemma config_under:
  "path_join (path_join p ''gcit'') ''config.toml'' = ''/etc/gcit/config.toml'' \<longleftrightarrow> p = ''/etc'' \<or> p = ''/etc/''"
proof -
  have two: "path_join (path_join p ''gcit'') ''config.toml'' = path_join p ''gcit'' @ ''/config.toml''" by (simp add: path_join_two)
  have "path_join p ''gcit'' @ ''/config.toml'' = ''/etc/gcit'' @ ''/config.toml'' \<longleftrightarrow> path_join p ''gcit'' = ''/etc/gcit''"
    by (rule append_same_eq)
  moreover have "path_join p ''gcit'' = ''/etc/gcit'' \<longleftrightarrow> p = ''/etc'' \<or> p = ''/etc/''"
  proof (cases p rule: rev_cases)
    case (snoc q c)
    have "q @ [c] @ ''gcit'' = ''/etc/gcit'' \<longleftrightarrow> q @ [c] = ''/etc/''" using append_same_eq [of "q @ [c]" "''gcit''" "''/etc/''"] by simp
    moreover have "q @ [c] @ ''/gcit'' = ''/etc/gcit'' \<longleftrightarrow> q @ [c] = ''/etc''" using append_same_eq [of "q @ [c]" "''/gcit''" "''/etc''"] by simp
    ultimately show ?thesis using snoc
      by (cases "c = CHR ''/''") (auto simp: path_join_def)
  qed (simp add: path_join_def)
  ultimately show ?thesis by (simp add: two)
qed

lemma dot_config_not_etc: "path_join home ''.config'' \<noteq> ''/etc'' \<and> path_join home ''.config'' \<noteq> ''/etc/''"
proof -
  have "length (path_join home ''.config'') \<ge> 7" by (simp add: path_join_def)
  then show ?thesis by auto
qed

lemma run_routed:
  assumes "async_main pr fds (Parsed explicit c) = (ls, Inr t)" and "cli_cmd c = Some (CmdRun fg)"
  shows "t = RunDaemon \<lparr>dp_config_path = resolve_effective_config_path pr c explicit,
    dp_default_control_socket = resolve_socket (pr_var pr) (cli_control_socket c), dp_listen_fds = fds\<rparr>"
  using assms
  by (auto simp: async_main_def parse_cli_and_resolve_config_def route_cmd_def route_run_def logged_def Let_def
      split: prod.splits option.splits)

section \<open>Properties\<close>

text \<open>
  C39. Which configuration the system service reads: the unit starts \<open>gcit run\<close> without \<open>--config\<close>,
  and that command reads the file \<open>gcit install --system\<close> wrote exactly if it runs as root, or has
  neither a configuration home nor a home directory, or a configuration home of \<open>/etc\<close>. A service
  user with a home directory reads another file.
\<close>

theorem service_config_path_exact:
  assumes "async_main pr fds (Parsed False c) = (ls, Inr t)" and "cli_cmd c = Some (CmdRun fg)" and "cli_config c = DEFAULT_CONFIG"
  shows "''ExecStart='' @ bin @ '' run'' \<in> set (service_lines cfgs SystemScope bin) \<and>
    (\<exists>ps. t = RunDaemon ps \<and>
      (dp_config_path ps = ip_config (install_paths_of var SystemScope home) \<longleftrightarrow>
         pr_euid pr = 0 \<or>
         (case set_var (pr_var pr) ''XDG_CONFIG_HOME'' of
            Some p \<Rightarrow> p = ''/etc'' \<or> p = ''/etc/''
          | None \<Rightarrow> set_var (pr_var pr) ''HOME'' = None)))"
proof -
  have "resolve_effective_config_path pr c False = ''/etc/gcit/config.toml'' \<longleftrightarrow> pr_euid pr = 0 \<or>
      (case set_var (pr_var pr) ''XDG_CONFIG_HOME'' of Some p \<Rightarrow> p = ''/etc'' \<or> p = ''/etc/'' | None \<Rightarrow> set_var (pr_var pr) ''HOME'' = None)"
    using assms(2,3) config_under dot_config_not_etc
    by (auto simp: resolve_effective_config_path_def user_default_config_def unwrap_or_def DEFAULT_CONFIG_def split: option.splits)
  then show ?thesis using run_routed [OF assms(1,2)] by (simp add: service_lines_def install_paths_of_def)
qed

definition example_service_process :: process where
  "example_service_process = \<lparr>pr_var = [''HOME'' \<mapsto> ''/var/lib/gcit''], pr_euid = 997, pr_exists = \<lambda>_. True, pr_log_peek = \<lambda>_. None,
     pr_filter_error = \<lambda>_. None, pr_journald_error = None, pr_init_error = None\<rparr>"

definition example_run_cli :: cli where
  "example_run_cli = \<lparr>cli_config = DEFAULT_CONFIG, cli_log_filter = None, cli_control_socket = None, cli_cmd = Some (CmdRun False)\<rparr>"

theorem service_config_path_exact_witness:
  "\<exists>ls ps. async_main example_service_process [(3, ''control'')] (Parsed False example_run_cli) = (ls, Inr (RunDaemon ps)) \<and>
     dp_config_path ps \<noteq> ip_config (install_paths_of (\<lambda>_. None) SystemScope ''/root'')"
proof -
  obtain ls t where run: "async_main example_service_process [(3, ''control'')] (Parsed False example_run_cli) = (ls, Inr t)"
    by (auto simp: async_main_def parse_cli_and_resolve_config_def route_cmd_def route_run_def logged_def Let_def init_log_or_fail_def
        log_init_def example_run_cli_def example_service_process_def)
  from service_config_path_exact [OF this, of False "[]" "[] :: unit flow_config list" "\<lambda>_. None" "''/root''"] run
  show ?thesis by (auto simp: example_run_cli_def example_service_process_def set_var_def)
qed


text \<open>What the operator should read about a flow, straight from the daemon's state.\<close>

definition shown_flow :: "(instant \<Rightarrow> string) \<Rightarrow> (string \<rightharpoonup> flow_state) \<Rightarrow> last_errors \<Rightarrow> string \<Rightarrow> string list" where
  "shown_flow to_rfc3339 fs errors n =
     [(if is_synthetic_daemon_key n then ''[daemon] '' else []) @ n @ '': '' @
       (if errors n \<noteq> None then ''errored'' else if fs n \<noteq> None then ''running'' else ''starting'')] @
     (case Option.bind (fs n) last_sha of Some sha \<Rightarrow> [''  last_sha: '' @ sha] | None \<Rightarrow> []) @
     (case Option.bind (fs n) last_poll_at of Some t \<Rightarrow> [''  last_poll_at: '' @ to_rfc3339 t] | None \<Rightarrow> []) @
     (case fs n of
        Some st \<Rightarrow>
          (if active_runs st \<noteq> [] then [''  active_runs: '' @ show_nat (length (active_runs st))] else []) @
          (if notified_runs st \<noteq> [] then [''  notified_runs: '' @ show_nat (length (notified_runs st))] else [])
      | None \<Rightarrow> []) @
     (case errors n of
        Some e \<Rightarrow>
          [''  last_error['' @ fle_kind e @ ''] '' @ to_rfc3339 (fle_at e) @ '': '' @ fle_message e] @
          (case fle_retry_at e of Some t \<Rightarrow> [''    retry_at: '' @ to_rfc3339 t] | None \<Rightarrow> [])
      | None \<Rightarrow> [])"

lemma flow_lines_render: "flow_lines n (render_one f n fs errors) = shown_flow f fs errors n"
  by (simp add: flow_lines_def render_one_def shown_flow_def text_field_def count_field_def error_lines_def opt_rfc3339_def unwrap_or_def
      Let_def split: option.split)

lemma status_entries: "foldl (\<lambda>m n. m(n \<mapsto> one n)) m names k = (if k \<in> set names then Some (one k) else m k)"
  by (induction names arbitrary: m) auto

text \<open>
  C28. What \<open>gcit status\<close> prints is the daemon's state: server and client agree on every field. The text
  lists the flows with a handle and everything that has a recorded error, once each and in order,
  each with its state, SHA, times, counts and error; nothing is shown for what is absent.
\<close>

theorem status_text_exact:
  assumes "control_status env None dc = Inr data"
  shows "render_text print data =
    (if sv_flow_names (dc_supervisor dc) = [] \<and> sv_errors (dc_supervisor dc) = Map.empty then [''(no flows)'']
     else concat (map (shown_flow (co_to_rfc3339 env) (flows (dc_mirror dc)) (sv_errors (dc_supervisor dc)))
       (sorted_list_of_set (set (sv_flow_names (dc_supervisor dc)) \<union> dom (sv_errors (dc_supervisor dc))))))"
proof -
  let ?names = "sv_flow_names (dc_supervisor dc)" and ?errors = "sv_errors (dc_supervisor dc)"
  define one where "one n = render_one (co_to_rfc3339 env) n (flows (dc_mirror dc)) ?errors" for n
  define m where "m k = (if k \<in> set ?names \<or> ?errors k \<noteq> None then Some (one k) else None)" for k
  have data: "data = JObject m"
    using assms by (auto simp: control_status_def Let_def status_entries m_def one_def split: if_splits intro!: ext)
  have dom: "dom m = set ?names \<union> dom ?errors" by (auto simp: m_def dom_def)
  then have empty: "m = Map.empty \<longleftrightarrow> ?names = [] \<and> ?errors = Map.empty" by (metis Un_empty dom_eq_empty_conv set_empty)
  have "set (sorted_list_of_set A) \<subseteq> A" for A :: "string set" by (cases "finite A") simp_all
  then have shown: "map (\<lambda>k. flow_lines k (the (m k))) (sorted_list_of_set (set ?names \<union> dom ?errors)) =
      map (shown_flow (co_to_rfc3339 env) (flows (dc_mirror dc)) ?errors) (sorted_list_of_set (set ?names \<union> dom ?errors))"
    by (intro map_cong) (auto simp: m_def one_def flow_lines_render dest!: subsetD)
  show ?thesis unfolding render_text_def data json.case empty dom shown by (rule refl)
qed

section \<open>Examples\<close>

definition example_shell :: process where
  "example_shell = \<lparr>pr_var = [''HOME'' \<mapsto> ''/home/u'', ''XDG_RUNTIME_DIR'' \<mapsto> ''/run/user/1000''], pr_euid = 1000,
     pr_exists = \<lambda>_. True, pr_log_peek = \<lambda>_. None, pr_filter_error = \<lambda>_. None, pr_journald_error = None, pr_init_error = None\<rparr>"

definition example_unit :: process where
  "example_unit = example_shell\<lparr>pr_var := (pr_var example_shell)(''RUNTIME_DIRECTORY'' \<mapsto> ''/run/user/1000/gcit'',
     ''STATE_DIRECTORY'' \<mapsto> ''/home/u/.local/state/gcit'')\<rparr>"


definition example_status :: "(unit, unit, nat) daemon_control" where
  "example_status = \<lparr>dc_supervisor = example_supervisor\<lparr>sv_flow_names := [''ci''],
       sv_errors := [''(reload)'' \<mapsto> \<lparr>fle_at = 7, fle_kind = ''config'', fle_message = ''bad'', fle_retry_at = None\<rparr>]\<rparr>,
     dc_mirror = default_state, dc_triggers = []\<rparr>"

theorem status_text_exact_witness:
  "\<exists>data. control_status example_control_env None example_status = Inr data \<and>
     render_text (\<lambda>_. []) data = [''[daemon] (reload): errored'', ''  last_error[config] '' @ co_to_rfc3339 example_control_env 7 @ '': bad'',
       ''ci: starting'']"
proof -
  obtain data where d: "control_status example_control_env None example_status = Inr data"
    by (simp add: control_status_def Let_def example_control_env_def)
  have "sorted_list_of_set {''(reload)'', ''ci''} = [''(reload)'', ''ci'']"
    using sorted_list_of_set_sort_remdups [of "[''(reload)'', ''ci'']"] by simp
  then show ?thesis using d status_text_exact [OF d, of "\<lambda>_. []"]
    by (auto simp: example_status_def shown_flow_def is_synthetic_daemon_key_def default_state_def)
qed

end
