(* ===== verification/Source_Poll.thy ===== *)
theory Source_Poll
  imports Validated_Daemon
begin

text \<open>
  The network side of a poll cycle: the stages of an ls-refs exchange with their error classes
  (\<open>src/src/git/ls_remote.rs\<close>), the download of a manifest (\<open>src/src/git/grokmirror.rs\<close>), the executor that
  \<open>poll::run\<close> builds from the URL (\<open>src/src/flow/poll/\<close>), and the jittered wait between two cycles
  (\<open>src/src/git/strategy.rs\<close>). What \<open>gix\<close> and \<open>reqwest\<close> return is the environment; the abstract network of
  \<^verbatim>\<open>Poll_Strategy\<close> is computed from it.
\<close>

section \<open>The ls-refs exchange\<close>

text \<open>The errors of the three stages as the code matches them, each with its text.\<close>

datatype connect_error =
    UrlError string | PathConversion string | UnsupportedScheme string | UnsupportedUrlTokens string | ConnectionError string
  | OtherConnectError string

datatype handshake_error =
    CredentialsError string | EmptyCredentials string | InvalidCredentials string | TransportProtocolPolicyViolation string
  | HandshakeTransport string | ParseRefs string

datatype ls_refs_error = LsRefsIo string | LsRefsTransport string | LsRefsParse string | ArgumentValidation string | OtherLsRefsError string

datatype ls_remote_error = LsTransient string | LsPermanent string

fun show_ls_remote_error :: "ls_remote_error \<Rightarrow> string" where
  "show_ls_remote_error (LsTransient message) = ''transient: '' @ message"
| "show_ls_remote_error (LsPermanent message) = ''permanent: '' @ message"

text \<open>\<open>dbg\<close> is the quoted form of a string.\<close>

fun classify_connect_error :: "(string \<Rightarrow> string) \<Rightarrow> string \<Rightarrow> connect_error \<Rightarrow> ls_remote_error" where
  "classify_connect_error dbg url (UrlError e) = LsPermanent (''connect to '' @ dbg url @ '': '' @ e)"
| "classify_connect_error dbg url (PathConversion e) = LsPermanent (''connect to '' @ dbg url @ '': '' @ e)"
| "classify_connect_error dbg url (UnsupportedScheme e) = LsPermanent (''connect to '' @ dbg url @ '': '' @ e)"
| "classify_connect_error dbg url (UnsupportedUrlTokens e) = LsPermanent (''connect to '' @ dbg url @ '': '' @ e)"
| "classify_connect_error dbg url (ConnectionError e) = LsTransient (''connect to '' @ dbg url @ '': '' @ e)"
| "classify_connect_error dbg url (OtherConnectError e) = LsTransient (''connect to '' @ dbg url @ '': '' @ e)"

fun classify_handshake_error :: "(string \<Rightarrow> string) \<Rightarrow> string \<Rightarrow> handshake_error \<Rightarrow> ls_remote_error" where
  "classify_handshake_error dbg url (InvalidCredentials e) = LsPermanent (''invalid credentials for '' @ dbg url @ '': '' @ e)"
| "classify_handshake_error dbg url (TransportProtocolPolicyViolation e) =
     LsPermanent (''server rejected protocol version for '' @ dbg url @ '': '' @ e)"
| "classify_handshake_error dbg url (CredentialsError e) = LsPermanent (''credential helper failure for '' @ dbg url @ '': '' @ e)"
| "classify_handshake_error dbg url (EmptyCredentials e) = LsPermanent (''credential helper failure for '' @ dbg url @ '': '' @ e)"
| "classify_handshake_error dbg url (HandshakeTransport e) =
     LsTransient (''transport failure during handshake to '' @ dbg url @ '': '' @ e)"
| "classify_handshake_error dbg url (ParseRefs e) = LsTransient (''ref parsing during handshake to '' @ dbg url @ '': '' @ e)"

fun classify_ls_refs_error :: "(string \<Rightarrow> string) \<Rightarrow> string \<Rightarrow> ls_refs_error \<Rightarrow> ls_remote_error" where
  "classify_ls_refs_error dbg url (LsRefsIo e) = LsTransient (''ls-refs IO/transport for '' @ dbg url @ '': '' @ e)"
| "classify_ls_refs_error dbg url (LsRefsTransport e) = LsTransient (''ls-refs IO/transport for '' @ dbg url @ '': '' @ e)"
| "classify_ls_refs_error dbg url (LsRefsParse e) = LsPermanent (''ls-refs parse/validation for '' @ dbg url @ '': '' @ e)"
| "classify_ls_refs_error dbg url (ArgumentValidation e) = LsPermanent (''ls-refs parse/validation for '' @ dbg url @ '': '' @ e)"
| "classify_ls_refs_error dbg url (OtherLsRefsError e) = LsTransient (''unknown ls-refs error for '' @ dbg url @ '': '' @ e)"

text \<open>
  What the remote answers at each stage. A version 1 server sends the refs with the handshake; from
  others they are asked for. \<open>gx_fate\<close> is how the blocking task ended for the one who waits for it.
\<close>

datatype task_fate = TaskTimedOut | TaskJoinError string | TaskCompleted

record 'oid git_exchange =
  gx_fate :: task_fate
  gx_connect :: "connect_error option"
  gx_handshake :: "handshake_error + 'oid remote_ref list option"
  gx_ls_refs :: "ls_refs_error + 'oid remote_ref list"

definition remote_refs :: "(string \<Rightarrow> string) \<Rightarrow> string \<Rightarrow> 'oid git_exchange \<Rightarrow> ls_remote_error + 'oid remote_ref list" where
  "remote_refs dbg url gx =
     (case gx_connect gx of
        Some e \<Rightarrow> Inl (classify_connect_error dbg url e)
      | None \<Rightarrow>
         (case gx_handshake gx of
            Inl e \<Rightarrow> Inl (classify_handshake_error dbg url e)
          | Inr (Some refs) \<Rightarrow> Inr refs
          | Inr None \<Rightarrow>
             (case gx_ls_refs gx of
                Inl e \<Rightarrow> Inl (classify_ls_refs_error dbg url e)
              | Inr refs \<Rightarrow> Inr refs)))"

definition poll_blocking :: "(string \<Rightarrow> string) \<Rightarrow> string \<Rightarrow> string \<Rightarrow> 'oid git_exchange \<Rightarrow> ls_remote_error + 'oid poll_outcome" where
  "poll_blocking dbg url ref_name gx =
     (case remote_refs dbg url gx of Inl e \<Rightarrow> Inl e | Inr refs \<Rightarrow> Inr (ls_remote_outcome refs ref_name))"

definition awaited :: "task_fate \<Rightarrow> ls_remote_error + 'a \<Rightarrow> ls_remote_error + 'a" where
  "awaited fate result =
     (case fate of
        TaskTimedOut \<Rightarrow> Inl (LsTransient ''ls-remote timed out after 60s'')
      | TaskJoinError e \<Rightarrow> Inl (LsTransient (''ls-remote task join error: '' @ e))
      | TaskCompleted \<Rightarrow> result)"

definition ls_remote_poll :: "(string \<Rightarrow> string) \<Rightarrow> string \<Rightarrow> string \<Rightarrow> 'oid git_exchange \<Rightarrow> ls_remote_error + 'oid poll_outcome" where
  "ls_remote_poll dbg url ref_name gx = awaited (gx_fate gx) (poll_blocking dbg url ref_name gx)"

section \<open>The manifest download\<close>

record http_answer =
  ha_status :: nat
  ha_reason :: "string option"
  ha_content_length :: "nat option"
  ha_chunks :: "(string + string) list"

definition fetch_manifest_inner ::
  "(string \<Rightarrow> string + string) \<Rightarrow> (string \<Rightarrow> string + manifest) \<Rightarrow> string \<Rightarrow> string + http_answer \<Rightarrow> grokmirror_error + manifest" where
  "fetch_manifest_inner gunzip from_json url sent =
     (case sent of
        Inl e \<Rightarrow> Inl (GrokTransient (''HTTP request to '' @ url @ '': '' @ e))
      | Inr a \<Rightarrow>
          if \<not> (200 \<le> ha_status a \<and> ha_status a < 300) then
            (let message = ''manifest fetch returned '' @ show_nat (ha_status a) @ '' '' @ unwrap_or (ha_reason a) []
             in if 500 \<le> ha_status a \<and> ha_status a < 600 then Inl (GrokTransient message) else Inl (GrokPermanent message))
          else case check_content_length_cap (ha_content_length a) of
            Inl e \<Rightarrow> Inl e
          | Inr _ \<Rightarrow>
             (case read_capped 0 [] (ha_chunks a) of
                Inl e \<Rightarrow> Inl e
              | Inr bytes \<Rightarrow> parse_manifest_bytes gunzip from_json bytes))"

definition fetch_manifest ::
  "(string \<Rightarrow> string + string) \<Rightarrow> (string \<Rightarrow> string + manifest) \<Rightarrow> string \<Rightarrow> bool \<Rightarrow> string + http_answer \<Rightarrow> grokmirror_error + manifest" where
  "fetch_manifest gunzip from_json base timed_out sent =
     (let url = build_manifest_url base
      in if timed_out then Inl (GrokTransient (''manifest fetch timed out after 60s: '' @ url))
         else fetch_manifest_inner gunzip from_json url sent)"

text \<open>\<open>scheme://host\<close>; the port of the URL is not part of it.\<close>

definition base_url :: "(string \<Rightarrow> string + parsed_url) \<Rightarrow> string \<Rightarrow> string option" where
  "base_url url_parse url =
     (case url_parse url of
        Inl _ \<Rightarrow> None
      | Inr u \<Rightarrow> (case url_host u of None \<Rightarrow> None | Some host \<Rightarrow> Some (url_scheme u @ ''://'' @ host)))"

section \<open>The executor\<close>

text \<open>One cycle's exchanges, each raced against the cancellation.\<close>

record 'oid exchange =
  xc_github :: "(reference \<Rightarrow> octo_error + ref_object) raced"
  xc_manifest :: "(bool \<times> (string + http_answer)) raced"
  xc_git :: "'oid git_exchange raced"

record parsers =
  ps_dbg :: "string \<Rightarrow> string"
  ps_gunzip :: "string \<Rightarrow> string + string"
  ps_from_json :: "string \<Rightarrow> string + manifest"

fun map_raced :: "('a \<Rightarrow> 'b) \<Rightarrow> 'a raced \<Rightarrow> 'b raced" where
  "map_raced f Overtaken = Overtaken"
| "map_raced f (Finished x) = Finished (f x)"

definition manifest_of_answer :: "parsers \<Rightarrow> source_params \<Rightarrow> bool \<times> (string + http_answer) \<Rightarrow> string + manifest" where
  "manifest_of_answer ps sp a =
     (case fetch_manifest (ps_gunzip ps) (ps_from_json ps) (unwrap_or (sp_base_url sp) []) (fst a) (snd a) of
        Inl e \<Rightarrow> Inl (show_grok_error e)
      | Inr m \<Rightarrow> Inr m)"

definition refs_of_exchange :: "parsers \<Rightarrow> source_params \<Rightarrow> 'oid git_exchange \<Rightarrow> string + 'oid remote_ref list" where
  "refs_of_exchange ps sp gx =
     (case awaited (gx_fate gx) (remote_refs (ps_dbg ps) (sp_url sp) gx) of
        Inl e \<Rightarrow> Inl (show_ls_remote_error e)
      | Inr refs \<Rightarrow> Inr refs)"

definition net_of :: "parsers \<Rightarrow> source_params \<Rightarrow> 'oid exchange \<Rightarrow> 'oid cycle_net" where
  "net_of ps sp xc = \<lparr>net_github = xc_github xc, net_manifest = map_raced (manifest_of_answer ps sp) (xc_manifest xc),
     net_ls_remote = map_raced (refs_of_exchange ps sp) (xc_git xc)\<rparr>"

record real_poll_executor =
  px_strategy :: poll_strategy
  px_fingerprint :: "string option"

definition for_url :: "(string \<Rightarrow> string option option) \<Rightarrow> string \<Rightarrow> real_poll_executor" where
  "for_url host_of url = \<lparr>px_strategy = auto_detect host_of url, px_fingerprint = None\<rparr>"

definition poll_cycle ::
  "'oid hex \<Rightarrow> parsers \<Rightarrow> source_params \<Rightarrow> 'oid exchange \<Rightarrow> real_poll_executor
     \<Rightarrow> (poll_cycle_error + 'oid poll_outcome) \<times> real_poll_executor" where
  "poll_cycle hex ps sp xc px =
     (let (r, fp) = poll_one hex (px_strategy px) sp (net_of ps sp xc) (px_fingerprint px)
      in (r, px\<lparr>px_fingerprint := fp\<rparr>))"

text \<open>\<open>poll::run\<close>.\<close>

definition poll_run ::
  "(string \<Rightarrow> string option option) \<Rightarrow> 'oid hex \<Rightarrow> parsers \<Rightarrow> source_params \<Rightarrow> 'j poll_params \<Rightarrow> 'oid option \<Rightarrow> instant option
     \<Rightarrow> last_errors \<Rightarrow> 'oid exchange cycle_env list \<Rightarrow> cycle_action \<times> (real_poll_executor, 'oid) loop_state" where
  "poll_run host_of hex ps sp params initial_last_sha initial_last_dispatched_at errors envs =
     run_with_executor (poll_cycle hex ps sp) params initial_last_sha initial_last_dispatched_at errors (for_url host_of (sp_url sp)) envs"

section \<open>The jittered wait\<close>

text \<open>
  Every operation on \<open>f64\<close> gives the exact result rounded; \<open>rnd\<close> is that rounding. \<open>u\<close> is the random draw.
  A jitter that is not a number makes the product one, and \<open>max(0.0)\<close> of that is zero.
\<close>

fun clamp_jitter :: "f64 \<Rightarrow> rat option" where
  "clamp_jitter (Finite q) = Some (max 0 (min (1 / 2) q))"
| "clamp_jitter Infinite = Some (1 / 2)"
| "clamp_jitter NegInfinite = Some 0"
| "clamp_jitter NaN = None"

definition as_secs_f64 :: "(rat \<Rightarrow> rat) \<Rightarrow> duration \<Rightarrow> rat" where
  "as_secs_f64 rnd d = rnd (of_nat (d div 1000000000) + rnd (of_nat (d mod 1000000000) / 1000000000))"

text \<open>\<open>Duration::from_secs_f64\<close>: to the nearest nanosecond, ties to even; too large a value panics.\<close>

definition from_secs_f64 :: "rat \<Rightarrow> duration option" where
  "from_secs_f64 s =
     (let x = s * 1000000000; f = \<lfloor>x\<rfloor>; r = x - of_int f
      in if s < 0 \<or> s \<ge> 2 ^ 64 then None
         else Some (nat (if r < 1 / 2 \<or> r = 1 / 2 \<and> even f then f else f + 1)))"

definition apply_jitter :: "(rat \<Rightarrow> rat) \<Rightarrow> duration \<Rightarrow> f64 \<Rightarrow> rat \<Rightarrow> duration option" where
  "apply_jitter rnd base jit u =
     (let scaled =
        (case clamp_jitter jit of
           None \<Rightarrow> 0
         | Some j \<Rightarrow>
            (let sample = rnd (rnd (u * 2) - 1); factor = rnd (1 + rnd (sample * j))
             in max 0 (rnd (as_secs_f64 rnd base * factor))))
      in case from_secs_f64 scaled of
           None \<Rightarrow> None
         | Some dur \<Rightarrow> Some (if dur < MIN_INTERVAL then MIN_INTERVAL else dur))"

text \<open>What IEEE 754 says of rounding: it is monotone and exact on integers of at most 53 bits and their halves.\<close>

definition ieee_rounding :: "(rat \<Rightarrow> rat) \<Rightarrow> bool" where
  "ieee_rounding rnd \<longleftrightarrow> mono rnd \<and> (\<forall>n::int. \<bar>n\<bar> \<le> 2 ^ 53 \<longrightarrow> rnd (of_int n / 2) = of_int n / 2)"

section \<open>Lemmas\<close>

text \<open>The wrapper of the code: the race, the timeout, the stages and the texts.\<close>

lemma ls_remote_inline_real:
  "ls_remote_inline ref_name (net_of ps sp xc) =
     (case xc_git xc of
        Overtaken \<Rightarrow> Inl CycleCancelled
      | Finished gx \<Rightarrow>
         (case ls_remote_poll (ps_dbg ps) (sp_url sp) ref_name gx of
            Inl e \<Rightarrow> Inl (CycleFailed (show_ls_remote_error e))
          | Inr out \<Rightarrow> Inr out))"
  by (auto simp: ls_remote_inline_def net_of_def refs_of_exchange_def ls_remote_poll_def poll_blocking_def awaited_def
      split: raced.split sum.split task_fate.split)

lemma outcome_triggers:
  assumes "handle_outcome params env out st = (act, st')"
  shows "sha \<in> set (trigger_shas (pl_log st')) \<Longrightarrow> sha \<in> set (trigger_shas (pl_log st)) \<or> out = Inr (Refreshed sha)"
    and "pl_exec st' = pl_exec st"
  by (cases "(params, env, out, st)" rule: handle_outcome.cases;
      use assms in \<open>auto simp: handler_defs split: if_splits trigger_send.splits\<close>)+

text \<open>A triggered SHA was resolved in some cycle, by the executor in a state that satisfies what each cycle keeps.\<close>

lemma iteration_triggers:
  assumes "poll_iteration exec params env st = (act, st')" and "P (pl_exec st)" and "\<And>net x. P x \<Longrightarrow> P (snd (exec net x))"
  shows "P (pl_exec st')"
    and "sha \<in> set (trigger_shas (pl_log st')) \<Longrightarrow>
      sha \<in> set (trigger_shas (pl_log st)) \<or> (\<exists>x. P x \<and> fst (exec (ce_net env) x) = Inr (Refreshed sha))"
proof -
  obtain out x where x: "exec (ce_net env) (pl_exec st) = (out, x)" by (metis surj_pair)
  with assms(1) have "(act, st') = (ReturnCycle, st) \<or> handle_outcome params env out (st\<lparr>pl_exec := x\<rparr>) = (act, st')"
    by (auto simp: poll_iteration_def split: if_splits)
  moreover have "P x" using assms(2,3) x by (metis snd_conv)
  ultimately show "P (pl_exec st')" using assms(2) outcome_triggers(2) by fastforce
  assume "sha \<in> set (trigger_shas (pl_log st'))"
  with \<open>_ \<or> _\<close> have "sha \<in> set (trigger_shas (pl_log st)) \<or> out = Inr (Refreshed sha)"
    using outcome_triggers(1) by fastforce
  with x assms(2) show "sha \<in> set (trigger_shas (pl_log st)) \<or> (\<exists>x. P x \<and> fst (exec (ce_net env) x) = Inr (Refreshed sha))"
    by (metis fst_conv)
qed

lemma loop_triggers:
  assumes "poll_loop exec params envs st = (act, st')" and "P (pl_exec st)" and "\<And>net x. P x \<Longrightarrow> P (snd (exec net x))"
    and "sha \<in> set (trigger_shas (pl_log st'))"
  shows "sha \<in> set (trigger_shas (pl_log st)) \<or> (\<exists>env \<in> set envs. \<exists>x. P x \<and> fst (exec (ce_net env) x) = Inr (Refreshed sha))"
  using assms(1,2,4)
proof (induction envs arbitrary: st)
  case (Cons env envs)
  obtain a st1 where it: "poll_iteration exec params env st = (a, st1)" by (metis surj_pair)
  note step = iteration_triggers [OF it Cons.prems(2) assms(3)]
  show ?case
  proof (cases a)
    case ReturnCycle
    with it Cons.prems step(2) show ?thesis by auto
  next
    case ContinueCycle
    with it Cons.prems(1) have "poll_loop exec params envs st1 = (act, st')" by simp
    from Cons.IH [OF this step(1) Cons.prems(3)] step(2) show ?thesis by auto
  qed
qed simp

lemma ls_remote_refreshed_iff:
  "ls_remote_outcome refs n = Refreshed sha \<longleftrightarrow>
     (\<exists>pre r post. refs = pre @ r # post \<and> n \<notin> remote_name ` set pre \<and> remote_name r = n \<and> remote_oid r = Some sha)"
proof (induction refs)
  case (Cons a refs)
  show ?case
  proof (cases "remote_name a = n")
    case True
    have "(\<exists>pre r post. a # refs = pre @ r # post \<and> n \<notin> remote_name ` set pre \<and> remote_name r = n \<and> remote_oid r = Some sha) \<longleftrightarrow>
        remote_oid a = Some sha"
    proof
      assume "remote_oid a = Some sha"
      with True have "a # refs = [] @ a # refs \<and> n \<notin> remote_name ` set [] \<and> remote_name a = n \<and> remote_oid a = Some sha" by simp
      then show "\<exists>pre r post. a # refs = pre @ r # post \<and> n \<notin> remote_name ` set pre \<and> remote_name r = n \<and> remote_oid r = Some sha" by blast
    qed (use True in \<open>auto simp: Cons_eq_append_conv\<close>)
    with True show ?thesis by (auto simp: ls_remote_outcome_Cons split: option.split)
  next
    case False
    with Cons first_match_Cons [OF False] show ?thesis by (simp add: ls_remote_outcome_Cons)
  qed
qed simp

text \<open>The remote completed an exchange in which the first ref of that name has the id.\<close>

definition advertises :: "'oid git_exchange \<Rightarrow> string \<Rightarrow> 'oid \<Rightarrow> bool" where
  "advertises gx n sha \<longleftrightarrow> gx_fate gx = TaskCompleted \<and> gx_connect gx = None \<and>
     (\<exists>refs pre r post. (gx_handshake gx = Inr (Some refs) \<or> gx_handshake gx = Inr None \<and> gx_ls_refs gx = Inr refs) \<and>
        refs = pre @ r # post \<and> n \<notin> remote_name ` set pre \<and> remote_name r = n \<and> remote_oid r = Some sha)"

lemma remote_refs_ok:
  "remote_refs dbg url gx = Inr refs \<longleftrightarrow>
     gx_connect gx = None \<and> (gx_handshake gx = Inr (Some refs) \<or> gx_handshake gx = Inr None \<and> gx_ls_refs gx = Inr refs)"
  by (auto simp: remote_refs_def split: option.splits sum.splits)

lemma ls_remote_poll_refreshed: "ls_remote_poll dbg url n gx = Inr (Refreshed sha) \<longleftrightarrow> advertises gx n sha"
proof -
  have "ls_remote_poll dbg url n gx = Inr (Refreshed sha) \<longleftrightarrow>
      gx_fate gx = TaskCompleted \<and> (\<exists>refs. remote_refs dbg url gx = Inr refs \<and> ls_remote_outcome refs n = Refreshed sha)"
    by (auto simp: ls_remote_poll_def awaited_def poll_blocking_def split: task_fate.split sum.splits)
  then show ?thesis unfolding remote_refs_ok ls_remote_refreshed_iff advertises_def by blast
qed

lemma inline_refreshed:
  "ls_remote_inline n (net_of ps sp xc) = Inr (Refreshed sha) \<longleftrightarrow> (\<exists>gx. xc_git xc = Finished gx \<and> advertises gx n sha)"
  unfolding ls_remote_inline_real
  by (auto simp: ls_remote_poll_refreshed [symmetric, of _ _ _ "ps_dbg ps" "sp_url sp"] split: raced.split sum.splits)

lemma poll_one_refreshed:
  assumes "strategy \<noteq> GithubApi" and "fst (poll_one hex strategy sp net fp) = Inr (Refreshed sha)"
  shows "ls_remote_inline (sp_ref_name sp) net = Inr (Refreshed sha)"
  using assms
  by (cases strategy) (auto simp: poll_one.simps Let_def split: if_splits option.splits sum.splits raced.splits grokmirror_error.splits)

text \<open>Bounds of the roundings: a value between half-integers stays between them.\<close>

lemma rnd_between:
  assumes "ieee_rounding rnd" and "of_int a / 2 \<le> x" and "x \<le> of_int b / 2" and "\<bar>a\<bar> \<le> 2 ^ 53" and "\<bar>b\<bar> \<le> 2 ^ 53"
  shows "of_int a / 2 \<le> rnd x \<and> rnd x \<le> of_int b / 2"
proof -
  have "mono rnd" and "rnd (of_int a / 2) = of_int a / 2" and "rnd (of_int b / 2) = of_int b / 2"
    using assms(1,4,5) by (auto simp: ieee_rounding_def)
  then show ?thesis using assms(2,3) by (metis monoD)
qed

lemma as_secs_bounds:
  assumes r: "ieee_rounding rnd" and "base \<le> from_secs 86400"
  shows "0 \<le> as_secs_f64 rnd base \<and> as_secs_f64 rnd base \<le> 86400"
proof -
  let ?s = "base div 1000000000" and ?n = "base mod 1000000000"
  have base: "base \<le> 86400 * 1000000000" using assms(2) by (simp add: from_secs_def)
  have split: "?s * 1000000000 + ?n = base" by (rule div_mult_mod_eq)
  have "?n < 1000000000" by simp
  then have "(of_nat ?n :: rat) < of_nat 1000000000" by (simp only: of_nat_less_iff)
  then have n: "0 \<le> rnd (of_nat ?n / 1000000000)" "rnd (of_nat ?n / 1000000000) \<le> 1"
    using rnd_between [OF r, of 0 "of_nat ?n / 1000000000" 2] by simp_all
  have sum: "of_nat ?s + rnd (of_nat ?n / 1000000000) \<le> 86400"
  proof (cases "?s = 86400")
    case True
    with base split have "?n = 0" by linarith
    with True rnd_between [OF r, of 0 0 0] show ?thesis by simp
  next
    case False
    with base split have "?s \<le> 86399" by linarith
    then have "(of_nat ?s :: rat) \<le> of_nat 86399" by (simp only: of_nat_le_iff)
    with n show ?thesis by simp
  qed
  have "0 \<le> (of_nat ?s :: rat)" by simp
  with sum n rnd_between [OF r, of 0 "of_nat ?s + rnd (of_nat ?n / 1000000000)" 172800] show ?thesis
    unfolding as_secs_f64_def by simp
qed

lemma factor_bounds:
  assumes r: "ieee_rounding rnd" and "0 \<le> u" and "u < 1" and j: "0 \<le> j" "j \<le> 1 / 2"
  shows "0 \<le> rnd (1 + rnd (rnd (rnd (u * 2) - 1) * j)) \<and> rnd (1 + rnd (rnd (rnd (u * 2) - 1) * j)) \<le> 3 / 2"
proof -
  have "0 \<le> rnd (u * 2) \<and> rnd (u * 2) \<le> 2" using rnd_between [OF r, of 0 "u * 2" 4] assms(2,3) by simp
  then have s: "- 1 \<le> rnd (rnd (u * 2) - 1)" "rnd (rnd (u * 2) - 1) \<le> 1"
    using rnd_between [OF r, of "- 2" "rnd (u * 2) - 1" 2] by simp_all
  then have "\<bar>rnd (rnd (u * 2) - 1)\<bar> * j \<le> 1 * (1 / 2)" using j by (intro mult_mono) auto
  then have "\<bar>rnd (rnd (u * 2) - 1) * j\<bar> \<le> 1 / 2" using j by (simp add: abs_mult)
  then have "- (1 / 2) \<le> rnd (rnd (rnd (u * 2) - 1) * j) \<and> rnd (rnd (rnd (u * 2) - 1) * j) \<le> 1 / 2"
    using rnd_between [OF r, of "- 1" "rnd (rnd (u * 2) - 1) * j" 1] by (simp add: abs_le_iff)
  then show ?thesis using rnd_between [OF r, of 0 "1 + rnd (rnd (rnd (u * 2) - 1) * j)" 3] by simp
qed

lemma from_secs_f64_bound:
  assumes "0 \<le> s" and "s \<le> of_nat m" and "m < 2 ^ 64"
  shows "\<exists>d. from_secs_f64 s = Some d \<and> d \<le> from_secs m"
proof -
  let ?x = "s * 1000000000" and ?N = "int m * 1000000000"
  have x: "?x \<le> of_int ?N" using assms(2) by simp
  have "of_nat m < (2 ^ 64 :: rat)" using assms(3) by (metis of_nat_less_iff of_nat_numeral of_nat_power)
  then have small: "\<not> (s < 0 \<or> s \<ge> 2 ^ 64)" using assms(1,2) by simp
  have f: "\<lfloor>?x\<rfloor> \<le> ?N" using x by (simp add: floor_le_iff)
  have "(if ?x - of_int \<lfloor>?x\<rfloor> < 1 / 2 \<or> ?x - of_int \<lfloor>?x\<rfloor> = 1 / 2 \<and> even \<lfloor>?x\<rfloor> then \<lfloor>?x\<rfloor> else \<lfloor>?x\<rfloor> + 1) \<le> ?N"
  proof (cases "\<lfloor>?x\<rfloor> = ?N")
    case True
    with x show ?thesis by simp
  qed (use f in auto)
  then show ?thesis using small unfolding from_secs_f64_def Let_def by (auto simp: from_secs_def nat_le_iff)
qed

section \<open>Properties\<close>

text \<open>
  C15. Only what the remote advertised is dispatched: for every trigger the poll task of a source outside
  GitHub sends, some cycle of that task completed an exchange with the remote, without an error and in
  time, whose first ref of exactly the configured name had that SHA.
\<close>

theorem triggered_sha_advertised:
  assumes "auto_detect host_of (sp_url sp) \<noteq> GithubApi"
    and "poll_run host_of hex ps sp params sha0 d0 errors envs = (act, st)" and "SentTrigger sha t \<in> set (pl_log st)"
  shows "\<exists>env \<in> set envs. \<exists>gx. xc_git (ce_net env) = Finished gx \<and> advertises gx (sp_ref_name sp) sha"
proof -
  let ?P = "\<lambda>px. px_strategy px = auto_detect host_of (sp_url sp)"
  have keep: "?P (snd (poll_cycle hex ps sp xc px))" if "?P px" for xc px
    using that by (simp add: poll_cycle_def case_prod_beta Let_def)
  have "sha \<in> set (trigger_shas (pl_log st))" using assms(3) by (auto simp: trigger_shas_mem)
  with loop_triggers [OF assms(2) [unfolded poll_run_def run_with_executor_def], of ?P] keep
  have "\<exists>env \<in> set envs. \<exists>px. ?P px \<and> fst (poll_cycle hex ps sp (ce_net env) px) = Inr (Refreshed sha)"
    by (simp add: initial_loop_def for_url_def)
  then obtain env px where env: "env \<in> set envs" "?P px" "fst (poll_cycle hex ps sp (ce_net env) px) = Inr (Refreshed sha)"
    by blast
  then have "ls_remote_inline (sp_ref_name sp) (net_of ps sp (ce_net env)) = Inr (Refreshed sha)"
    using poll_one_refreshed assms(1) by (simp add: poll_cycle_def case_prod_beta Let_def)
  with env(1) show ?thesis by (auto simp: inline_refreshed)
qed

text \<open>
  C16. The wait between two polls is bounded: for every generation of a daemon on loaded configurations,
  every random draw and every rounding that satisfies IEEE 754, the jittered wait exists (the
  conversion to a duration does not panic), is at least 15 seconds and at most 36 hours.
\<close>

theorem jittered_wait_bounded:
  assumes "daemon_run sv" and "gn \<in> set (sv_generations sv)" and r: "ieee_rounding rnd" and u: "0 \<le> u" "u < 1"
  shows "\<exists>d. apply_jitter rnd (source_interval (pp_effective (gn_poll gn))) (jitter (pp_effective (gn_poll gn))) u = Some d \<and>
    from_secs 15 \<le> d \<and> d \<le> from_secs 129600"
proof -
  let ?base = "source_interval (pp_effective (gn_poll gn))"
  have wf: "?base \<le> from_secs 86400" "jitter_ok (jitter (pp_effective (gn_poll gn)))"
    using daemon_run_bounded [OF assms(1)] assms(2)
    by (auto simp: bounded_def list_all_iff generation_bounded_def interval_wf_def MAX_INTERVAL_def)
  then obtain q where q: "jitter (pp_effective (gn_poll gn)) = Finite q" "0 \<le> q" "q \<le> 1 / 2" by (auto simp: jitter_ok_def)
  define factor where "factor = rnd (1 + rnd (rnd (rnd (u * 2) - 1) * q))"
  define scaled where "scaled = max 0 (rnd (as_secs_f64 rnd ?base * factor))"
  have f: "0 \<le> factor" "factor \<le> 3 / 2" using factor_bounds [OF r u q(2,3)] by (simp_all add: factor_def)
  moreover have b: "0 \<le> as_secs_f64 rnd ?base" "as_secs_f64 rnd ?base \<le> 86400" using as_secs_bounds [OF r wf(1)] by simp_all
  ultimately have "as_secs_f64 rnd ?base * factor \<le> 86400 * (3 / 2)" by (intro mult_mono) simp_all
  with f b have "0 \<le> scaled" "scaled \<le> of_nat 129600"
    using rnd_between [OF r, of 0 "as_secs_f64 rnd ?base * factor" 259200] by (simp_all add: scaled_def)
  from from_secs_f64_bound [OF this] obtain d where d: "from_secs_f64 scaled = Some d" "d \<le> from_secs 129600" by auto
  have "apply_jitter rnd ?base (jitter (pp_effective (gn_poll gn))) u = Some (if d < Poll_Strategy.MIN_INTERVAL then Poll_Strategy.MIN_INTERVAL else d)"
    using q d(1) by (simp add: apply_jitter_def Let_def scaled_def factor_def)
  then show ?thesis using d(2) by (auto simp: Poll_Strategy.MIN_INTERVAL_def from_secs_def)
qed

section \<open>Examples\<close>

theorem jittered_wait_bounded_witness:
  "\<exists>gn \<in> set (sv_generations example_daemon). \<exists>d.
     apply_jitter (\<lambda>x. x) (source_interval (pp_effective (gn_poll gn))) (jitter (pp_effective (gn_poll gn))) (1 / 3) = Some d \<and>
     from_secs 15 \<le> d \<and> d \<le> from_secs 129600"
proof -
  obtain gn where gn: "gn \<in> set (sv_generations example_daemon)" using example_daemon_generations by blast
  have "ieee_rounding (\<lambda>x. x)" by (simp add: ieee_rounding_def mono_def)
  from jittered_wait_bounded [OF example_daemon_run gn this, of "1 / 3"] gn show ?thesis by auto
qed

definition example_exchange :: "nat \<Rightarrow> nat exchange" where
  "example_exchange n = \<lparr>xc_github = Overtaken, xc_manifest = Overtaken,
     xc_git = Finished \<lparr>gx_fate = TaskCompleted, gx_connect = None, gx_handshake = Inr None,
       gx_ls_refs = Inr [DirectRef ''refs/heads/next'' 7, DirectRef ''refs/heads/main'' n]\<rparr>\<rparr>"

definition example_cycle :: "nat exchange cycle_env" where
  "example_cycle = \<lparr>ce_sleep_done = True, ce_rate_done = True, ce_net = example_exchange 2,
     ce_now = 0, ce_error_now = 0, ce_trigger = TriggerQueued, ce_state_open = True\<rparr>"

definition example_parsers :: parsers where
  "example_parsers = \<lparr>ps_dbg = \<lambda>s. s, ps_gunzip = Inr, ps_from_json = \<lambda>_. Inr Map.empty\<rparr>"

abbreviation example_poll_task :: "cycle_action \<times> (real_poll_executor, nat) loop_state" where
  "example_poll_task \<equiv> poll_run (\<lambda>_. None) example_hex example_parsers example_source example_params (Some 1) None Map.empty [example_cycle]"

lemma example_poll_task_trigger: "SentTrigger 2 0 \<in> set (pl_log (snd example_poll_task))"
  by (simp add: poll_run_def for_url_def auto_detect_def run_with_executor_def initial_loop_def poll_iteration_def example_cycle_def
      example_params_def sleep_or_cancel_def acquire_rate_or_cancel_def poll_cycle_def poll_one.simps ls_remote_inline_real
      example_exchange_def ls_remote_poll_def awaited_def poll_blocking_def remote_refs_def ls_remote_outcome_Cons example_source_def
      handler_defs is_cooled_down_def compare_sha_def)

theorem triggered_sha_advertised_witness:
  "SentTrigger 2 0 \<in> set (pl_log (snd example_poll_task)) \<and>
   (\<exists>gx. xc_git (ce_net example_cycle) = Finished gx \<and> advertises gx ''refs/heads/main'' 2)"
proof -
  obtain act st where run: "example_poll_task = (act, st)" by (metis surj_pair)
  have "\<exists>env \<in> set [example_cycle]. \<exists>gx. xc_git (ce_net env) = Finished gx \<and> advertises gx (sp_ref_name example_source) 2"
    by (rule triggered_sha_advertised [OF _ run]) (use example_poll_task_trigger run in \<open>simp_all add: auto_detect_def\<close>)
  then show ?thesis using example_poll_task_trigger by (simp add: example_source_def)
qed

end
