(* ===== verification/Dispatch_Retry.thy ===== *)
theory Dispatch_Retry
  imports Dispatch
begin

text \<open>
  \<open>dispatch_with_retry\<close> (\<open>src/src/github/dispatcher.rs\<close>), with the attempts the dispatcher allows
  (\<open>src/src/flow/dispatcher/mod.rs\<close>). The driver is \<open>backon\<close>: \<open>backon_retry\<close> states what its documentation says
  about a sequence of attempts, and is a hypothesis of what follows. Other flows use the same gates
  between the attempts, so each attempt finds its own.
\<close>

section \<open>Retried dispatch\<close>

definition DISPATCH_MAX_ATTEMPTS :: nat where [model_defs]: "DISPATCH_MAX_ATTEMPTS = 3"

text \<open>
  \<open>backon_retry when adjust schedule results waits r\<close>: the attempts ended with these results at these times,
  the driver waited in between, and returned \<open>r\<close>. An error that \<open>when\<close> refuses ends the sequence; \<open>adjust\<close> is
  asked with the next delay of the schedule, if there is one, and \<open>None\<close> from it gives up.
\<close>

definition next_delay :: "duration list \<Rightarrow> duration option" where
  "next_delay schedule = (case schedule of [] \<Rightarrow> None | d # _ \<Rightarrow> Some d)"

inductive backon_retry ::
  "('e \<Rightarrow> bool) \<Rightarrow> (instant \<Rightarrow> 'e \<Rightarrow> duration option \<Rightarrow> duration option) \<Rightarrow> duration list \<Rightarrow> (instant \<times> ('e + 'a)) list
     \<Rightarrow> duration list \<Rightarrow> 'e + 'a \<Rightarrow> bool"
for retryable :: "'e \<Rightarrow> bool" and adjust :: "instant \<Rightarrow> 'e \<Rightarrow> duration option \<Rightarrow> duration option"
where
  succeeded: "backon_retry retryable adjust schedule [(now, Inr x)] [] (Inr x)"
| refused: "\<not> retryable e \<Longrightarrow> backon_retry retryable adjust schedule [(now, Inl e)] [] (Inl e)"
| exhausted: "retryable e \<Longrightarrow> adjust now e (next_delay schedule) = None \<Longrightarrow>
    backon_retry retryable adjust schedule [(now, Inl e)] [] (Inl e)"
| again: "retryable e \<Longrightarrow> adjust now e (next_delay schedule) = Some d \<Longrightarrow> backon_retry retryable adjust (tl schedule) rs ds r \<Longrightarrow>
    backon_retry retryable adjust schedule ((now, Inl e) # rs) (d # ds) r"

text \<open>The attempts: environment and gates of each, and the time at which its error is looked at.\<close>

type_synonym 'uri attempt = "'uri dispatch_env \<times> gates \<times> instant"

definition attempt_request :: "'octo client \<Rightarrow> dispatch_params \<Rightarrow> 'uri attempt \<Rightarrow> 'uri request option" where
  "attempt_request client params a = (case a of (env, g, _) \<Rightarrow> fst (snd (dispatch env client params g)))"

definition attempt_result :: "'octo client \<Rightarrow> dispatch_params \<Rightarrow> 'uri attempt \<Rightarrow> instant \<times> (github_error + dispatch_outcome)" where
  "attempt_result client params a = (case a of (env, g, now) \<Rightarrow> (now, snd (snd (dispatch env client params g))))"

definition dispatch_with_retry ::
  "duration list \<Rightarrow> 'octo client \<Rightarrow> dispatch_params \<Rightarrow> 'uri attempt list \<Rightarrow> duration list \<Rightarrow> github_error + dispatch_outcome \<Rightarrow> bool" where
  "dispatch_with_retry schedule client params attempts waits r \<longleftrightarrow>
     backon_retry retry_when retry_adjust schedule (map (attempt_result client params) attempts) waits r"

section \<open>Lemmas\<close>

fun rate_limited :: "instant \<times> (github_error + 'a) \<Rightarrow> bool" where
  "rate_limited (_, Inl (RateLimited _ _)) = True"
| "rate_limited _ = False"

text \<open>Any run of the driver: the result is that of the last attempt, the ones before it failed with retryable errors.\<close>

lemma retry_shape:
  assumes "backon_retry retryable adjust schedule rs ds r"
  shows "rs \<noteq> [] \<and> snd (last rs) = r \<and> length rs = Suc (length ds) \<and> (\<forall>x \<in> set (butlast rs). \<exists>e. snd x = Inl e \<and> retryable e)"
  using assms by (induction rule: backon_retry.induct) auto

text \<open>Beyond the schedule only rate-limit errors are retried.\<close>

lemma retry_count:
  assumes "backon_retry retry_when retry_adjust schedule rs ds r"
  shows "length rs \<le> Suc (length schedule) + length (filter rate_limited rs)"
  using assms
proof (induction rule: backon_retry.induct)
  case (again e now schedule d rs ds r)
  show ?case
  proof (cases schedule)
    case Nil
    with again.hyps(2) have "\<exists>c reset. e = RateLimited c reset"
      using retry_adjust_schedule [of e now None] by (auto simp: next_delay_def)
    with again.IH Nil show ?thesis by auto
  qed (use again.IH in auto)
qed simp_all

text \<open>A wait after a rate-limit error reaches the reset.\<close>

lemma retry_waits:
  assumes "backon_retry retry_when retry_adjust schedule rs ds r" and "Suc i < length rs" and "snd (rs ! i) = Inl (RateLimited c reset)"
  shows "reset \<le> fst (rs ! i) + int (ds ! i)"
  using assms
proof (induction arbitrary: i rule: backon_retry.induct)
  case (again e now schedule d rs ds r)
  show ?case
  proof (cases i)
    case 0
    with again.prems(2) have "e = RateLimited c reset" by simp
    with again.hyps(2) retry_adjust_waits_for_reset [of now c reset "next_delay schedule"] 0 show ?thesis by simp
  next
    case (Suc j)
    with again show ?thesis by simp
  qed
qed simp_all

lemma dispatch_request:
  assumes "fst (snd (dispatch env client params g)) = Some rq"
  shows "rq_ref rq = dp_ref_name params \<and>
    rq_inputs rq = (map_of (rev (dp_rendered_inputs params)))(GCIT_RUN_ID_INPUT \<mapsto> dp_gcit_run_id params)"
  using assms by (auto simp: dispatch_def Let_def build_inputs_payload_eq split: sum.splits)

lemma dispatch_accepted:
  assumes "snd (snd (dispatch env client params g)) = Inr out"
  shows "do_gcit_run_id out = dp_gcit_run_id params \<and> (\<exists>status headers e. de_reply env = PostResponse status headers e \<and> is_success status)"
  using assms
  by (auto simp: dispatch_def Let_def send_dispatch_request_def classify_response_or_error_def split: sum.splits post_reply.splits if_splits)

section \<open>Properties\<close>

text \<open>
  C18. One trigger, a bounded number of requests: the retried dispatch makes at most four attempts and one
  more for each rate-limit error; before the last each failed with a transient error, and after a
  rate-limit error the next waits for the reset. Every request it posts is for the configured ref and
  carries the same inputs with the same run id. It reports success only if GitHub accepted the
  last one, and then for that run id.
\<close>

theorem dispatch_retry_bounded:
  assumes "dispatch_with_retry schedule client params attempts waits r" and "length schedule = DISPATCH_MAX_ATTEMPTS"
  shows "length attempts \<le> 4 + length (filter (rate_limited \<circ> attempt_result client params) attempts) \<and>
    (\<forall>a \<in> set (butlast attempts). \<exists>e. snd (attempt_result client params a) = Inl e \<and> is_transient e) \<and>
    (\<forall>i c reset. Suc i < length attempts \<and> snd (attempt_result client params (attempts ! i)) = Inl (RateLimited c reset) \<longrightarrow>
       reset \<le> fst (attempt_result client params (attempts ! i)) + int (waits ! i)) \<and>
    (\<forall>a \<in> set attempts. \<forall>rq. attempt_request client params a = Some rq \<longrightarrow> rq_ref rq = dp_ref_name params \<and>
       rq_inputs rq = (map_of (rev (dp_rendered_inputs params)))(GCIT_RUN_ID_INPUT \<mapsto> dp_gcit_run_id params)) \<and>
    (\<forall>out. r = Inr out \<longrightarrow> do_gcit_run_id out = dp_gcit_run_id params \<and>
       (\<exists>env g now status headers e. last attempts = (env, g, now) \<and> de_reply env = PostResponse status headers e \<and> is_success status))"
proof -
  let ?rs = "map (attempt_result client params) attempts"
  have run: "backon_retry retry_when retry_adjust schedule ?rs waits r" using assms(1) by (simp add: dispatch_with_retry_def)
  note shape = retry_shape [OF run]
  have ne: "attempts \<noteq> []" and last: "snd (attempt_result client params (last attempts)) = r"
    using shape by (auto simp: last_map)
  have "length attempts \<le> 4 + length (filter (rate_limited \<circ> attempt_result client params) attempts)"
    using retry_count [OF run] assms(2) by (simp add: filter_map DISPATCH_MAX_ATTEMPTS_def)
  moreover have "\<forall>a \<in> set (butlast attempts). \<exists>e. snd (attempt_result client params a) = Inl e \<and> is_transient e"
    using shape by (auto simp: map_butlast [symmetric] retry_when_def)
  moreover have "\<forall>i c reset. Suc i < length attempts \<and> snd (attempt_result client params (attempts ! i)) = Inl (RateLimited c reset) \<longrightarrow>
       reset \<le> fst (attempt_result client params (attempts ! i)) + int (waits ! i)"
    using retry_waits [OF run] by simp
  moreover have "\<forall>a \<in> set attempts. \<forall>rq. attempt_request client params a = Some rq \<longrightarrow> rq_ref rq = dp_ref_name params \<and>
       rq_inputs rq = (map_of (rev (dp_rendered_inputs params)))(GCIT_RUN_ID_INPUT \<mapsto> dp_gcit_run_id params)"
    using dispatch_request by (fastforce simp: attempt_request_def)
  moreover have "\<forall>out. r = Inr out \<longrightarrow> do_gcit_run_id out = dp_gcit_run_id params \<and>
       (\<exists>env g now status headers e. last attempts = (env, g, now) \<and> de_reply env = PostResponse status headers e \<and> is_success status)"
    using last dispatch_accepted by (cases "last attempts") (fastforce simp: attempt_result_def)
  ultimately show ?thesis by (intro conjI)
qed

definition example_attempts :: "string attempt list" where
  "example_attempts = [(example_attempt PostTimedOut, example_gates, 4), (example_attempt (PostResponse 204 Map.empty (OctoOther [])), example_gates, 60)]"

lemma example_attempt_results:
  "\<exists>out e. map (attempt_result example_client example_dispatch) example_attempts = [(4, Inl e), (60, Inr out)] \<and> is_transient e \<and>
     (\<nexists>c r. e = RateLimited c r)"
  by (simp add: example_attempts_def attempt_result_def example_dispatch_defs dispatch_def split_repo_def wait_for_rate_limit_or_cancel_def
      should_defer_def build_dispatch_uri_def send_dispatch_request_def classify_response_or_error_def is_success_def
      POLL_INTERVAL_def from_secs_def Let_def timeout_error_def)

theorem dispatch_retry_bounded_witness:
  "\<exists>out. dispatch_with_retry [5, 10, 20] example_client example_dispatch example_attempts [5] (Inr out) \<and> do_gcit_run_id out = ''u-1''"
proof -
  obtain out e where rs: "map (attempt_result example_client example_dispatch) example_attempts = [(4, Inl e), (60, Inr out)]"
    and e: "is_transient e" "\<nexists>c r. e = RateLimited c r" using example_attempt_results by metis
  have run: "dispatch_with_retry [5, 10, 20] example_client example_dispatch example_attempts [5] (Inr out)"
    unfolding dispatch_with_retry_def rs using e
    by (intro backon_retry.intros) (simp_all add: retry_when_def next_delay_def retry_adjust_schedule)
  from dispatch_retry_bounded [OF this] have "do_gcit_run_id out = dp_gcit_run_id example_dispatch" by (simp add: DISPATCH_MAX_ATTEMPTS_def)
  with run show ?thesis by (auto simp: example_dispatch_def)
qed

end
