(* ===== verification/Dispatch_Pipeline.thy ===== *)
theory Dispatch_Pipeline
  imports Flow_Dispatcher Dispatch_Retry
begin

text \<open>
  The dispatcher task with its production executor (\<open>RealDispatchExecutor\<close> in
  \<open>src/src/flow/dispatcher/executor.rs\<close>, \<open>run\<close> in \<open>src/src/flow/dispatcher/mod.rs\<close>): retried dispatch, correlation and
  the handling of triggers composed. Each trigger has its own execution: the attempts of its dispatch
  and the cycles of its correlation.
\<close>

section \<open>The production executor\<close>

record ('octo, 'uri) execution =
  xe_attempts :: "'uri attempt list"
  xe_waits :: "duration list"
  xe_result :: "github_error + dispatch_outcome"
  xe_scan :: "('octo, 'uri) scan_world"
  xe_cancel_at :: "instant option"
  xe_started :: instant
  xe_quota :: snapshot
  xe_cycles :: "'uri correlate_env list"

definition correlate_params_of :: "dispatch_outcome \<Rightarrow> string \<Rightarrow> string \<Rightarrow> correlate_params" where
  "correlate_params_of outcome branch head_sha =
     \<lparr>cp_repo = do_repo outcome, cp_workflow = do_workflow outcome, cp_gcit_run_id = do_gcit_run_id outcome,
      cp_branch = branch, cp_head_sha = head_sha, cp_dispatched_at = do_dispatched_at outcome, cp_run_name_configured = None\<rparr>"

text \<open>\<open>None\<close> if the cycles do not reach the end of the correlation.\<close>

definition real_execute :: "('octo, 'uri) execution \<Rightarrow> dispatch_params \<Rightarrow> string \<Rightarrow> string \<Rightarrow> execute_outcome option" where
  "real_execute x params branch head_sha =
     (case xe_result x of
        Inl e \<Rightarrow> Some (DispatchFailed e)
      | Inr outcome \<Rightarrow>
         (case snd (correlate (xe_scan x) (correlate_params_of outcome branch head_sha) (xe_cancel_at x) (xe_started x) (xe_quota x)
                  (xe_cycles x)) of
            None \<Rightarrow> None
          | Some c \<Rightarrow> Some (execute (\<lambda>_. xe_result x) (\<lambda>_. c) params branch head_sha)))"

text \<open>The executors the dispatcher of one flow meets are the production one, with executions \<open>xs\<close>.\<close>

definition production_world ::
  "duration list \<Rightarrow> 'octo client \<Rightarrow> (nat \<Rightarrow> dispatch_params \<Rightarrow> ('octo, 'uri) execution) \<Rightarrow> 'oid dispatcher_world \<Rightarrow> bool" where
  "production_world schedule client xs world \<longleftrightarrow> length schedule = DISPATCH_MAX_ATTEMPTS \<and>
     (\<forall>k p branch head_sha.
        dispatch_with_retry schedule client p (xe_attempts (xs k p)) (xe_waits (xs k p)) (xe_result (xs k p)) \<and>
        real_execute (xs k p) p branch head_sha = Some (fst (world k) p branch head_sha))"

text \<open>GitHub answered the request of this attempt with a success.\<close>

definition accepted_attempt :: "'uri attempt \<Rightarrow> bool" where
  "accepted_attempt a = (case de_reply (fst a) of PostResponse status _ _ \<Rightarrow> is_success status | _ \<Rightarrow> False)"

section \<open>Lemmas\<close>

lemma dispatch_success:
  assumes "snd (snd (dispatch env client p g)) = Inr out"
  shows "(\<exists>rq. fst (snd (dispatch env client p g)) = Some rq) \<and> do_gcit_run_id out = dp_gcit_run_id p \<and>
    do_dispatched_at out = de_dispatched_at env \<and> accepted_attempt (env, g, now)"
  using assms
  by (auto simp: dispatch_def Let_def send_dispatch_request_def classify_response_or_error_def accepted_attempt_def
      split: sum.splits post_reply.splits if_splits)

lemma retry_success:
  assumes "dispatch_with_retry schedule client p attempts waits (Inr out)"
  shows "\<exists>a \<in> set attempts. \<exists>rq. attempt_request client p a = Some rq \<and> accepted_attempt a \<and> do_gcit_run_id out = dp_gcit_run_id p \<and>
    do_dispatched_at out = de_dispatched_at (fst a)"
proof -
  have "attempts \<noteq> []" and last: "snd (attempt_result client p (last attempts)) = Inr out"
    using retry_shape [OF assms [unfolded dispatch_with_retry_def]] by (auto simp: last_map)
  moreover obtain env g now where a: "last attempts = (env, g, now)" by (metis prod_cases3)
  ultimately have "snd (snd (dispatch env client p g)) = Inr out" by (simp add: attempt_result_def)
  from dispatch_success [OF this, of now] have "\<exists>rq. attempt_request client p (last attempts) = Some rq" "accepted_attempt (last attempts)"
    "do_gcit_run_id out = dp_gcit_run_id p" "do_dispatched_at out = de_dispatched_at (fst (last attempts))"
    by (simp_all add: a attempt_request_def)
  with \<open>attempts \<noteq> []\<close> show ?thesis by (meson last_in_set)
qed

lemma real_execute_success:
  assumes "real_execute x p branch head_sha = Some (ExecuteSuccess d c)"
  shows "xe_result x = Inr d \<and> (\<exists>run. c = outcome_of_run run \<and> right_run (correlate_params_of d branch head_sha) run)"
proof -
  from assms have d: "xe_result x = Inr d"
    and c: "snd (correlate (xe_scan x) (correlate_params_of d branch head_sha) (xe_cancel_at x) (xe_started x) (xe_quota x) (xe_cycles x)) =
      Some (Inr c)"
    by (auto simp: real_execute_def execute_def split: sum.splits option.splits)
  with correlate_loop_right show ?thesis unfolding correlate_def by (metis prod.collapse)
qed

text \<open>The only run a handled trigger records is the one the executor reported for it.\<close>

lemma handled_started:
  assumes "DispatchSend (RunStarted flow run t) \<in> set (fst (handle_trigger params executor env trigger))"
  shows "\<exists>p branch head_sha d c. executor p branch head_sha = ExecuteSuccess d c \<and> run = co_run_id c \<and> flow = fd_flow_name params \<and>
    dp_gcit_run_id p = te_uuid env \<and> dp_ref_name p = af_ref_name (extract_action_fields (fd_action params))"
  using assms
  by (fastforce simp: handle_trigger_def execute_dispatch_and_correlate_def emit_run_started_def spawn_run_monitor_def Let_def
      split: sum.splits execute_outcome.splits if_splits)

lemma logged_by_trigger:
  assumes "e \<in> set (dl_log (dispatcher_run params world errors events))"
  shows "\<exists>k trigger. e \<in> set (fst (handle_trigger params (fst (world k)) (snd (world k)) trigger))"
proof -
  have "dispatcher_inv params world (dispatcher_run params world errors events)"
    unfolding dispatcher_run_def by (rule dispatcher.run_inv) (simp add: dispatcher_inv_def dispatcher_init_def effects_of_def)
  with assms show ?thesis by (fastforce simp: dispatcher_inv_def effects_of_def)
qed

section \<open>Properties\<close>


section \<open>Examples\<close>

text \<open>A dispatch that GitHub accepts, whose run is found by name; every other one is cancelled while it waits for quota.\<close>

definition example_executed :: dispatch_params where
  "example_executed = \<lparr>dp_repo = ''o/r'', dp_workflow = ''ci.yml'', dp_ref_name = ''refs/heads/main'', dp_gcit_run_id = ''u1'',
     dp_rendered_inputs = []\<rparr>"

definition example_outcome :: dispatch_outcome where
  "example_outcome = \<lparr>do_gcit_run_id = ''u1'', do_dispatched_at = 2, do_repo = ''o/r'', do_workflow = ''ci.yml'', do_ref_name = ''refs/heads/main''\<rparr>"

definition accepting_attempt :: "string attempt" where
  "accepting_attempt = (example_attempt (PostResponse 204 Map.empty (OctoOther [])), example_gates, 3)"

definition waiting_attempt :: "string attempt" where
  "waiting_attempt = (example_attempt PostTimedOut\<lparr>de_wait_cancelled := True\<rparr>, example_gates\<lparr>g_quota := rate_limit_new\<rparr>, 3)"

definition example_execution :: "nat \<Rightarrow> dispatch_params \<Rightarrow> (unit, string) execution" where
  "example_execution k p =
     (let a = (if p = example_executed then accepting_attempt else waiting_attempt); r = snd (attempt_result example_client p a);
          again = (case r of Inl e \<Rightarrow> is_transient e | Inr _ \<Rightarrow> False)
      in \<lparr>xe_attempts = (if again then [a, a, a, a] else [a]), xe_waits = (if again then [5, 10, 20] else []), xe_result = r,
          xe_scan = example_world, xe_cancel_at = None, xe_started = 0, xe_quota = rate_limit_new,
          xe_cycles = [example_correlate_env [example_api_run 8 ''gcit-u1'' 2] []]\<rparr>)"

lemma example_dispatch_accepted: "attempt_result example_client example_executed accepting_attempt = (3, Inr example_outcome)"
  by (simp add: accepting_attempt_def attempt_result_def example_executed_def example_outcome_def example_dispatch_defs dispatch_def
      split_repo_def wait_for_rate_limit_or_cancel_def should_defer_def build_dispatch_uri_def send_dispatch_request_def
      classify_response_or_error_def is_success_def POLL_INTERVAL_def from_secs_def Let_def)

lemma example_waiting: "\<exists>e. attempt_result example_client p waiting_attempt = (3, Inl e) \<and> retry_after 3 e = None"
  by (auto simp: waiting_attempt_def attempt_result_def example_dispatch_defs dispatch_def split_repo_def
      wait_for_rate_limit_or_cancel_def should_defer_def rate_limit_new_def retry_after_def Let_def)

lemma retried_to_the_end:
  assumes "retry_after now e = None" and "is_transient e"
  shows "backon_retry retry_when retry_adjust [5, 10, 20] [(now, Inl e), (now, Inl e), (now, Inl e), (now, Inl e)] [5, 10, 20] (Inl e)"
  using assms by (intro backon_retry.again backon_retry.exhausted) (simp_all add: retry_when_def retry_adjust_def next_delay_def)

lemma example_correlated:
  "snd (correlate example_world (correlate_params_of example_outcome branch head_sha) None 0 rate_limit_new
     [example_correlate_env [example_api_run 8 ''gcit-u1'' 2] []]) = Some (Inr (outcome_of_run (example_api_run 8 ''gcit-u1'' 2)))"
  by (simp add: correlate_def correlate_params_of_def example_outcome_def example_correlate_defs scan_defs page_walk.simps push_match_def
      compute_effective_deadline_def is_cancelled_def NORMAL_TIMEOUT_def)

definition example_pipeline :: "nat dispatcher_world" where
  "example_pipeline k =
     (\<lambda>p branch head_sha. if p = example_executed then ExecuteSuccess example_outcome (outcome_of_run (example_api_run 8 ''gcit-u1'' 2))
        else (case snd (attempt_result example_client p waiting_attempt) of Inl e \<Rightarrow> DispatchFailed e | Inr _ \<Rightarrow> DispatchFailed Cancelled),
      snd (example_dispatcher_world k))"

lemma example_production: "production_world [5, 10, 20] example_client example_execution example_pipeline"
proof -
  have "dispatch_with_retry [5, 10, 20] example_client p (xe_attempts (example_execution k p)) (xe_waits (example_execution k p)) (xe_result (example_execution k p)) \<and>
    real_execute (example_execution k p) p branch head_sha = Some (fst (example_pipeline k) p branch head_sha)" for k p branch head_sha
  proof (cases "p = example_executed")
    case True
    then show ?thesis
      by (simp add: example_execution_def example_pipeline_def dispatch_with_retry_def example_dispatch_accepted real_execute_def example_correlated
          execute_def backon_retry.succeeded Let_def)
  next
    case False
    obtain e where "attempt_result example_client p waiting_attempt = (3, Inl e)" "retry_after 3 e = None" using example_waiting by blast
    with False show ?thesis
      by (simp add: example_execution_def example_pipeline_def dispatch_with_retry_def real_execute_def retry_when_def backon_retry.refused
          retried_to_the_end Let_def)
  qed
  then show ?thesis by (simp add: production_world_def DISPATCH_MAX_ATTEMPTS_def)
qed


end
