(* ===== verification/Control_Server.thy ===== *)
theory Control_Server
  imports Control
begin

text \<open>
  The control server as it runs (\<open>serve\<close> and \<open>handle_connection\<close> in \<open>src/src/control/server.rs\<close>): one task per
  connection, a shared reload gate, the bounded command channel to the main loop of
  \<open>src/src/flow/supervisor/run.rs\<close>, and the shutdown that waits for all of them. Theory \<open>Control\<close> has a
  request as one step; here the tasks interleave at their \<open>await\<close> points.
\<close>

section \<open>A connection, piece by piece\<close>

text \<open>
  Where a connection task waits: for a frame, for room in the command channel, for the reply of the
  main loop, or for the socket to take a reply, after which it closes if the flag is set.
\<close>

datatype conn_task =
    ReadingFrame
  | SendingCommand uuid control_command
  | AwaitingReply uuid
  | WritingReply response bool
  | ConnEnded

definition CONTROL_COMMAND_QUEUE :: nat where [model_defs]: "CONTROL_COMMAND_QUEUE = 8"

definition accepted :: "u32 \<Rightarrow> string + u32 \<Rightarrow> conn_task" where
  "accepted our_uid peer_cred =
     (case peer_cred of Inl _ \<Rightarrow> ConnEnded | Inr peer_uid \<Rightarrow> if peer_uid \<noteq> our_uid then ConnEnded else ReadingFrame)"

fun begin_request ::
  "('j, 'octo, 'oid) control_env \<Rightarrow> instant \<Rightarrow> request \<Rightarrow> instant option \<Rightarrow> ('j, 'octo, 'oid) daemon_control \<Rightarrow> instant option \<times> conn_task"
where
  "begin_request env now (TriggerRequest i flow dry_run) gate dc = (gate, SendingCommand i (TriggerCommand flow dry_run))"
| "begin_request env now (StatusRequest i flow) gate dc = (gate, WritingReply (reply_of i (control_status env flow dc)) False)"
| "begin_request env now (ReloadRequest i) gate dc =
     (let (gate', acquired) = try_acquire gate now
      in (gate', if acquired then SendingCommand i ReloadCommand else WritingReply (ErrorResponse i ''reload rate-limited'') False))"
| "begin_request env now (VersionRequest i) gate dc =
     (gate, WritingReply (reply_of i (Inr (JObject [''version'' \<mapsto> JStr (co_version env)]))) False)"

definition read_frame ::
  "(string \<Rightarrow> string + request) \<Rightarrow> ('j, 'octo, 'oid) control_env \<Rightarrow> instant \<Rightarrow> read_event \<Rightarrow> instant option \<Rightarrow> ('j, 'octo, 'oid) daemon_control
     \<Rightarrow> instant option \<times> conn_task"
where
  "read_frame decode env now ev gate dc =
     (case ev of
        ReadCancelled \<Rightarrow> (gate, ConnEnded)
      | ReadTimedOut \<Rightarrow> (gate, ConnEnded)
      | ReadEof \<Rightarrow> (gate, ConnEnded)
      | FrameError e \<Rightarrow> (gate, WritingReply (ErrorResponse 0 (''frame error: '' @ e)) True)
      | Frame bytes \<Rightarrow>
         (case decode bytes of
            Inl e \<Rightarrow> (gate, WritingReply (ErrorResponse 0 (''invalid request: '' @ e)) False)
          | Inr req \<Rightarrow> begin_request env now req gate dc))"

section \<open>The server and the main loop\<close>

text \<open>
  What the main loop does: it selects; after a signal it has cancelled the root token and waits for the
  flow tasks, for the control server, and for the writer thread.
\<close>

datatype main_phase = Selecting | DrainingFlows | AwaitingControl | AwaitingWriter | ShutdownComplete

text \<open>
  \<open>sr_conns\<close> is the join set of the server; a task stays in it until it is joined. \<open>sr_queue\<close> is the
  command channel, each command with the task and request its reply goes to. \<open>sr_served\<close> says that
  \<open>serve\<close> has returned. \<open>sr_reloads\<close> is the history of the reloads that passed the gate.
\<close>

record ('j, 'octo, 'oid) server =
  sr_gate :: "instant option"
  sr_accepting :: bool
  sr_cancelled :: bool
  sr_served :: bool
  sr_conns :: "nat \<rightharpoonup> conn_task"
  sr_queue :: "(nat \<times> uuid \<times> control_command) list"
  sr_main :: main_phase
  sr_daemon :: "('j, 'octo, 'oid) daemon_control"
  sr_reloads :: "instant list"

definition server_start :: "('j, 'octo, 'oid) daemon_control \<Rightarrow> ('j, 'octo, 'oid) server" where
  "server_start dc = \<lparr>sr_gate = None, sr_accepting = True, sr_cancelled = False, sr_served = False, sr_conns = Map.empty, sr_queue = [],
     sr_main = Selecting, sr_daemon = dc, sr_reloads = []\<rparr>"

definition put_conn :: "nat \<Rightarrow> conn_task \<Rightarrow> ('j, 'octo, 'oid) server \<Rightarrow> ('j, 'octo, 'oid) server" where
  "put_conn c t s = s\<lparr>sr_conns := (sr_conns s)(c \<mapsto> t)\<rparr>"

definition after_read :: "nat \<Rightarrow> instant \<Rightarrow> instant option \<times> conn_task \<Rightarrow> ('j, 'octo, 'oid) server \<Rightarrow> ('j, 'octo, 'oid) server" where
  "after_read c now r s =
     put_conn c (snd r) (s\<lparr>sr_gate := fst r,
       sr_reloads := sr_reloads s @ (case snd r of SendingCommand _ ReloadCommand \<Rightarrow> [now] | _ \<Rightarrow> [])\<rparr>)"

definition written :: "(response \<Rightarrow> string) \<Rightarrow> bool \<Rightarrow> response \<Rightarrow> bool \<Rightarrow> conn_task" where
  "written encode socket_ok resp closing = (if closing \<or> \<not> send_response encode socket_ok resp then ConnEnded else ReadingFrame)"

text \<open>
  One step of one of the tasks. The reads of a cancelled server may still give a frame: the \<open>select\<close> takes
  whichever is ready. The main loop handles a command, or another event, in one step; the state
  mirror moves on its own. (A manual trigger for a flow whose channel is full makes the main loop wait
  within that step.) The receiver of the commands lives until the daemon returns.
\<close>

inductive server_step ::
  "(string \<Rightarrow> string + request) \<Rightarrow> (response \<Rightarrow> string) \<Rightarrow> u32 \<Rightarrow> ('j, 'octo, 'oid) server \<Rightarrow> ('j, 'octo, 'oid) server \<Rightarrow> bool"
for decode :: "string \<Rightarrow> string + request" and encode :: "response \<Rightarrow> string" and our_uid :: u32
where
  accept: "sr_accepting s \<Longrightarrow> sr_conns s c = None \<Longrightarrow> server_step decode encode our_uid s (put_conn c (accepted our_uid peer_cred) s)"
| stop_accepting: "sr_accepting s \<Longrightarrow> sr_cancelled s \<Longrightarrow> server_step decode encode our_uid s (s\<lparr>sr_accepting := False\<rparr>)"
| conn_read: "sr_conns s c = Some ReadingFrame \<Longrightarrow> ev = ReadCancelled \<longrightarrow> sr_cancelled s \<Longrightarrow>
    server_step decode encode our_uid s (after_read c now (read_frame decode env now ev (sr_gate s) (sr_daemon s)) s)"
| conn_write: "sr_conns s c = Some (WritingReply resp closing) \<Longrightarrow>
    server_step decode encode our_uid s (put_conn c (written encode socket_ok resp closing) s)"
| conn_send: "sr_conns s c = Some (SendingCommand i cmd) \<Longrightarrow> length (sr_queue s) < CONTROL_COMMAND_QUEUE \<Longrightarrow>
    server_step decode encode our_uid s (put_conn c (AwaitingReply i) (s\<lparr>sr_queue := sr_queue s @ [(c, i, cmd)]\<rparr>))"
| main_command: "sr_main s = Selecting \<Longrightarrow> sr_queue s = (c, i, cmd) # q \<Longrightarrow> handle_control_command env cmd (sr_daemon s) = (r, dc) \<Longrightarrow>
    server_step decode encode our_uid s (put_conn c (WritingReply (reply_of i r) False) (s\<lparr>sr_queue := q, sr_daemon := dc\<rparr>))"
| main_event: "sr_main s = Selecting \<Longrightarrow> valid_event e \<Longrightarrow>
    server_step decode encode our_uid s
      (s\<lparr>sr_daemon := (sr_daemon s)\<lparr>dc_supervisor := daemon_event_step (dc_supervisor (sr_daemon s)) e\<rparr>\<rparr>)"
| mirror_moved: "server_step decode encode our_uid s (s\<lparr>sr_daemon := (sr_daemon s)\<lparr>dc_mirror := m\<rparr>\<rparr>)"
| signal: "sr_main s = Selecting \<Longrightarrow> server_step decode encode our_uid s (s\<lparr>sr_main := DrainingFlows, sr_cancelled := True\<rparr>)"
| flows_drained: "sr_main s = DrainingFlows \<Longrightarrow>
    server_step decode encode our_uid s
      (s\<lparr>sr_main := AwaitingControl, sr_daemon := (sr_daemon s)\<lparr>dc_supervisor := daemon_shutdown (dc_supervisor (sr_daemon s))\<rparr>\<rparr>)"
| conn_joined: "\<not> sr_accepting s \<Longrightarrow> sr_conns s c = Some ConnEnded \<Longrightarrow>
    server_step decode encode our_uid s (s\<lparr>sr_conns := (sr_conns s)(c := None)\<rparr>)"
| serve_ends: "\<not> sr_accepting s \<Longrightarrow> sr_conns s = Map.empty \<Longrightarrow> server_step decode encode our_uid s (s\<lparr>sr_served := True\<rparr>)"
| control_joined: "sr_main s = AwaitingControl \<Longrightarrow> sr_served s \<Longrightarrow> server_step decode encode our_uid s (s\<lparr>sr_main := AwaitingWriter\<rparr>)"
| writer_joined: "sr_main s = AwaitingWriter \<Longrightarrow> server_step decode encode our_uid s (s\<lparr>sr_main := ShutdownComplete\<rparr>)"

abbreviation server_steps ::
  "(string \<Rightarrow> string + request) \<Rightarrow> (response \<Rightarrow> string) \<Rightarrow> u32 \<Rightarrow> ('j, 'octo, 'oid) server \<Rightarrow> ('j, 'octo, 'oid) server \<Rightarrow> bool" where
  "server_steps decode encode our_uid \<equiv> (server_step decode encode our_uid)\<^sup>*\<^sup>*"

definition server_reachable ::
  "(string \<Rightarrow> string + request) \<Rightarrow> (response \<Rightarrow> string) \<Rightarrow> u32 \<Rightarrow> ('j, 'octo, 'oid) server \<Rightarrow> bool" where
  "server_reachable decode encode our_uid s \<longleftrightarrow> (\<exists>dc. server_steps decode encode our_uid (server_start dc) s)"

text \<open>A task that waits for the main loop, directly or for room in the channel.\<close>

fun waits_for_main :: "conn_task option \<Rightarrow> bool" where
  "waits_for_main (Some (SendingCommand _ _)) = True"
| "waits_for_main (Some (AwaitingReply _)) = True"
| "waits_for_main _ = False"

section \<open>Lemmas\<close>

lemma begin_request_task:
  "(\<exists>resp. snd (begin_request env now req gate dc) = WritingReply resp False) \<or>
   (\<exists>i cmd. snd (begin_request env now req gate dc) = SendingCommand i cmd)"
  by (cases req) (auto simp: Let_def case_prod_beta)

lemma begin_request_waits [simp]: "snd (begin_request env now req gate dc) \<noteq> AwaitingReply i"
  using begin_request_task [of env now req gate dc] by auto

lemma no_reload:
  assumes "\<And>i. req \<noteq> ReloadRequest i"
  shows "fst (begin_request env now req gate dc) = gate" and "snd (begin_request env now req gate dc) \<noteq> SendingCommand j ReloadCommand"
  using assms by (cases req; simp)+

lemma read_frame_waits [simp]: "snd (read_frame decode env now ev gate dc) \<noteq> AwaitingReply i"
  by (simp add: read_frame_def split: read_event.splits sum.splits)

lemma accepted_task [simp]: "accepted our_uid peer_cred \<noteq> AwaitingReply i"
  by (auto simp: accepted_def split: sum.splits)

lemma written_task [simp]: "written encode ok resp closing \<noteq> AwaitingReply i"
  by (simp add: written_def)

lemmas server_simps = put_conn_def after_read_def server_start_def

text \<open>A channel entry and the task that waits for its reply belong together.\<close>

definition replies_owed :: "('j, 'octo, 'oid) server \<Rightarrow> bool" where
  "replies_owed s \<longleftrightarrow> distinct (map fst (sr_queue s)) \<and>
     (\<forall>c i. sr_conns s c = Some (AwaitingReply i) \<longleftrightarrow> (\<exists>cmd. (c, i, cmd) \<in> set (sr_queue s)))"

definition shutdown_wf :: "('j, 'octo, 'oid) server \<Rightarrow> bool" where
  "shutdown_wf s \<longleftrightarrow> finite (dom (sr_conns s)) \<and> (sr_served s \<longrightarrow> sr_conns s = Map.empty \<and> \<not> sr_accepting s) \<and>
     (sr_main s \<in> {AwaitingWriter, ShutdownComplete} \<longrightarrow> sr_served s) \<and> (sr_cancelled s \<longleftrightarrow> sr_main s \<noteq> Selecting) \<and>
     (sr_main s \<in> {AwaitingControl, AwaitingWriter, ShutdownComplete} \<longrightarrow> sv_tasks (dc_supervisor (sr_daemon s)) = [])"

definition gate_wf :: "('j, 'octo, 'oid) server \<Rightarrow> bool" where
  "gate_wf s \<longleftrightarrow> sorted_wrt (\<lambda>a b. a + int RELOAD_WINDOW \<le> b) (sr_reloads s) \<and>
     (\<forall>t \<in> set (sr_reloads s). \<exists>g. sr_gate s = Some g \<and> t \<le> g)"

lemma owed_change:
  assumes "replies_owed s" and "sr_queue s' = sr_queue s" and "sr_conns s' = (sr_conns s)(c := t)"
    and "\<And>i. sr_conns s c \<noteq> Some (AwaitingReply i)" and "\<And>i. t \<noteq> Some (AwaitingReply i)"
  shows "replies_owed s'"
  using assms unfolding replies_owed_def by (metis fun_upd_other fun_upd_same)

lemma owed_step: "server_step decode encode our_uid s s' \<Longrightarrow> replies_owed s \<Longrightarrow> replies_owed s'"
proof (induction rule: server_step.induct)
  case (accept s c peer_cred)
  then show ?case by (intro owed_change [OF accept.prems, where c = c and t = "Some (accepted our_uid peer_cred)"]) (simp_all add: put_conn_def)
next
  case (conn_read s c ev now env)
  then show ?case
    by (intro owed_change [OF conn_read.prems, where c = c and t = "Some (snd (read_frame decode env now ev (sr_gate s) (sr_daemon s)))"])
      (simp_all add: server_simps)
next
  case (conn_write s c resp closing socket_ok)
  then show ?case by (intro owed_change [OF conn_write.prems, where c = c and t = "Some (written encode socket_ok resp closing)"]) (simp_all add: put_conn_def)
next
  case (conn_joined s c)
  then show ?case by (intro owed_change [OF conn_joined.prems, where c = c and t = None]) simp_all
next
  case (conn_send s c i cmd)
  then have "\<forall>j cmd. (c, j, cmd) \<notin> set (sr_queue s)" unfolding replies_owed_def by (metis conn_task.distinct(9) option.inject)
  with conn_send show ?case by (auto simp: replies_owed_def put_conn_def image_iff)
next
  case (main_command s c i cmd q env r dc)
  then show ?case by (auto simp: replies_owed_def put_conn_def image_iff split: if_splits)
qed (simp_all add: replies_owed_def)

lemma shutdown_step: "server_step decode encode our_uid s s' \<Longrightarrow> shutdown_wf s \<Longrightarrow> replies_owed s \<Longrightarrow> shutdown_wf s'"
proof (induction rule: server_step.induct)
  case (main_command s c i cmd q env r dc)
  then have "sr_conns s c = Some (AwaitingReply i)" by (auto simp: replies_owed_def)
  with main_command show ?case by (auto simp: shutdown_wf_def put_conn_def)
qed (auto simp: shutdown_wf_def put_conn_def after_read_def daemon_shutdown_def)

lemma gate_step: "server_step decode encode our_uid s s' \<Longrightarrow> gate_wf s \<Longrightarrow> gate_wf s'"
proof (induction rule: server_step.induct)
  case (conn_read s c ev now env)
  show ?case
  proof (cases "\<exists>bytes i. ev = Frame bytes \<and> decode bytes = Inr (ReloadRequest i)")
    case True
    with conn_read show ?thesis
      by (cases "sr_gate s") (auto simp: gate_wf_def server_simps read_frame_def Let_def try_acquire_def sorted_wrt_append
          RELOAD_WINDOW_def from_secs_def split: if_splits; force)+
  next
    case False
    then have "fst (read_frame decode env now ev (sr_gate s) (sr_daemon s)) = sr_gate s"
      "\<And>j. snd (read_frame decode env now ev (sr_gate s) (sr_daemon s)) \<noteq> SendingCommand j ReloadCommand"
      by (auto simp: read_frame_def no_reload split: read_event.splits sum.splits)
    with conn_read show ?thesis by (auto simp: gate_wf_def server_simps split: conn_task.splits control_command.splits)
  qed
qed (simp_all add: gate_wf_def put_conn_def)

lemma reachable_invs:
  assumes "server_reachable decode encode our_uid s"
  shows "replies_owed s \<and> shutdown_wf s \<and> gate_wf s"
proof -
  obtain dc where "server_steps decode encode our_uid (server_start dc) s" using assms by (auto simp: server_reachable_def)
  then show ?thesis
  proof (induction rule: rtranclp_induct)
    case base
    show ?case by (simp add: replies_owed_def shutdown_wf_def gate_wf_def server_start_def)
  next
    case (step s s')
    then show ?case using owed_step shutdown_step gate_step by blast
  qed
qed

lemma reachable_steps:
  "server_reachable decode encode our_uid s \<Longrightarrow> server_steps decode encode our_uid s s' \<Longrightarrow> server_reachable decode encode our_uid s'"
  unfolding server_reachable_def by (meson rtranclp_trans)

text \<open>Nothing but the main loop answers a task that waits for it.\<close>

lemma waiting_step:
  "server_step decode encode our_uid s s' \<Longrightarrow> sr_main s \<noteq> Selecting \<Longrightarrow> waits_for_main (sr_conns s c) \<Longrightarrow>
     sr_main s' \<noteq> Selecting \<and> waits_for_main (sr_conns s' c)"
  by (induction rule: server_step.induct) (auto simp: put_conn_def after_read_def)

lemma waiting_forever:
  assumes "server_steps decode encode our_uid s s'" and "sr_main s \<noteq> Selecting" and "waits_for_main (sr_conns s c)"
  shows "waits_for_main (sr_conns s' c)"
proof -
  from assms have "sr_main s' \<noteq> Selecting \<and> waits_for_main (sr_conns s' c)"
    by (induction rule: rtranclp_induct) (use waiting_step in blast)+
  then show ?thesis by simp
qed

text \<open>Tasks are joined only after the accept loop: until then every connection ever served keeps its entry.\<close>

lemma accepting_step:
  "server_step decode encode our_uid s s' \<Longrightarrow> sr_accepting s' \<Longrightarrow> sr_accepting s \<and> dom (sr_conns s) \<subseteq> dom (sr_conns s')"
  by (induction rule: server_step.induct) (auto simp: put_conn_def after_read_def)

lemma tasks_kept_while_accepting:
  "server_steps decode encode our_uid s s' \<Longrightarrow> sr_accepting s' \<Longrightarrow> dom (sr_conns s) \<subseteq> dom (sr_conns s')"
  by (induction rule: rtranclp_induct) (use accepting_step in blast)+

text \<open>A task that does not wait for the main loop can be closed and joined.\<close>

lemma close_one:
  assumes "\<not> sr_accepting s" and "sr_cancelled s" and "sr_conns s c = Some t" and "\<not> waits_for_main (Some t)"
  shows "server_steps decode encode our_uid s (s\<lparr>sr_conns := (sr_conns s)(c := None)\<rparr>)"
proof -
  let ?ended = "s\<lparr>sr_conns := (sr_conns s)(c \<mapsto> ConnEnded)\<rparr>"
  have "server_steps decode encode our_uid s ?ended"
  proof (cases t)
    case ReadingFrame
    with conn_read [where ev = ReadCancelled and s = s and c = c] assms show ?thesis
      by (fastforce simp: read_frame_def after_read_def put_conn_def)
  next
    case (WritingReply resp closing)
    with conn_write [where socket_ok = False and s = s and c = c] assms show ?thesis
      by (fastforce simp: written_def send_response_def put_conn_def)
  next
    case ConnEnded
    with assms show ?thesis by (simp add: map_upd_triv)
  qed (use assms in simp_all)
  moreover have "server_step decode encode our_uid ?ended (?ended\<lparr>sr_conns := (sr_conns ?ended)(c := None)\<rparr>)"
    using assms by (intro conn_joined) simp_all
  ultimately show ?thesis by simp
qed

lemma close_all:
  assumes "finite C" and "dom (sr_conns s) = C" and "\<not> sr_accepting s" and "sr_cancelled s" and "\<forall>c. \<not> waits_for_main (sr_conns s c)"
  shows "server_steps decode encode our_uid s (s\<lparr>sr_conns := Map.empty\<rparr>)"
  using assms
proof (induction C arbitrary: s rule: finite_induct)
  case empty
  then have "s\<lparr>sr_conns := Map.empty\<rparr> = s" by simp
  then show ?case by simp
next
  case (insert c C)
  then obtain t where t: "sr_conns s c = Some t" by blast
  let ?s = "s\<lparr>sr_conns := (sr_conns s)(c := None)\<rparr>"
  have "server_steps decode encode our_uid s ?s" using insert.prems by (intro close_one [OF _ _ t]) (simp_all flip: t)
  moreover have "server_steps decode encode our_uid ?s (?s\<lparr>sr_conns := Map.empty\<rparr>)"
  proof (rule insert.IH)
    show "dom (sr_conns ?s) = C" using insert.hyps(2) insert.prems(1) by (simp add: dom_fun_upd del: fun_upd_apply)
  qed (use insert.prems in simp_all)
  ultimately show ?case by simp
qed

lemma step_then:
  "server_step decode encode our_uid s u \<Longrightarrow> \<exists>s'. server_steps decode encode our_uid u s' \<and> P s' \<Longrightarrow>
     \<exists>s'. server_steps decode encode our_uid s s' \<and> P s'"
  by (meson converse_rtranclp_into_rtranclp)

lemma finish_writer:
  assumes "sr_main s = AwaitingWriter"
  shows "\<exists>s'. server_steps decode encode our_uid s s' \<and> sr_main s' = ShutdownComplete"
proof (rule step_then)
  show "server_step decode encode our_uid s (s\<lparr>sr_main := ShutdownComplete\<rparr>)" using assms by (rule writer_joined)
qed (rule exI [of _ "s\<lparr>sr_main := ShutdownComplete\<rparr>"], simp)

lemma finish_control:
  assumes "sr_main s = AwaitingControl" and "sr_served s"
  shows "\<exists>s'. server_steps decode encode our_uid s s' \<and> sr_main s' = ShutdownComplete"
proof (rule step_then)
  show "server_step decode encode our_uid s (s\<lparr>sr_main := AwaitingWriter\<rparr>)" using assms by (rule control_joined)
qed (rule finish_writer, simp)

lemma finish_served:
  assumes "sr_served s" and "sr_main s \<noteq> Selecting"
  shows "\<exists>s'. server_steps decode encode our_uid s s' \<and> sr_main s' = ShutdownComplete"
proof (cases "sr_main s")
  case DrainingFlows
  show ?thesis
  proof (rule step_then)
    show "server_step decode encode our_uid s
      (s\<lparr>sr_main := AwaitingControl, sr_daemon := (sr_daemon s)\<lparr>dc_supervisor := daemon_shutdown (dc_supervisor (sr_daemon s))\<rparr>\<rparr>)"
      using DrainingFlows by (rule flows_drained)
  qed (rule finish_control, simp_all add: assms(1))
next
  case ShutdownComplete
  then show ?thesis by (intro exI [of _ s]) simp
qed (use assms finish_writer finish_control in simp_all)

lemma can_finish:
  assumes "shutdown_wf s" and "sr_main s \<noteq> Selecting" and "\<forall>c. \<not> waits_for_main (sr_conns s c)"
  shows "\<exists>s'. server_steps decode encode our_uid s s' \<and> sr_main s' = ShutdownComplete"
proof -
  let ?R = "server_step decode encode our_uid"
  let ?s1 = "s\<lparr>sr_accepting := False\<rparr>"
  let ?s2 = "?s1\<lparr>sr_conns := Map.empty\<rparr>"
  let ?s3 = "?s2\<lparr>sr_served := True\<rparr>"
  have c: "sr_cancelled s" "finite (dom (sr_conns s))" using assms by (simp_all add: shutdown_wf_def)
  have "?R\<^sup>*\<^sup>* s ?s1"
  proof (cases "sr_accepting s")
    case True
    with c show ?thesis by (intro r_into_rtranclp stop_accepting)
  next
    case False
    then have "?s1 = s" by simp
    then show ?thesis by simp
  qed
  also have "?R\<^sup>*\<^sup>* ?s1 ?s2" using c assms(3) by (intro close_all [OF _ refl]) simp_all
  also have "?R\<^sup>*\<^sup>* ?s2 ?s3" by (intro r_into_rtranclp serve_ends) simp_all
  finally have "?R\<^sup>*\<^sup>* s ?s3" .
  moreover obtain s' where "?R\<^sup>*\<^sup>* ?s3 s'" "sr_main s' = ShutdownComplete" 
    using finish_served [of ?s3 decode encode our_uid] assms(2) by auto
  ultimately show ?thesis by (meson rtranclp_trans)
qed

text \<open>While the main loop selects, it can empty the channel.\<close>

lemma drain_queue:
  assumes "sr_main s = Selecting" and "replies_owed s"
  shows "\<exists>s'. server_steps decode encode our_uid s s' \<and> sr_main s' = Selecting \<and> sr_queue s' = [] \<and>
    (\<forall>c. if \<exists>i. sr_conns s c = Some (AwaitingReply i)
      then \<exists>i r. sr_conns s c = Some (AwaitingReply i) \<and> sr_conns s' c = Some (WritingReply (reply_of i r) False)
      else sr_conns s' c = sr_conns s c)"
  using assms
proof (induction "sr_queue s" arbitrary: s)
  case Nil
  then show ?case by (intro exI [of _ s]) (simp add: replies_owed_def flip: Nil(1))
next
  case (Cons x q)
  obtain c i cmd where x: "x = (c, i, cmd)" by (cases x)
  obtain r dc where h: "handle_control_command undefined cmd (sr_daemon s) = (r, dc)" by (metis surj_pair)
  let ?u = "put_conn c (WritingReply (reply_of i r) False) (s\<lparr>sr_queue := q, sr_daemon := dc\<rparr>)"
  have st: "server_step decode encode our_uid s ?u" using Cons.prems(1) Cons.hyps(2) x h by (intro main_command) simp_all
  have wait: "sr_conns s c = Some (AwaitingReply i)" using Cons.prems(2) Cons.hyps(2) x unfolding replies_owed_def by (metis list.set_intros(1))
  have "q = sr_queue ?u" "sr_main ?u = Selecting" "replies_owed ?u"
    using Cons.prems owed_step [OF st] by (simp_all add: put_conn_def)
  from Cons.hyps(1) [OF this] obtain s' where s': "server_steps decode encode our_uid ?u s'" "sr_main s' = Selecting" "sr_queue s' = []"
    "\<And>d. if \<exists>i. sr_conns ?u d = Some (AwaitingReply i)
      then \<exists>i r. sr_conns ?u d = Some (AwaitingReply i) \<and> sr_conns s' d = Some (WritingReply (reply_of i r) False)
      else sr_conns s' d = sr_conns ?u d" by blast
  have "if \<exists>i. sr_conns s d = Some (AwaitingReply i)
      then \<exists>i r. sr_conns s d = Some (AwaitingReply i) \<and> sr_conns s' d = Some (WritingReply (reply_of i r) False)
      else sr_conns s' d = sr_conns s d" for d
    using s'(4) [of d] wait by (cases "d = c") (auto simp: put_conn_def)
  with s'(2,3) converse_rtranclp_into_rtranclp [OF st s'(1)] show ?case by blast
qed

lemma answer_sender:
  assumes "sr_main s = Selecting" and "replies_owed s" and "sr_conns s c = Some (SendingCommand i cmd)"
  shows "\<exists>s' r. server_steps decode encode our_uid s s' \<and> sr_conns s' c = Some (WritingReply (reply_of i r) False)"
proof -
  let ?R = "server_step decode encode our_uid"
  obtain u where u: "?R\<^sup>*\<^sup>* s u" "sr_main u = Selecting" "sr_queue u = []" "sr_conns u c = Some (SendingCommand i cmd)"
    using drain_queue [OF assms(1,2), of decode encode our_uid] assms(3) by fastforce
  let ?v = "put_conn c (AwaitingReply i) (u\<lparr>sr_queue := sr_queue u @ [(c, i, cmd)]\<rparr>)"
  obtain r dc where h: "handle_control_command undefined cmd (sr_daemon ?v) = (r, dc)" by (metis surj_pair)
  have "?R u ?v" using u(3,4) by (intro conn_send) (simp_all add: CONTROL_COMMAND_QUEUE_def)
  moreover have "?R ?v (put_conn c (WritingReply (reply_of i r) False) (?v\<lparr>sr_queue := [], sr_daemon := dc\<rparr>))"
    using u(2,3) h by (intro main_command) (simp_all add: put_conn_def)
  ultimately have "?R\<^sup>*\<^sup>* s (put_conn c (WritingReply (reply_of i r) False) (?v\<lparr>sr_queue := [], sr_daemon := dc\<rparr>))"
    using u(1) by (meson rtranclp.rtrancl_into_rtrancl)
  then show ?thesis by (intro exI conjI) (auto simp: put_conn_def)
qed

text \<open>The pieces of an uninterrupted request are \<open>dispatch_request\<close>.\<close>

lemma dispatch_pieces:
  assumes "co_fate env = CommandHandled"
  shows "begin_request env now req gate dc = (gate', WritingReply resp closing) \<Longrightarrow>
      \<not> closing \<and> dispatch_request (control_handler env) now req (gate, dc) = (resp, gate', dc)"
    and "begin_request env now req gate dc = (gate', SendingCommand i cmd) \<Longrightarrow> handle_control_command env cmd dc = (r, dc') \<Longrightarrow>
      dispatch_request (control_handler env) now req (gate, dc) = (reply_of i r, gate', dc')"
  using assms by (cases req; auto simp: control_handler_def dispatch_cmd_def Let_def case_prod_beta split: if_splits)+

section \<open>Properties\<close>

text \<open>
  C8. The shutdown of the daemon: once a signal has ended the main loop, the shutdown can complete exactly
  if no connection task waits for the main loop, and a completed one leaves no task and no unanswered
  command behind. A command that was in the channel when the signal came is never answered, since the
  receiver is still alive while the daemon waits for the control server: the daemon then hangs.
\<close>

theorem shutdown_completes_iff:
  assumes "server_reachable decode encode our_uid s" and "sr_main s \<noteq> Selecting"
  shows "((\<exists>s'. server_steps decode encode our_uid s s' \<and> sr_main s' = ShutdownComplete) \<longleftrightarrow> (\<forall>c. \<not> waits_for_main (sr_conns s c))) \<and>
    (\<forall>s'. server_steps decode encode our_uid s s' \<and> sr_main s' = ShutdownComplete \<longrightarrow>
       sr_conns s' = Map.empty \<and> sr_queue s' = [] \<and> sv_tasks (dc_supervisor (sr_daemon s')) = [])"
proof -
  have clean: "sr_conns s' = Map.empty \<and> sr_queue s' = [] \<and> sv_tasks (dc_supervisor (sr_daemon s')) = []"
    if "server_steps decode encode our_uid s s'" "sr_main s' = ShutdownComplete" for s'
  proof -
    have inv: "replies_owed s' \<and> shutdown_wf s'" using reachable_invs reachable_steps [OF assms(1) that(1)] by blast
    with that(2) have empty: "sr_conns s' = Map.empty" "sv_tasks (dc_supervisor (sr_daemon s')) = []" by (auto simp: shutdown_wf_def)
    moreover have "sr_queue s' = []" using inv empty(1) unfolding replies_owed_def by (cases "sr_queue s'") fastforce+
    ultimately show ?thesis by simp
  qed
  moreover have "\<not> waits_for_main (sr_conns s c)"
    if "server_steps decode encode our_uid s s'" "sr_main s' = ShutdownComplete" for s' c
    using waiting_forever [OF that(1) assms(2), of c] clean [OF that] by auto
  moreover note can_finish [of s decode encode our_uid] reachable_invs [OF assms(1)] assms(2)
  ultimately show ?thesis by blast
qed

text \<open>
  C20. No command is lost while the daemon runs: in every reachable state, a connection task that waits for
  the main loop, with up to eight commands before it, can be answered with the id of its request
  exactly if the main loop still selects.
\<close>

theorem command_answered_iff_selecting:
  assumes "server_reachable decode encode our_uid s" and "sr_conns s c \<in> {Some (SendingCommand i cmd), Some (AwaitingReply i)}"
  shows "(\<exists>s' resp. server_steps decode encode our_uid s s' \<and> sr_conns s' c = Some (WritingReply resp False) \<and> response_id resp = i) \<longleftrightarrow>
    sr_main s = Selecting"
proof
  assume "\<exists>s' resp. server_steps decode encode our_uid s s' \<and> sr_conns s' c = Some (WritingReply resp False) \<and> response_id resp = i"
  then obtain s' resp where s': "server_steps decode encode our_uid s s'" "sr_conns s' c = Some (WritingReply resp False)" by blast
  show "sr_main s = Selecting"
  proof (rule ccontr)
    assume "sr_main s \<noteq> Selecting"
    with waiting_forever [OF s'(1)] assms(2) have "waits_for_main (sr_conns s' c)" by auto
    with s'(2) show False by simp
  qed
next
  assume m: "sr_main s = Selecting"
  have owed: "replies_owed s" using reachable_invs [OF assms(1)] by simp
  show "\<exists>s' resp. server_steps decode encode our_uid s s' \<and> sr_conns s' c = Some (WritingReply resp False) \<and> response_id resp = i"
  proof (cases "sr_conns s c = Some (AwaitingReply i)")
    case True
    then obtain s' r where "server_steps decode encode our_uid s s'" "sr_conns s' c = Some (WritingReply (reply_of i r) False)"
      using drain_queue [OF m owed, of decode encode our_uid] by (metis conn_task.inject(2) option.inject)
    then show ?thesis by (intro exI [of _ s'] exI [of _ "reply_of i r"]) simp
  next
    case False
    with assms(2) answer_sender [OF m owed, of c i cmd decode encode our_uid] show ?thesis by fastforce
  qed
qed

text \<open>
  C21. Over all interleavings of any number of connections, the reload commands that the server puts through
  are at least one second apart.
\<close>

theorem reload_commands_spaced:
  assumes "server_reachable decode encode our_uid s"
  shows "sorted_wrt (\<lambda>a b. a + int (from_secs 1) \<le> b) (sr_reloads s)"
  using reachable_invs [OF assms] by (simp add: gate_wf_def RELOAD_WINDOW_def)


section \<open>Examples\<close>

text \<open>Two connections of one user; each frame is the same request.\<close>

type_synonym example_server = "(unit, unit, nat) server"

abbreviation all_frames :: "request \<Rightarrow> string \<Rightarrow> string + request" where
  "all_frames req \<equiv> \<lambda>_. Inr req"

definition two_conns :: example_server where
  "two_conns = put_conn 1 ReadingFrame (put_conn 0 ReadingFrame (server_start example_control))"

lemma accept_user: "sr_accepting s \<Longrightarrow> sr_conns s c = None \<Longrightarrow> server_step decode encode our_uid s (put_conn c ReadingFrame s)"
  using accept [of s c decode encode our_uid "Inr our_uid"] by (simp add: accepted_def)

lemma two_conns_reachable: "server_steps decode encode our_uid (server_start example_control) two_conns"
proof -
  have "server_step decode encode our_uid (server_start example_control) (put_conn 0 ReadingFrame (server_start example_control))"
    by (rule accept_user) (simp_all add: server_start_def)
  moreover have "server_step decode encode our_uid (put_conn 0 ReadingFrame (server_start example_control)) two_conns"
    unfolding two_conns_def by (rule accept_user) (simp_all add: server_start_def put_conn_def)
  ultimately show ?thesis by (meson r_into_rtranclp rtranclp.rtrancl_into_rtrancl)
qed

abbreviation example_trigger :: control_command where "example_trigger \<equiv> TriggerCommand ''a'' False"

text \<open>Connection 0 has sent a trigger, and has put it into the channel.\<close>

definition trigger_sent :: example_server where
  "trigger_sent = put_conn 0 (SendingCommand 9 example_trigger) two_conns"

definition trigger_queued :: example_server where
  "trigger_queued = put_conn 0 (AwaitingReply 9) (trigger_sent\<lparr>sr_queue := [(0, 9, example_trigger)]\<rparr>)"

lemmas example_server_simps = trigger_queued_def trigger_sent_def two_conns_def server_simps

lemma trigger_queued_reachable: "server_reachable (all_frames (TriggerRequest 9 ''a'' False)) encode our_uid trigger_queued"
proof -
  let ?R = "server_step (all_frames (TriggerRequest 9 ''a'' False)) encode our_uid"
  have "?R two_conns trigger_sent"
    using conn_read [of two_conns 0 "Frame []" "all_frames (TriggerRequest 9 ''a'' False)" encode our_uid 0 example_control_env]
    by (simp add: example_server_simps read_frame_def)
  moreover have "?R trigger_sent trigger_queued"
    using conn_send [of trigger_sent 0 9 example_trigger "all_frames (TriggerRequest 9 ''a'' False)" encode our_uid]
    by (simp add: example_server_simps CONTROL_COMMAND_QUEUE_def)
  ultimately show ?thesis using two_conns_reachable unfolding server_reachable_def by (meson rtranclp.rtrancl_into_rtrancl)
qed

text \<open>The signal comes while the trigger is in the channel: the daemon does not end.\<close>

theorem shutdown_completes_iff_witness:
  "\<exists>s :: example_server. server_reachable (all_frames (TriggerRequest 9 ''a'' False)) (\<lambda>_. []) 0 s \<and> sr_main s = DrainingFlows \<and>
     sr_queue s = [(0, 9, example_trigger)] \<and>
     \<not> (\<exists>s'. server_steps (all_frames (TriggerRequest 9 ''a'' False)) (\<lambda>_. []) 0 s s' \<and> sr_main s' = ShutdownComplete)"
proof -
  let ?s = "trigger_queued\<lparr>sr_main := DrainingFlows, sr_cancelled := True\<rparr>"
  have "server_step (all_frames (TriggerRequest 9 ''a'' False)) (\<lambda>_. []) 0 trigger_queued ?s"
    by (rule signal) (simp add: example_server_simps)
  with trigger_queued_reachable have r: "server_reachable (all_frames (TriggerRequest 9 ''a'' False)) (\<lambda>_. []) 0 ?s"
    by (blast intro: reachable_steps)
  have "waits_for_main (sr_conns ?s 0)" by (simp add: example_server_simps)
  with shutdown_completes_iff [OF r] have "\<not> (\<exists>s'. server_steps (all_frames (TriggerRequest 9 ''a'' False)) (\<lambda>_. []) 0 ?s s' \<and> sr_main s' = ShutdownComplete)"
    by fastforce
  with r show ?thesis by (intro exI [of _ ?s]) (simp add: example_server_simps)
qed

theorem command_answered_iff_selecting_witness:
  "\<exists>s' resp. server_steps (all_frames (TriggerRequest 9 ''a'' False)) (\<lambda>_. []) 0 trigger_queued s' \<and>
     sr_conns s' 0 = Some (WritingReply resp False) \<and> response_id resp = 9"
  using command_answered_iff_selecting [OF trigger_queued_reachable, of 0 9 example_trigger "\<lambda>_. []" 0] by (simp add: example_server_simps)

theorem reload_commands_spaced_witness:
  "\<exists>s :: example_server. server_reachable (all_frames (ReloadRequest 9)) (\<lambda>_. []) 0 s \<and> sr_reloads s = [0, 2000000000] \<and>
     sorted_wrt (\<lambda>a b. a + int (from_secs 1) \<le> b) (sr_reloads s)"
proof -
  let ?R = "server_step (all_frames (ReloadRequest 9)) (\<lambda>_. []) 0"
  let ?u = "after_read 0 0 (Some 0, SendingCommand 9 ReloadCommand) two_conns"
  let ?s = "after_read 1 2000000000 (Some 2000000000, SendingCommand 9 ReloadCommand) ?u"
  have "?R two_conns ?u"
    using conn_read [of two_conns 0 "Frame []" "all_frames (ReloadRequest 9)" "\<lambda>_. []" 0 0 example_control_env]
    by (simp add: example_server_simps read_frame_def try_acquire_def)
  moreover have "?R ?u ?s"
    using conn_read [of ?u 1 "Frame []" "all_frames (ReloadRequest 9)" "\<lambda>_. []" 0 2000000000 example_control_env]
    by (simp add: example_server_simps read_frame_def try_acquire_def RELOAD_WINDOW_def from_secs_def)
  ultimately have r: "server_reachable (all_frames (ReloadRequest 9)) (\<lambda>_. []) 0 ?s"
    using two_conns_reachable unfolding server_reachable_def by (meson rtranclp.rtrancl_into_rtrancl)
  have "sr_reloads ?s = [0, 2000000000]" by (simp add: example_server_simps)
  with r reload_commands_spaced [OF r] show ?thesis by blast
qed


end
