(* ===== verification/Spec2Isabelle.thy ===== *)
theory Spec2Isabelle
  imports Install_Correct Command_Line Source_Poll Dispatch_Pipeline Control_Server
begin

text \<open>
  Verification of \<open>gcit\<close>, a daemon that polls git refs, dispatches a GitHub Actions workflow when a ref
  has moved, watches the resulting run and notifies Discord or a local mailbox.

  \<^bold>\<open>The program.\<close> A configuration file names flows: a source ref, an action and destinations. The
  supervisor starts two tasks per flow. The poll task asks the source for the SHA of the ref; on a
  change outside of the cooldown it puts a trigger into the flow's channel and an observation into
  the channel of the state writer. The dispatcher task takes the triggers, posts the workflow
  dispatch behind the quota gate and the rate bucket of the credential, finds the run that the
  dispatch created and starts a monitor, which reads the run until it ends and fans its events out to
  the notifiers. The state writer thread applies all updates to one \<open>State\<close> and replaces the state file
  atomically. A reload compares the running flows with the new configuration, keeps the unchanged
  ones and replaces the others; a task that panics is started again. The control socket serves
  status, manual triggers and reloads.

  \<^bold>\<open>The theories\<close>, with the files under \<open>src/src\<close> they model.
  \<^item> \<^verbatim>\<open>Prelude\<close>: time and integer types, the parts of the Rust library several components use, exit codes
    (\<open>cli/exit.rs\<close>), and two locales: \<open>preserved_step\<close> (an invariant along a sequence of events) and
    \<open>keyed_step\<close> (an event changes the entry of its own key only).
  \<^item> \<^verbatim>\<open>State_Apply\<close> (\<open>state/apply.rs\<close>), \<^verbatim>\<open>Atomic_File\<close> (\<open>util.rs\<close>), \<^verbatim>\<open>State_Writer\<close> (\<open>state/writer.rs\<close>,
    \<open>state/mod.rs\<close>): the persistent state. Shown: the state stays well formed and refines a tracker of
    runs; the file holds a complete old or new state after a crash at any point; every update that
    was sent is in the file when the writer ends with a working disk, although earlier writes failed;
    a restart reads the same state back.
  \<^item> \<^verbatim>\<open>Github_Types\<close>, \<^verbatim>\<open>Rate_Gates\<close>, \<^verbatim>\<open>Github_Client\<close>, \<^verbatim>\<open>Paging\<close>, \<^verbatim>\<open>Dispatch\<close>, \<^verbatim>\<open>Correlator\<close> (\<open>github/\<close>,
    \<open>git/rate_bucket.rs\<close>): classification of failures, the two gates as concurrent systems, paginated
    reads (locale \<open>item_step\<close>), dispatch and the search for its run. Shown: slots of a bucket are
    spaced; the quota gate defers when it should; a reported run is one the dispatch can have
    created; the search ends. \<^verbatim>\<open>Dispatch_Retry\<close> repeats a dispatch under what \<open>backon\<close> documents (the
    inductive \<open>backon_retry\<close>): a bounded number of requests, all with the same inputs.
    \<^verbatim>\<open>Dispatch_Pipeline\<close> runs the dispatcher task on this executor: a run that is recorded as started was
    dispatched by one of its triggers.
  \<^item> \<^verbatim>\<open>Poll_Strategy\<close>, \<^verbatim>\<open>Poll_Loop\<close> (\<open>git/\<close>, \<open>flow/poll/\<close>): the strategies and the poll loop. Shown: triggers
    keep the cooldown, a recorded observation follows its trigger, the loop and the persistent state
    agree, and a pending change is dispatched as soon as the cooldown is over (locale
    \<open>resolving_executor\<close>, interpreted by the ls-refs and the refs API strategy; the manifest strategy
    does not satisfy it, and \<open>grokmirror_change_lost\<close> shows why).
  \<^item> \<^verbatim>\<open>Source_Poll\<close> (\<open>git/ls_remote.rs\<close>, \<open>git/grokmirror.rs\<close>, \<open>git/strategy.rs\<close>, \<open>flow/poll/executor.rs\<close>): the
    stages of an exchange with their errors, the production executor and the jitter over an abstract
    IEEE rounding. Shown: a trigger is for an advertised SHA, and the jittered wait is bounded.
  \<^item> \<^verbatim>\<open>Run_Monitor\<close>, \<^verbatim>\<open>Flow_Dispatcher\<close> (\<open>flow/monitor.rs\<close>, \<open>flow/dispatcher/\<close>): every queued trigger is handled
    once, a job is notified once, a run is finished in the state exactly if its monitor saw it end.
  \<^item> \<^verbatim>\<open>Notify\<close>, \<^verbatim>\<open>Mail\<close>, \<^verbatim>\<open>Discord\<close> (\<open>notify/mod.rs\<close>, \<open>mail/\<close>, \<open>discord/\<close>): the notifiers. Shown: a delivered mail
    is read back from the spool with its headers and body; embeds are within the limits.
  \<^item> \<^verbatim>\<open>Credentials\<close>, \<^verbatim>\<open>Supervisor_Types\<close>, \<^verbatim>\<open>Flow_Setup\<close>, \<^verbatim>\<open>Supervisor\<close>, \<^verbatim>\<open>Daemon\<close> (\<open>config/credential.rs\<close>,
    \<open>config/credential_file.rs\<close>, \<open>flow/supervisor/\<close>): secrets and per-credential resources, the setup of
    a flow, spawn, exit, respawn, reload and the main loop. Shown for every reachable state: a flow
    with a handle runs an uncancelled generation of its own; a reload converges to the new
    configuration; secrets come from trusted sources; one quota poller runs per credential.
  \<^item> \<^verbatim>\<open>Config_Types\<close>, \<^verbatim>\<open>Config_Validate\<close>, \<^verbatim>\<open>Config_Checks\<close>, \<^verbatim>\<open>Config_Correct\<close> (\<open>config/\<close>): the validator in the
    state monad over its three accumulators, in the order of the code. The locale \<open>run_relation\<close> carries
    what every validator keeps (errors are only appended, their lines exist); \<open>checks\<close> relates a
    validator to the condition under which it stays silent, what it then returns and which ids it
    records. Shown: the validator accepts exactly the tables that satisfy the declarative conditions,
    and an accepted configuration is well formed.
  \<^item> \<^verbatim>\<open>Config_Check\<close>, \<^verbatim>\<open>Systemd_Unit\<close> (\<open>cli/check.rs\<close>, \<open>config/validate/spool.rs\<close>, \<open>systemd/unit.rs\<close>,
    \<open>cli/validate_template.rs\<close>): a clean check means that the daemon finds its secrets and spools; the
    unit loads each credential; the two template checks agree.
  \<^item> \<^verbatim>\<open>Control\<close> (\<open>control/\<close>, \<open>flow/supervisor/control/\<close>, \<open>cli/trigger.rs\<close>, \<open>cli/reload.rs\<close>): the protocol, the
    connection loop with the reload gate, and the handler (locale \<open>handler_contract\<close>). Shown: replies
    in order with the ids of their requests, reloads at least a second apart, what a manual trigger
    does, and that nothing but an executed reload changes the supervisor.
  \<^item> \<^verbatim>\<open>Control_Server\<close> (\<open>control/server.rs\<close>, the end of \<open>run\<close> in \<open>flow/supervisor/run.rs\<close>): the connection tasks, the
    command channel and the main loop as an interleaving step relation. Shown: it implements the
    atomic requests of \<open>Control\<close>; a command is answered exactly while the main loop selects; when the
    shutdown completes, and that a command in the channel at the signal keeps it from doing so.
  \<^item> \<^verbatim>\<open>Install\<close>, \<^verbatim>\<open>Install_Correct\<close> (\<open>cli/install.rs\<close>, \<open>cli/uninstall.rs\<close>, \<open>systemd/reload.rs\<close>): the wizard with its
    texts, the files it writes through \<open>atomic_write\<close>, the manifest and the removal it drives. Shown:
    which files an install can change, that an uninstall stays within the install directories whatever
    the manifest says, and that it reverses the install.
  \<^item> \<^verbatim>\<open>Startup\<close> (\<open>state/mod.rs\<close>, \<open>systemd/socket.rs\<close>, \<open>flow/supervisor/run.rs\<close>): the paths, the instance lock,
    the control listener and the whole run of the daemon around its main loop; several daemons are a
    step relation over the kernel's locks. Shown: one daemon per lock path, flows start only behind
    the lock and from the persisted state, and a restart does not dispatch again.
  \<^item> \<^verbatim>\<open>Command_Line\<close> (\<open>bin/gcit.rs\<close>, \<open>log/mod.rs\<close>, \<open>cli/status.rs\<close>): what a command line stands for, and \<open>gcit status\<close>.
    Shown: which configuration a service reads, that all parts agree within a user session, and
    that the status text is the daemon's state.
  \<^item> \<^verbatim>\<open>Validated_Daemon\<close>: the daemon fed by the loader. The bounds of the validator hold for every
    generation of tasks, and so for the spacing of its triggers.

  \<^bold>\<open>Reading the model.\<close> A task's loop is a function of a list with one entry per iteration, which
  holds what the environment did in it: clock readings, network answers, whether a wait was cancelled
  and whether channels were open. The theorems hold for all such lists, so no fuel is needed; loops
  that the program bounds (pages, attempts, deadlines) have the program's bounds. Where the code reads
  the clock several times in one step the model uses one reading. Dates are unbounded nanoseconds,
  strings are UTF-8 bytes, run ids are 64-bit words, a finite \<open>f64\<close> is a rational. Cancellation
  tokens are generation numbers. A \<open>BTreeMap\<close> is a map, or the list of its entries where it is iterated.

  \<^bold>\<open>Parameters.\<close> Code that is not part of the repository is an argument: \<open>octocrab\<close> and the HTTP
  exchange, \<open>gix\<close> (refs, object ids), \<open>twilight\<close>, \<open>handlebars\<close>, \<open>toml\<close>, \<open>serde_json\<close>, \<open>humantime\<close>, \<open>url\<close>,
  the text formats of \<open>chrono\<close>, the retry driver of \<open>backon\<close>, \<open>tempfile\<close>, and what system calls return.

  \<^bold>\<open>Not modelled.\<close> The watchdog tick, \<open>sd_notify\<close> and the start of the tokio runtime (calls without
  own logic), the text of log events and TOML decoding.
\<close>

section \<open>Properties that span components\<close>

text \<open>
  C32. A dispatch cancelled by a reload is not retried by the next generation: the poll loop
  that queued the trigger has recorded the SHA, the cancelled handling of the trigger changes
  nothing, and the next generation's loop, started from the persistent state, sends no trigger as
  long as the ref stays where it is.
\<close>

theorem cancelled_dispatch_not_refired:
  assumes "run_with_executor exec params sha0 d0 errors x envs = (ContinueCycle, st1)"
    and "persisted_view s0 (pp_flow_name params) = (map_option to_hex sha0, d0)" and "inj to_hex"
    and "SentTrigger sha t \<in> set (pl_log st1)" and "pl_last_sha st1 = Some sha"
    and "handle_trigger fparams (\<lambda>_ _ _. DispatchFailed Cancelled) tenv
      \<lparr>ts_observed_sha = sha, ts_observed_at = t\<rparr> = (effects, r)"
    and "persisted_view (foldl (apply_update to_hex) s0 (sent_updates (pl_log st1))) (pp_flow_name params) =
      (map_option to_hex sha2, d2)"
    and "run_with_executor exec params sha2 d2 errors2 x2 envs2 = (act2, st2)" and "list_all (only_resolves exec sha) envs2"
  shows "effects = [] \<and> trigger_shas (pl_log st2) = []"
proof -
  have "map_option to_hex sha2 = Some (to_hex sha)"
    using trace_sync [OF run_with_executor_trace [OF assms(1)], of s0 to_hex] assms(2,5,7) by (simp add: hex_view_def)
  then have "sha2 = Some sha" using assms(3) by (auto dest: injD)
  with same_sha_loop [OF assms(8) [unfolded run_with_executor_def], of sha] assms(9)
  have "trigger_shas (pl_log st2) = []" by (simp add: initial_loop_def)
  moreover from assms(6) have "effects = []"
    by (auto simp: handle_trigger_def execute_dispatch_and_correlate_def Let_def split: sum.splits)
  ultimately show ?thesis by simp
qed

definition unary_hex :: "nat \<Rightarrow> string" where
  "unary_hex n = replicate n (CHR ''a'')"

abbreviation example_gen :: "nat \<Rightarrow> instant option \<Rightarrow> instant \<Rightarrow> cycle_action \<times> (string option, nat) loop_state" where
  "example_gen sha d t \<equiv> run_with_executor (poll_one example_hex LsRemote example_source) example_params (Some sha) d
     Map.empty None [example_env t (branch_at 2)]"

definition example_gen_end :: "(string option, nat) loop_state" where
  "example_gen_end = snd (example_gen 1 None 0)"

lemma example_gen_run:
  "example_gen 1 None 0 = (ContinueCycle, example_gen_end)"
  "pl_log example_gen_end = [SentTrigger 2 0, SentUpdate (PollObservation ''ci'' 2 0 (Some 0) (Some 10))]"
  "pl_last_sha example_gen_end = Some 2"
  by (simp_all add: example_gen_end_def run_with_executor_def initial_loop_def poll_iteration_def example_defs
      sleep_or_cancel_def acquire_rate_or_cancel_def handler_defs poll_one.simps ls_remote_inline_def ls_remote_outcome_def
      is_cooled_down_def to_std_def chrono_from_std_def compare_sha_def)

theorem cancelled_dispatch_not_refired_witness:
  "fst (handle_trigger example_flow (\<lambda>_ _ _. DispatchFailed Cancelled) (snd (example_dispatcher_world 0))
      \<lparr>ts_observed_sha = 2, ts_observed_at = 0\<rparr>) = [] \<and> trigger_shas (pl_log (snd (example_gen 2 (Some 0) 60))) = []"
proof (rule cancelled_dispatch_not_refired [where ?s0.0 = "put_entry default_state ''ci'' (default_flow_state\<lparr>last_sha := Some (unary_hex 1)\<rparr>)"
      and to_hex = unary_hex and ?sha2.0 = "Some 2" and ?d2.0 = "Some 0"])
  show "example_gen 1 None 0 = (ContinueCycle, example_gen_end)" by (rule example_gen_run)
  show "inj unary_hex" by (rule injI) (metis unary_hex_def length_replicate)
  show "handle_trigger example_flow (\<lambda>_ _ _. DispatchFailed Cancelled) (snd (example_dispatcher_world 0))
      \<lparr>ts_observed_sha = 2, ts_observed_at = 0\<rparr> =
    (fst (handle_trigger example_flow (\<lambda>_ _ _. DispatchFailed Cancelled) (snd (example_dispatcher_world 0))
      \<lparr>ts_observed_sha = 2, ts_observed_at = 0\<rparr>),
     snd (handle_trigger example_flow (\<lambda>_ _ _. DispatchFailed Cancelled) (snd (example_dispatcher_world 0))
      \<lparr>ts_observed_sha = 2, ts_observed_at = 0\<rparr>))" by simp
  show "example_gen 2 (Some 0) 60 = (fst (example_gen 2 (Some 0) 60), snd (example_gen 2 (Some 0) 60))" by simp
  show "list_all (only_resolves (poll_one example_hex LsRemote example_source) 2) [example_env 60 (branch_at 2)]"
    by (simp add: only_resolves_def poll_one.simps example_defs ls_remote_inline_def ls_remote_outcome_def)
qed (simp_all add: example_gen_run persisted_view_def apply_defs default_state_def default_flow_state_def example_params_def)

end
